(* ===== verification/Kvm_Prelude.thy ===== *)
theory Kvm_Prelude
  imports Main "HOL-Library.Word"
begin

text \<open>
  Shared vocabulary of the development: the machine types of the C code on x86-64, the faults a
  C statement can run into, array accesses that check their bounds, the arguments of a logged
  \<open>printk\<close> line, spin locks, and the generic lemmas on lists and words that several components
  use. Nothing here is specific to one source file.
\<close>

section \<open>Types\<close>

type_synonym u8 = "8 word"
type_synonym u32 = "32 word"
type_synonym u64 = "64 word"

text \<open>
  C's signed \<open>int\<close> is modelled by HOL's \<open>int\<close>; where the code computes with it, the result is
  wrapped explicitly by \<open>to_int32\<close> (the kernel is built with \<open>-fno-strict-overflow\<close>, so signed
  arithmetic wraps). \<open>long\<close>, \<open>unsigned long\<close>, \<open>s64\<close> and \<open>ktime_t\<close> are 64-bit words; a signed
  reading of one is \<open>sint\<close>.
\<close>

definition to_int32 :: "int \<Rightarrow> int" where
  "to_int32 i = signed_take_bit 31 i"

definition ulong_of_int :: "int \<Rightarrow> u64" where
  "ulong_of_int i = word_of_int i"

definition int_of_ulong :: "u64 \<Rightarrow> int" where
  "int_of_ulong w = to_int32 (uint w)"

section \<open>Faults and results\<close>

text \<open>
  What C leaves undefined, or what stops the machine, is a fault; a statement returns a fault or
  a result.
\<close>

datatype fault =
    OutOfBounds       \<comment> \<open>array index outside the array\<close>
  | NullDeref         \<comment> \<open>read, write or call through a null pointer\<close>
  | DivByZero         \<comment> \<open>division by zero\<close>
  | Deadlock          \<comment> \<open>spinning on a lock that its holder cannot release\<close>
  | Unmapped          \<comment> \<open>access to an address no mapping covers\<close>
  | Exit string       \<comment> \<open>the process exits with a failure, after \<open>perror\<close> of the message\<close>

type_synonym 'a res = "fault + 'a"

definition bindR :: "'a res \<Rightarrow> ('a \<Rightarrow> 'b res) \<Rightarrow> 'b res" where
  "bindR m f = (case m of Inl e \<Rightarrow> Inl e | Inr x \<Rightarrow> f x)"

lemma bindR_simps [simp]:
  "bindR (Inl e) f = Inl e"
  "bindR (Inr x) f = f x"
  by (simp_all add: bindR_def)

lemma bindR_Inr_iff: "bindR m f = Inr y \<longleftrightarrow> (\<exists>x. m = Inr x \<and> f x = Inr y)"
  by (cases m) auto

lemma bindR_Inl_iff: "bindR m f = Inl e \<longleftrightarrow> m = Inl e \<or> (\<exists>x. m = Inr x \<and> f x = Inl e)"
  by (cases m) auto

text \<open>Running a fallible step over a list of events, in order, stopping at the first fault.\<close>

fun foldR :: "('e \<Rightarrow> 's \<Rightarrow> 's res) \<Rightarrow> 'e list \<Rightarrow> 's \<Rightarrow> 's res" where
  "foldR f [] s = Inr s"
| "foldR f (e # es) s = bindR (f e s) (foldR f es)"

lemma foldR_append: "foldR f (xs @ ys) s = bindR (foldR f xs s) (foldR f ys)"
proof (induction xs arbitrary: s)
  case (Cons x xs)
  then show ?case by (cases "f x s") auto
qed simp

lemma foldR_inv:
  assumes "foldR f es s = Inr t" and "P s"
    and "\<And>e s t. e \<in> set es \<Longrightarrow> P s \<Longrightarrow> f e s = Inr t \<Longrightarrow> P t"
  shows "P t"
  using assms
proof (induction es arbitrary: s)
  case (Cons e es)
  then obtain u where u: "f e s = Inr u" "foldR f es u = Inr t"
    by (auto simp: bindR_Inr_iff)
  have "P u" by (rule Cons.prems(3) [OF _ Cons.prems(2) u(1)]) simp
  from Cons.IH [OF u(2) this] Cons.prems(3) show ?case
    by (meson list.set_intros(2))
qed simp

lemma foldR_Inr:
  assumes "P s" and "\<And>e s. e \<in> set es \<Longrightarrow> P s \<Longrightarrow> \<exists>t. f e s = Inr t \<and> P t"
  shows "\<exists>t. foldR f es s = Inr t \<and> P t"
  using assms
proof (induction es arbitrary: s)
  case (Cons e es)
  from Cons.prems obtain u where "f e s = Inr u" "P u" by force
  with Cons show ?case by simp
qed simp

text \<open>\<open>for (idx = 0; idx < n; idx++) body\<close>.\<close>

definition for_range :: "nat \<Rightarrow> (int \<Rightarrow> 's \<Rightarrow> 's res) \<Rightarrow> 's \<Rightarrow> 's res" where
  "for_range n body s = foldR body (map int [0..<n]) s"

lemma for_range_0 [simp]: "for_range 0 body s = Inr s"
  by (simp add: for_range_def)

lemma for_range_Suc: "for_range (Suc n) body s = bindR (for_range n body s) (body (int n))"
  by (cases "for_range n body s") (auto simp: for_range_def foldR_append bindR_def split: sum.splits)

section \<open>Arrays\<close>

definition arr_get :: "'a list \<Rightarrow> int \<Rightarrow> 'a res" where
  "arr_get xs i = (if 0 \<le> i \<and> i < int (length xs) then Inr (xs ! nat i) else Inl OutOfBounds)"

definition arr_set :: "'a list \<Rightarrow> int \<Rightarrow> 'a \<Rightarrow> 'a list res" where
  "arr_set xs i v =
     (if 0 \<le> i \<and> i < int (length xs) then Inr (xs[nat i := v]) else Inl OutOfBounds)"

lemma arr_get_in [simp]: "0 \<le> i \<Longrightarrow> i < int (length xs) \<Longrightarrow> arr_get xs i = Inr (xs ! nat i)"
  by (simp add: arr_get_def)

lemma arr_get_nat [simp]: "n < length xs \<Longrightarrow> arr_get xs (int n) = Inr (xs ! n)"
  by (simp add: arr_get_def)

lemma arr_set_in [simp]:
  "0 \<le> i \<Longrightarrow> i < int (length xs) \<Longrightarrow> arr_set xs i v = Inr (xs[nat i := v])"
  by (simp add: arr_set_def)

lemma arr_get_out [simp]: "i < 0 \<or> int (length xs) \<le> i \<Longrightarrow> arr_get xs i = Inl OutOfBounds"
  by (auto simp: arr_get_def)

section \<open>Spin locks\<close>

text \<open>
  Taking a spin lock on one CPU: a lock that is already held can only be released by its holder, so
  the caller spins for ever. (Interleaved executions are modelled by step relations.)
\<close>

definition spin_lock :: "bool \<Rightarrow> bool res" where
  "spin_lock held = (if held then Inl Deadlock else Inr True)"

lemma spin_lock_free [simp]: "spin_lock False = Inr True"
  by (simp add: spin_lock_def)

section \<open>The kernel log\<close>

text \<open>
  A \<open>printk\<close> is recorded as its format string and its arguments, each at its C type; how the
  conversions of the format render the arguments is the business of the kernel.
\<close>

datatype parg = AStr string | AInt int | AUInt u32 | ALong u64

type_synonym log_line = "string \<times> parg list"

text \<open>A format is recorded without its level and without its final newline, which ends the record.\<close>

definition tab :: string where
  "tab = [CHR 0x09]"

section \<open>Lists and sums of words\<close>

lemma sum_list_update_word:
  fixes xs :: "'a::ab_group_add list"
  assumes "i < length xs"
  shows "sum_list (xs[i := v]) = sum_list xs + (v - xs ! i)"
  using assms
proof (induction xs arbitrary: i)
  case (Cons x xs)
  then show ?case by (cases i) (auto simp: algebra_simps)
qed simp

lemma sum_list_filter_zero:
  fixes f :: "'a \<Rightarrow> 'b::comm_monoid_add"
  shows "sum_list (map f (filter (\<lambda>x. f x \<noteq> 0) xs)) = sum_list (map f xs)"
  by (induction xs) auto

lemma sum_list_replicate_zero [simp]: "sum_list (replicate n (0::'a::monoid_add)) = 0"
  by (induction n) auto

lemma sum_list_map_nth: "sum_list (map ((!) xs) [0..<length xs]) = sum_list xs"
  by (simp add: map_nth)

lemma sum_list_upt_delta:
  "r < n \<Longrightarrow> sum_list (map (\<lambda>i. if i = r then d else 0) [0..<n]) = (d::'a::comm_monoid_add)"
  by (simp add: interv_sum_list_conv_sum_set_nat)

lemma of_nat_word_eq_iff:
  "(of_nat m :: 'a::len word) = of_nat n \<longleftrightarrow> m mod 2 ^ LENGTH('a) = n mod 2 ^ LENGTH('a)"
  by (simp add: word_of_nat_eq_iff take_bit_eq_mod)

lemma unat_of_nat_small: "n < 2 ^ LENGTH('a) \<Longrightarrow> unat (of_nat n :: 'a::len word) = n"
  by (simp add: unat_of_nat take_bit_nat_eq_self)

text \<open>A table filled by successive assignments holds, at each index, the last value assigned there.\<close>

lemma foldl_assign_length [simp]:
  "length (foldl (\<lambda>xs (k, v). xs[k := Some v]) xs kvs) = length xs"
  by (induction kvs arbitrary: xs) (auto simp: case_prod_unfold)

lemma foldl_assign_nth_last:
  "i < length xs \<Longrightarrow> foldl (\<lambda>xs (k, v). xs[k := Some v]) xs kvs ! i =
     (case map_of (rev kvs) i of Some v \<Rightarrow> Some v | None \<Rightarrow> xs ! i)"
proof (induction kvs rule: rev_induct)
  case (snoc kv kvs)
  then show ?case
    by (cases kv) (auto simp: nth_list_update split: option.splits)
qed simp

lemma foldl_assign_nth:
  assumes "distinct (map fst kvs)" and "i < length xs"
  shows "foldl (\<lambda>xs (k, v). xs[k := Some v]) xs kvs ! i =
         (case map_of kvs i of Some v \<Rightarrow> Some v | None \<Rightarrow> xs ! i)"
proof -
  have "map_of (rev kvs) = map_of kvs"
    by (subst map_of_inject_set) (simp_all add: assms(1) flip: rev_map)
  then show ?thesis using foldl_assign_nth_last [OF assms(2)] by simp
qed

lemma map_of_distinct_inj:
  assumes "distinct (map snd kvs)" and "map_of kvs i = Some v" and "map_of kvs j = Some v"
  shows "i = j"
  using assms by (metis distinct_map inj_on_contraD map_of_SomeD prod.inject snd_conv)

lemma of_nat_word_nonzero:
  "0 < n \<Longrightarrow> n < 2 ^ LENGTH('a) \<Longrightarrow> (of_nat n :: 'a::len word) \<noteq> 0"
  by (auto simp: word_of_nat_eq_0_iff dest: nat_dvd_not_less)

section \<open>Conversions between int and unsigned long\<close>

lemma to_int32_small: "- (2 ^ 31) \<le> i \<Longrightarrow> i < 2 ^ 31 \<Longrightarrow> to_int32 i = i"
  unfolding to_int32_def by (rule signed_take_bit_int_eq_self) auto

lemma uint_ulong_of_int: "0 \<le> i \<Longrightarrow> i < 2 ^ 64 \<Longrightarrow> uint (ulong_of_int i) = i"
  by (simp add: ulong_of_int_def uint_word_of_int_eq take_bit_int_eq_self)

text \<open>
  The idiom \<open>(int) (r % n)\<close> with \<open>r\<close> an \<open>unsigned long\<close> and \<open>n\<close> a positive \<open>int\<close>: the remainder is
  taken unsigned and lands in the range \<open>0 .. n - 1\<close>.
\<close>

lemma int_of_ulong_mod:
  assumes "0 < n" and "n < 2 ^ 31"
  shows "int_of_ulong (r mod ulong_of_int n) = uint r mod n"
proof -
  have n: "uint (ulong_of_int n) = n"
    using assms by (intro uint_ulong_of_int) auto
  have "uint (r mod ulong_of_int n) = uint r mod n"
    by (simp add: uint_mod n)
  moreover have "to_int32 (uint r mod n) = uint r mod n"
  proof (rule to_int32_small)
    have "0 \<le> uint r mod n" "uint r mod n < n" using assms by auto
    with assms show "- (2 ^ 31) \<le> uint r mod n" "uint r mod n < 2 ^ 31" by linarith+
  qed
  ultimately show ?thesis by (simp add: int_of_ulong_def)
qed

section \<open>Time stamps\<close>

lemma sint_of_nat64: "n < 2 ^ 62 \<Longrightarrow> sint (of_nat n :: u64) = int n"
  by (simp add: signed_of_nat signed_take_bit_int_eq_self)

lemma sint_diff_of_nat:
  assumes "a < 2 ^ 62" and "b < 2 ^ 62"
  shows "sint (of_nat b - of_nat a :: u64) = int b - int a"
proof -
  have "signed_take_bit 63 (int b - int a) = int b - int a"
    by (rule signed_take_bit_int_eq_self) (use assms in auto)
  then show ?thesis
    unfolding sint_word_diff by (simp add: sint_of_nat64 [OF assms(1)] sint_of_nat64 [OF assms(2)])
qed

text \<open>Updating one element changes the number of elements with a property by one or not at all.\<close>

lemma length_filter_update:
  "i < length xs \<Longrightarrow> length (filter P (xs[i := x])) + (if P (xs ! i) then 1 else 0) =
     length (filter P xs) + (if P x then 1 else 0)"
proof (induction xs arbitrary: i)
  case (Cons y ys)
  then show ?case by (cases i) auto
qed simp

lemma length_filter_at:
  assumes "i < length xs"
  shows "length (filter P (xs[i := x])) =
    length (filter P xs) + (if P x then 1 else 0) - (if P (xs ! i) then 1 else 0)"
    and "P (xs ! i) \<Longrightarrow> 0 < length (filter P xs)"
proof -
  show "length (filter P (xs[i := x])) =
    length (filter P xs) + (if P x then 1 else 0) - (if P (xs ! i) then 1 else 0)"
    using length_filter_update [OF assms, of P x] by linarith
  show "0 < length (filter P xs)" if "P (xs ! i)"
    using assms that by (auto simp: filter_empty_conv)
qed

end
