(* ===== verification/Tally.thy ===== *)
theory Tally
  imports Kvm_Prelude
begin

text \<open>
  The counting contract that both debug modules rely on. A \<open>tally\<close> is a state with 64-bit
  measures, indexed by keys, and a handler that adds one to exactly the measures its event hits;
  an \<open>event_counter\<close> can also be reset. The lemmas proved once here (counts after a whole run of
  events, independence of the order, exactness below the width) are instantiated for the exit
  counters, the MSR-write counters, and the two sampling handlers with their logs.
\<close>

section \<open>A handler that counts\<close>

locale tally =
  fixes inv :: "'s \<Rightarrow> bool"
    and valid :: "'e \<Rightarrow> bool"
    and handle :: "'e \<Rightarrow> 's \<Rightarrow> 's res"
    and measure :: "'k \<Rightarrow> 's \<Rightarrow> u64"
    and hit :: "'e \<Rightarrow> 'k \<Rightarrow> bool"
  assumes handle_ok: "inv s \<Longrightarrow> valid e \<Longrightarrow> \<exists>t. handle e s = Inr t \<and> inv t"
    and handle_measure:
      "inv s \<Longrightarrow> valid e \<Longrightarrow> handle e s = Inr t \<Longrightarrow>
         measure k t = measure k s + (if hit e k then 1 else 0)"
begin

definition hits :: "'k \<Rightarrow> 'e list \<Rightarrow> nat" where
  "hits k es = length (filter (\<lambda>e. hit e k) es)"

lemma run_measure:
  assumes "inv s" and "\<forall>e\<in>set es. valid e"
  shows "\<exists>t. foldR handle es s = Inr t \<and> inv t \<and>
             (\<forall>k. measure k t = measure k s + of_nat (hits k es))"
  using assms
proof (induction es arbitrary: s)
  case Nil
  then show ?case by (simp add: hits_def)
next
  case (Cons e es)
  from Cons.prems obtain u where u: "handle e s = Inr u" "inv u"
    using handle_ok by force
  from u(2) Cons.prems obtain t where
    t: "foldR handle es u = Inr t" "inv t"
       "\<forall>k. measure k t = measure k u + of_nat (hits k es)"
    using Cons.IH [of u] by auto
  have "measure k u = measure k s + (if hit e k then 1 else 0)" for k
    using Cons.prems u by (intro handle_measure) auto
  with t have "\<forall>k. measure k t = measure k s + of_nat (hits k (e # es))"
    by (auto simp: hits_def)
  with u t show ?case by simp
qed

lemma run_ok:
  assumes "inv s" and "\<forall>e\<in>set es. valid e"
  obtains t where "foldR handle es s = Inr t" and "inv t"
    and "\<And>k. measure k t = measure k s + of_nat (hits k es)"
  using run_measure [OF assms] by blast

lemma run_exact:
  assumes "inv s" and "\<forall>e\<in>set es. valid e" and "foldR handle es s = Inr t"
    and "measure k s = 0" and "length es < 2 ^ 64"
  shows "unat (measure k t) = hits k es"
proof -
  from run_measure [OF assms(1,2)] assms(3,4) have "measure k t = of_nat (hits k es)"
    by auto
  moreover have "hits k es < 2 ^ 64"
    using assms(5) le_less_trans [OF length_filter_le] unfolding hits_def by blast
  ultimately show ?thesis by (simp add: unat_of_nat_small)
qed

lemma run_order_irrelevant:
  assumes "inv s" and "\<forall>e\<in>set es. valid e" and "\<forall>k. hits k es = hits k es'"
    and "\<forall>e\<in>set es'. valid e" and "foldR handle es s = Inr t" and "foldR handle es' s = Inr t'"
  shows "measure k t = measure k t'"
  using run_measure [OF assms(1,2)] run_measure [OF assms(1,4)] assms(3,5,6) by auto

end

section \<open>A counter that can be reset\<close>

locale event_counter = tally +
  fixes rst :: "'a \<Rightarrow> 'a"
  assumes inv_rst: "inv s \<Longrightarrow> inv (rst s)"
    and measure_rst: "inv s \<Longrightarrow> measure k (rst s) = 0"
begin

lemma run_from_reset:
  assumes "inv s" and "\<forall>e\<in>set es. valid e"
  shows "\<exists>t. foldR handle es (rst s) = Inr t \<and> inv t \<and>
             (\<forall>k. measure k t = of_nat (hits k es))"
  using run_measure [OF inv_rst [OF assms(1)] assms(2)] measure_rst [OF assms(1)] by simp

lemma run_reset_run:
  assumes "inv s" and "\<forall>e\<in>set es. valid e" and "\<forall>e\<in>set es'. valid e"
  shows "\<exists>t u. foldR handle es s = Inr t \<and> foldR handle es' (rst t) = Inr u \<and>
               (\<forall>k. measure k u = of_nat (hits k es'))"
proof -
  from run_measure [OF assms(1,2)] obtain t where t: "foldR handle es s = Inr t" "inv t"
    by blast
  with run_from_reset [OF t(2) assms(3)] show ?thesis by blast
qed

end

end
