(* ===== verification/Exit_Reason.thy ===== *)
theory Exit_Reason
  imports Tally
begin

text \<open>
  \<open>debug/kvmexitreason/exit-reason.h\<close>: the table of exit-reason names, filled on first use, and
  the per-reason counters. The file's static variables are the fields of \<open>exit_stat\<close>.
\<close>

section \<open>State\<close>

definition REASON_NUM :: int where
  "REASON_NUM = 66"

record exit_stat =
  inited :: int
  reasons :: "string option list"   \<comment> \<open>\<open>char *reasons[]\<close>, \<open>None\<close> is the null pointer\<close>
  reasons_num :: "u64 list"

definition exit_stat_static :: exit_stat where
  "exit_stat_static =
     \<lparr>inited = 0, reasons = replicate (nat REASON_NUM) None,
      reasons_num = replicate (nat REASON_NUM) 0\<rparr>"

section \<open>Operations\<close>

definition reason_assigns :: "(nat \<times> string) list" where
  "reason_assigns =
    [(0, ''EXIT_REASON_EXCEPTION_NMI''),
     (1, ''EXIT_REASON_EXTERNAL_INTERRUPT''),
     (2, ''EXIT_REASON_TRIPLE_FAULT''),
     (7, ''EXIT_REASON_PENDING_INTERRUPT''),
     (8, ''EXIT_REASON_NMI_WINDOW''),
     (9, ''EXIT_REASON_TASK_SWITCH''),
     (10, ''EXIT_REASON_CPUID''),
     (12, ''EXIT_REASON_HLT''),
     (13, ''EXIT_REASON_INVD''),
     (14, ''EXIT_REASON_INVLPG''),
     (15, ''EXIT_REASON_RDPMC''),
     (16, ''EXIT_REASON_RDTSC''),
     (18, ''EXIT_REASON_VMCALL''),
     (19, ''EXIT_REASON_VMCLEAR''),
     (20, ''EXIT_REASON_VMLAUNCH''),
     (21, ''EXIT_REASON_VMPTRLD''),
     (22, ''EXIT_REASON_VMPTRST''),
     (23, ''EXIT_REASON_VMREAD''),
     (24, ''EXIT_REASON_VMRESUME''),
     (25, ''EXIT_REASON_VMWRITE''),
     (26, ''EXIT_REASON_VMOFF''),
     (27, ''EXIT_REASON_VMON''),
     (28, ''EXIT_REASON_CR_ACCESS''),
     (29, ''EXIT_REASON_DR_ACCESS''),
     (30, ''EXIT_REASON_IO_INSTRUCTION''),
     (31, ''EXIT_REASON_MSR_READ''),
     (32, ''EXIT_REASON_MSR_WRITE''),
     (33, ''EXIT_REASON_INVALID_STATE''),
     (34, ''EXIT_REASON_MSR_LOAD_FAIL''),
     (36, ''EXIT_REASON_MWAIT_INSTRUCTION''),
     (37, ''EXIT_REASON_MONITOR_TRAP_FLAG''),
     (39, ''EXIT_REASON_MONITOR_INSTRUCTION''),
     (40, ''EXIT_REASON_PAUSE_INSTRUCTION''),
     (41, ''EXIT_REASON_MCE_DURING_VMENTRY''),
     (43, ''EXIT_REASON_TPR_BELOW_THRESHOLD''),
     (44, ''EXIT_REASON_APIC_ACCESS''),
     (45, ''EXIT_REASON_EOI_INDUCED''),
     (48, ''EXIT_REASON_EPT_VIOLATION''),
     (49, ''EXIT_REASON_EPT_MISCONFIG''),
     (50, ''EXIT_REASON_INVEPT''),
     (51, ''EXIT_REASON_RDTSCP''),
     (52, ''EXIT_REASON_PREEMPTION_TIMER''),
     (53, ''EXIT_REASON_INVVPID''),
     (54, ''EXIT_REASON_WBINVD''),
     (55, ''EXIT_REASON_XSETBV''),
     (56, ''EXIT_REASON_APIC_WRITE''),
     (58, ''EXIT_REASON_INVPCID''),
     (62, ''EXIT_REASON_PML_FULL''),
     (63, ''EXIT_REASON_XSAVES''),
     (64, ''EXIT_REASON_XRSTORS''),
     (65, ''EXIT_REASON_PCOMMIT'')]"

definition assign_reasons :: "string option list \<Rightarrow> string option list" where
  "assign_reasons rs = foldl (\<lambda>rs (i, name). rs[i := Some name]) rs reason_assigns"

definition init_reasons :: "exit_stat \<Rightarrow> exit_stat" where
  "init_reasons s =
     (if inited s = 1 then s
      else s\<lparr>inited := 1, reasons := assign_reasons (reasons s)\<rparr>)"

definition record_reason :: "int \<Rightarrow> exit_stat \<Rightarrow> exit_stat res" where
  "record_reason r s =
     (if r \<ge> REASON_NUM then Inr s
      else bindR (arr_get (reasons_num s) r) (\<lambda>v.
           bindR (arr_set (reasons_num s) r (v + 1)) (\<lambda>ns.
           Inr (s\<lparr>reasons_num := ns\<rparr>))))"

definition report_reason :: "int \<Rightarrow> exit_stat \<Rightarrow> u64 res" where
  "report_reason r s = (if r \<ge> REASON_NUM then Inr 0 else arr_get (reasons_num s) r)"

definition reset_reason :: "exit_stat \<Rightarrow> exit_stat" where
  "reset_reason s = s\<lparr>reasons_num := replicate (nat REASON_NUM) 0\<rparr>"

definition reason2str :: "int \<Rightarrow> exit_stat \<Rightarrow> (string \<times> exit_stat) res" where
  "reason2str r s =
     (if r \<ge> REASON_NUM then Inr (''EXIT_REASON_OVERFLOW'', s)
      else let s1 = init_reasons s in
           bindR (arr_get (reasons s1) r) (\<lambda>p.
             case p of Some name \<Rightarrow> Inr (name, s1)
                     | None \<Rightarrow> Inr (''EXIT_REASON_UNKNOWN'', s1)))"

section \<open>Invariant\<close>

definition no_names :: "string option list" where
  "no_names = replicate (nat REASON_NUM) None"

definition stat_wf :: "exit_stat \<Rightarrow> bool" where
  "stat_wf s \<longleftrightarrow>
     length (reasons_num s) = nat REASON_NUM \<and>
     reasons s = (if inited s = 1 then assign_reasons no_names else no_names)"

definition reason_name :: "nat \<Rightarrow> string" where
  "reason_name i =
     (case map_of reason_assigns i of Some n \<Rightarrow> n | None \<Rightarrow> ''EXIT_REASON_UNKNOWN'')"

lemma reason_assigns_distinct:
  "distinct (map fst reason_assigns)" "distinct (map snd reason_assigns)"
  by (simp_all add: reason_assigns_def)

lemma length_assign_reasons [simp]: "length (assign_reasons rs) = length rs"
  by (simp add: assign_reasons_def)

lemma assign_reasons_nth:
  "i < length rs \<Longrightarrow> assign_reasons rs ! i =
     (case map_of reason_assigns i of Some n \<Rightarrow> Some n | None \<Rightarrow> rs ! i)"
  unfolding assign_reasons_def
  by (rule foldl_assign_nth [OF reason_assigns_distinct(1)])

lemma length_no_names [simp]: "length no_names = nat REASON_NUM"
  by (simp add: no_names_def)

lemma reason_name_inj:
  assumes "reason_name i = reason_name j" and "reason_name i \<noteq> ''EXIT_REASON_UNKNOWN''"
  shows "i = j"
proof -
  from assms obtain n where "map_of reason_assigns i = Some n" "map_of reason_assigns j = Some n"
    by (auto simp: reason_name_def split: option.splits)
  then show ?thesis by (rule map_of_distinct_inj [OF reason_assigns_distinct(2)])
qed

section \<open>The operations on a well-formed state\<close>

lemma stat_wf_static: "stat_wf exit_stat_static"
  by (simp add: stat_wf_def exit_stat_static_def no_names_def)

lemma stat_wf_init_reasons: "stat_wf s \<Longrightarrow> stat_wf (init_reasons s)"
  by (auto simp: stat_wf_def init_reasons_def)

lemma init_reasons_num [simp]: "reasons_num (init_reasons s) = reasons_num s"
  by (simp add: init_reasons_def)

lemma init_reasons_idem: "init_reasons (init_reasons s) = init_reasons s"
  by (simp add: init_reasons_def)

lemma stat_wf_reset: "stat_wf s \<Longrightarrow> stat_wf (reset_reason s)"
  by (simp add: stat_wf_def reset_reason_def)

lemma record_reason_in:
  assumes "stat_wf s" and "0 \<le> r" and "r < REASON_NUM"
  shows "record_reason r s =
         Inr (s\<lparr>reasons_num := (reasons_num s)[nat r := reasons_num s ! nat r + 1]\<rparr>)"
  using assms by (simp add: record_reason_def stat_wf_def)

lemma record_reason_above: "REASON_NUM \<le> r \<Longrightarrow> record_reason r s = Inr s"
  by (simp add: record_reason_def)

lemma report_reason_in:
  assumes "stat_wf s" and "0 \<le> r"
  shows "report_reason r s = Inr (if r < REASON_NUM then reasons_num s ! nat r else 0)"
  using assms by (simp add: report_reason_def stat_wf_def)

lemma reason2str_in:
  assumes "stat_wf s" and "0 \<le> r" and "r < REASON_NUM"
  shows "reason2str r s = Inr (reason_name (nat r), init_reasons s)"
proof -
  have rs: "reasons (init_reasons s) = assign_reasons no_names"
    using assms(1) by (simp add: stat_wf_def init_reasons_def)
  have i: "nat r < nat REASON_NUM" using assms by simp
  show ?thesis
    using assms i
    by (simp add: reason2str_def rs Let_def assign_reasons_nth reason_name_def no_names_def
        split: option.splits)
qed

lemma record_reason_wf:
  assumes "stat_wf s" and "0 \<le> r"
  shows "\<exists>t. record_reason r s = Inr t \<and> stat_wf t"
proof (cases "r < REASON_NUM")
  case True
  with assms show ?thesis by (simp add: record_reason_in) (simp add: stat_wf_def)
next
  case False
  with assms show ?thesis by (simp add: record_reason_above)
qed

section \<open>The counters as a resettable tally\<close>

definition reason_count :: "nat \<Rightarrow> exit_stat \<Rightarrow> u64" where
  "reason_count k s = (case report_reason (int k) s of Inl _ \<Rightarrow> 0 | Inr n \<Rightarrow> n)"

lemma reason_count_wf:
  "stat_wf s \<Longrightarrow> reason_count k s = (if int k < REASON_NUM then reasons_num s ! k else 0)"
  by (simp add: reason_count_def report_reason_in)

lemma record_reason_count:
  assumes "stat_wf s" and "0 \<le> r" and "record_reason r s = Inr t"
  shows "reason_count k t = reason_count k s + (if r = int k \<and> r < REASON_NUM then 1 else 0)"
proof (cases "r < REASON_NUM")
  case True
  with assms have t: "t = s\<lparr>reasons_num := (reasons_num s)[nat r := reasons_num s ! nat r + 1]\<rparr>"
    by (simp add: record_reason_in)
  have "stat_wf t" using record_reason_wf [OF assms(1,2)] assms(3) by simp
  with assms True show ?thesis
    by (auto simp: reason_count_wf t stat_wf_def nth_list_update)
next
  case False
  with assms show ?thesis by (simp add: record_reason_above)
qed

interpretation reasons: event_counter stat_wf "\<lambda>r. 0 \<le> r" record_reason reason_count
  "\<lambda>r k. r = int k \<and> r < REASON_NUM" reset_reason
proof unfold_locales
  show "\<And>s e. stat_wf s \<Longrightarrow> 0 \<le> e \<Longrightarrow> \<exists>t. record_reason e s = Inr t \<and> stat_wf t"
    by (rule record_reason_wf)
  show "\<And>s e t k. stat_wf s \<Longrightarrow> 0 \<le> e \<Longrightarrow> record_reason e s = Inr t \<Longrightarrow>
      reason_count k t = reason_count k s + (if e = int k \<and> e < REASON_NUM then 1 else 0)"
    by (rule record_reason_count)
  show "\<And>s. stat_wf s \<Longrightarrow> stat_wf (reset_reason s)"
    by (rule stat_wf_reset)
  show "\<And>s k. stat_wf s \<Longrightarrow> reason_count k (reset_reason s) = 0"
    by (simp add: reason_count_wf stat_wf_reset) (simp add: reset_reason_def REASON_NUM_def)
qed

lemma reason_hits:
  "reasons.hits k rs = (if int k < REASON_NUM then count_list rs (int k) else 0)"
  by (induction rs) (auto simp: reasons.hits_def)

section \<open>Properties\<close>

text \<open>
  recording any sequence of non-negative reason numbers after a reset succeeds, and then every
  in-range counter reports how often its reason occurred (as a 64-bit value), every out-of-range
  reason reports 0.
\<close>

theorem record_report:
  assumes "stat_wf s" and "\<forall>r\<in>set rs. 0 \<le> r"
  shows "\<exists>t. foldR record_reason rs (reset_reason s) = Inr t \<and> stat_wf t \<and>
           (\<forall>k. 0 \<le> k \<longrightarrow> report_reason k t =
                  Inr (if k < REASON_NUM then of_nat (count_list rs k) else 0))"
proof -
  from reasons.run_from_reset [OF assms] obtain t where
    t: "foldR record_reason rs (reset_reason s) = Inr t" "stat_wf t"
       "\<forall>k. reason_count k t = of_nat (reasons.hits k rs)"
    by blast
  have "report_reason k t = Inr (if k < REASON_NUM then of_nat (count_list rs k) else 0)"
    if "0 \<le> k" for k
    using t(3) [rule_format, of "nat k"] that t(2)
    by (simp add: reason_count_wf reason_hits report_reason_in split: if_splits)
  with t show ?thesis by blast
qed

theorem record_report_witness:
  "\<exists>t. foldR record_reason [1, 48, 1, 70] (reset_reason exit_stat_static) = Inr t \<and>
       report_reason 1 t = Inr 2 \<and> report_reason 48 t = Inr 1 \<and> report_reason 70 t = Inr 0"
  using record_report [OF stat_wf_static, of "[1, 48, 1, 70]"]
  by (auto simp: REASON_NUM_def)

text \<open>
  on a well-formed state the table accesses fault exactly for negative reason numbers, since
  \<open>record_reason\<close>, \<open>report_reason\<close> and \<open>reason2str\<close> check only the upper bound.
\<close>

theorem reason_fault_iff_negative:
  assumes "stat_wf s"
  shows "(record_reason r s = Inl OutOfBounds \<longleftrightarrow> r < 0) \<and>
         (report_reason r s = Inl OutOfBounds \<longleftrightarrow> r < 0) \<and>
         (reason2str r s = Inl OutOfBounds \<longleftrightarrow> r < 0)"
proof (cases "r < 0")
  case True
  then show ?thesis
    by (simp add: record_reason_def report_reason_def reason2str_def REASON_NUM_def Let_def)
next
  case False
  then have r: "0 \<le> r" by simp
  have "\<exists>p. reason2str r s = Inr p"
    using reason2str_in [OF assms r] by (cases "r < REASON_NUM") (auto simp: reason2str_def)
  with r show ?thesis
    using record_reason_wf [OF assms r] report_reason_in [OF assms r] by auto
qed

theorem reason_fault_iff_negative_witness:
  "record_reason (-1) exit_stat_static = Inl OutOfBounds"
  using reason_fault_iff_negative [OF stat_wf_static, of "-1"] by simp

text \<open>
  a label identifies its reason. Two in-range reasons that \<open>reason2str\<close> gives the same label,
  other than the catch-all, are equal; so a line of the report names one counter.
\<close>

theorem reason2str_label_unique:
  assumes "stat_wf s" and "stat_wf t"
    and "0 \<le> i" "i < REASON_NUM" "0 \<le> j" "j < REASON_NUM"
    and "reason2str i s = Inr (n, s')" and "reason2str j t = Inr (n, t')"
    and "n \<noteq> ''EXIT_REASON_UNKNOWN''"
  shows "i = j"
proof -
  have "n = reason_name (nat i)" "n = reason_name (nat j)"
    using assms by (simp_all add: reason2str_in)
  with assms(9) have "nat i = nat j" by (metis reason_name_inj)
  with assms show ?thesis by simp
qed

theorem reason2str_label_unique_witness:
  "\<exists>s'. reason2str 48 exit_stat_static = Inr (''EXIT_REASON_EPT_VIOLATION'', s') \<and>
     (\<forall>j t'. 0 \<le> j \<and> j < REASON_NUM \<and>
        reason2str j exit_stat_static = Inr (''EXIT_REASON_EPT_VIOLATION'', t') \<longrightarrow> 48 = j)"
proof -
  have n: "reason2str 48 exit_stat_static =
      Inr (''EXIT_REASON_EPT_VIOLATION'', init_reasons exit_stat_static)"
    by (subst reason2str_in [OF stat_wf_static])
       (simp_all add: REASON_NUM_def reason_name_def reason_assigns_def)
  moreover have "48 = j" if "0 \<le> j" "j < REASON_NUM"
      "reason2str j exit_stat_static = Inr (''EXIT_REASON_EPT_VIOLATION'', t')" for j t'
    by (rule reason2str_label_unique [OF stat_wf_static stat_wf_static _ _ that(1,2) n that(3)])
       (simp_all add: REASON_NUM_def)
  ultimately show ?thesis by blast
qed

end
