(* ===== verification/Kvm_Exit_Probe.thy ===== *)
theory Kvm_Exit_Probe
  imports Exit_Reason
begin

text \<open>
  \<open>debug/kvmexitreason/kvmexitreason.c\<close>: the probe handlers that count VM exits, the once-a-second
  report, and the registration of the probe table when the module is loaded and unloaded.
  The numbers of the \<open>EXIT_REASON_*\<close> macros come from the kernel's \<open>asm/vmx.h\<close>, which is not part
  of the repository: they are the parameter \<open>vmx\<close>. What \<open>register_kprobe\<close> returns for each slot is
  the parameter \<open>reg\<close>, and the value of \<open>ktime_get()\<close> at each call is the parameter \<open>now\<close>.
\<close>

section \<open>The probes\<close>

datatype exit_reason =
    EXIT_REASON_EXCEPTION_NMI
  | EXIT_REASON_EXTERNAL_INTERRUPT
  | EXIT_REASON_TRIPLE_FAULT
  | EXIT_REASON_NMI_WINDOW
  | EXIT_REASON_IO_INSTRUCTION
  | EXIT_REASON_CR_ACCESS
  | EXIT_REASON_DR_ACCESS
  | EXIT_REASON_CPUID
  | EXIT_REASON_MSR_READ
  | EXIT_REASON_MSR_WRITE
  | EXIT_REASON_PENDING_INTERRUPT
  | EXIT_REASON_HLT
  | EXIT_REASON_INVD
  | EXIT_REASON_INVLPG
  | EXIT_REASON_RDPMC
  | EXIT_REASON_VMCALL
  | EXIT_REASON_VMCLEAR
  | EXIT_REASON_VMLAUNCH
  | EXIT_REASON_VMPTRLD
  | EXIT_REASON_VMPTRST
  | EXIT_REASON_VMREAD
  | EXIT_REASON_VMRESUME
  | EXIT_REASON_VMWRITE
  | EXIT_REASON_VMOFF
  | EXIT_REASON_VMON
  | EXIT_REASON_TPR_BELOW_THRESHOLD
  | EXIT_REASON_APIC_ACCESS
  | EXIT_REASON_APIC_WRITE
  | EXIT_REASON_EOI_INDUCED
  | EXIT_REASON_WBINVD
  | EXIT_REASON_XSETBV
  | EXIT_REASON_TASK_SWITCH
  | EXIT_REASON_MCE_DURING_VMENTRY
  | EXIT_REASON_EPT_VIOLATION
  | EXIT_REASON_EPT_MISCONFIG
  | EXIT_REASON_PAUSE_INSTRUCTION
  | EXIT_REASON_MWAIT_INSTRUCTION
  | EXIT_REASON_MONITOR_TRAP_FLAG
  | EXIT_REASON_MONITOR_INSTRUCTION
  | EXIT_REASON_INVEPT
  | EXIT_REASON_INVVPID
  | EXIT_REASON_XSAVES
  | EXIT_REASON_XRSTORS
  | EXIT_REASON_PML_FULL
  | EXIT_REASON_VMFUNC
  | EXIT_REASON_PREEMPTION_TIMER

text \<open>The preprocessor conditions on \<open>LINUX_VERSION_CODE\<close>.\<close>

record kernel_cfg =
  ge_4_14_0 :: bool
  ge_4_19_0 :: bool

text \<open>
  \<open>DECLEAR_PROBE_FUNC(REASON, SYMBOL)\<close> defines the handler named after \<open>SYMBOL\<close>, which records
  \<open>REASON\<close>; \<open>DECLEAR_PROBE(REASON, SYMBOL)\<close> puts that handler into slot \<open>REASON\<close> of the table.
\<close>

definition probe_funcs :: "kernel_cfg \<Rightarrow> (exit_reason \<times> string) list" where
  "probe_funcs cfg =
    [(EXIT_REASON_EXCEPTION_NMI, ''handle_exception''),
     (EXIT_REASON_EXTERNAL_INTERRUPT, ''handle_external_interrupt''),
     (EXIT_REASON_TRIPLE_FAULT, ''handle_triple_fault''),
     (EXIT_REASON_NMI_WINDOW, ''handle_nmi_window''),
     (EXIT_REASON_IO_INSTRUCTION, ''handle_io''),
     (EXIT_REASON_CR_ACCESS, ''handle_cr''),
     (EXIT_REASON_DR_ACCESS, ''handle_dr''),
     (EXIT_REASON_CPUID, ''handle_cpuid''),
     (EXIT_REASON_MSR_READ, ''handle_rdmsr''),
     (EXIT_REASON_MSR_WRITE, ''handle_wrmsr''),
     (EXIT_REASON_PENDING_INTERRUPT, ''handle_interrupt_window''),
     (EXIT_REASON_HLT, ''handle_halt''),
     (EXIT_REASON_INVD, ''handle_invd''),
     (EXIT_REASON_INVLPG, ''handle_invlpg''),
     (EXIT_REASON_RDPMC, ''handle_rdpmc''),
     (EXIT_REASON_VMCALL, ''handle_vmcall''),
     (EXIT_REASON_VMCLEAR, ''handle_vmclear''),
     (EXIT_REASON_VMLAUNCH, ''handle_vmlaunch''),
     (EXIT_REASON_VMPTRLD, ''handle_vmptrld''),
     (EXIT_REASON_VMPTRST, ''handle_vmptrst''),
     (EXIT_REASON_VMREAD, ''handle_vmread''),
     (EXIT_REASON_VMRESUME, ''handle_vmresume''),
     (EXIT_REASON_VMWRITE, ''handle_vmwrite''),
     (EXIT_REASON_VMOFF, ''handle_vmoff''),
     (EXIT_REASON_VMON, ''handle_vmon''),
     (EXIT_REASON_TPR_BELOW_THRESHOLD, ''handle_tpr_below_threshold''),
     (EXIT_REASON_APIC_ACCESS, ''handle_apic_access''),
     (EXIT_REASON_APIC_WRITE, ''handle_apic_write''),
     (EXIT_REASON_EOI_INDUCED, ''handle_apic_eoi_induced''),
     (EXIT_REASON_WBINVD, ''handle_wbinvd''),
     (EXIT_REASON_XSETBV, ''handle_xsetbv''),
     (EXIT_REASON_TASK_SWITCH, ''handle_task_switch''),
     (EXIT_REASON_MCE_DURING_VMENTRY, ''handle_machine_check''),
     (EXIT_REASON_EPT_VIOLATION, ''handle_ept_violation''),
     (EXIT_REASON_EPT_MISCONFIG, ''handle_ept_misconfig''),
     (EXIT_REASON_PAUSE_INSTRUCTION, ''handle_pause''),
     (EXIT_REASON_MWAIT_INSTRUCTION, ''handle_mwait''),
     (EXIT_REASON_MONITOR_TRAP_FLAG, ''handle_monitor_trap''),
     (EXIT_REASON_MONITOR_INSTRUCTION, ''handle_monitor''),
     (EXIT_REASON_INVEPT, ''handle_invept''),
     (EXIT_REASON_INVVPID, ''handle_invvpid''),
     (EXIT_REASON_XSAVES, ''handle_xsaves''),
     (EXIT_REASON_XRSTORS, ''handle_xrstors''),
     (EXIT_REASON_PML_FULL, ''handle_pml_full'')]
    @ (if ge_4_14_0 cfg then [(EXIT_REASON_VMFUNC, ''handle_vmfunc'')] else [])
    @ [(EXIT_REASON_PREEMPTION_TIMER, ''handle_preemption_timer'')]"

definition probe_decls :: "kernel_cfg \<Rightarrow> (exit_reason \<times> string) list" where
  "probe_decls cfg =
    [(EXIT_REASON_EXCEPTION_NMI, ''handle_exception''),
     (EXIT_REASON_EXCEPTION_NMI, ''handle_exception''),
     (EXIT_REASON_EXTERNAL_INTERRUPT, ''handle_external_interrupt''),
     (EXIT_REASON_TRIPLE_FAULT, ''handle_triple_fault''),
     (EXIT_REASON_NMI_WINDOW, ''handle_nmi_window''),
     (EXIT_REASON_IO_INSTRUCTION, ''handle_io''),
     (EXIT_REASON_CR_ACCESS, ''handle_cr''),
     (EXIT_REASON_DR_ACCESS, ''handle_dr''),
     (EXIT_REASON_CPUID, ''handle_cpuid''),
     (EXIT_REASON_MSR_READ, ''handle_rdmsr''),
     (EXIT_REASON_MSR_WRITE, ''handle_wrmsr''),
     (EXIT_REASON_PENDING_INTERRUPT, ''handle_interrupt_window''),
     (EXIT_REASON_HLT, ''handle_halt''),
     (EXIT_REASON_INVD, ''handle_invd''),
     (EXIT_REASON_INVLPG, ''handle_invlpg''),
     (EXIT_REASON_RDPMC, ''handle_rdpmc''),
     (EXIT_REASON_VMCALL, ''handle_vmcall''),
     (EXIT_REASON_VMCLEAR, ''handle_vmclear''),
     (EXIT_REASON_VMLAUNCH, ''handle_vmlaunch''),
     (EXIT_REASON_VMPTRLD, ''handle_vmptrld''),
     (EXIT_REASON_VMPTRST, ''handle_vmptrst''),
     (EXIT_REASON_VMREAD, ''handle_vmread''),
     (EXIT_REASON_VMRESUME, ''handle_vmresume''),
     (EXIT_REASON_VMWRITE, ''handle_vmwrite''),
     (EXIT_REASON_VMOFF, ''handle_vmoff''),
     (EXIT_REASON_VMON, ''handle_vmon''),
     (EXIT_REASON_TPR_BELOW_THRESHOLD, ''handle_tpr_below_threshold''),
     (EXIT_REASON_APIC_ACCESS, ''handle_apic_access''),
     (EXIT_REASON_APIC_WRITE, ''handle_apic_write''),
     (EXIT_REASON_EOI_INDUCED, ''handle_apic_eoi_induced''),
     (EXIT_REASON_WBINVD, ''handle_wbinvd''),
     (EXIT_REASON_XSETBV, ''handle_xsetbv''),
     (EXIT_REASON_TASK_SWITCH, ''handle_task_switch''),
     (EXIT_REASON_MCE_DURING_VMENTRY, ''handle_machine_check''),
     (EXIT_REASON_EPT_VIOLATION, ''handle_ept_violation''),
     (EXIT_REASON_EPT_MISCONFIG, ''handle_ept_misconfig''),
     (EXIT_REASON_PAUSE_INSTRUCTION, ''handle_pause''),
     (EXIT_REASON_MWAIT_INSTRUCTION, ''handle_mwait''),
     (EXIT_REASON_MONITOR_TRAP_FLAG, ''handle_monitor_trap''),
     (EXIT_REASON_MONITOR_INSTRUCTION, ''handle_monitor''),
     (EXIT_REASON_INVEPT, ''handle_invept''),
     (EXIT_REASON_INVVPID, ''handle_invvpid''),
     (EXIT_REASON_XSAVES, ''handle_xsaves''),
     (EXIT_REASON_XRSTORS, ''handle_xrstors''),
     (EXIT_REASON_PML_FULL, ''handle_pml_full'')]
    @ (if ge_4_14_0 cfg then [(EXIT_REASON_VMFUNC, ''handle_vmfunc'')] else [])
    @ [(EXIT_REASON_PREEMPTION_TIMER, ''handle_preemption_timer'')]"

record probe =
  pre_handler :: string    \<comment> \<open>the \<open>SYMBOL\<close> of \<open>kpre_SYMBOL\<close> (\<open>jp_SYMBOL\<close> before 4.19)\<close>
  symbol_name :: string

definition probe_entries :: "kernel_cfg \<Rightarrow> (exit_reason \<Rightarrow> nat) \<Rightarrow> (nat \<times> probe) list" where
  "probe_entries cfg vmx =
     map (\<lambda>(r, name). (vmx r, \<lparr>pre_handler = name, symbol_name = name\<rparr>)) (probe_decls cfg)"

definition vmx_handle_exit_probe ::
  "kernel_cfg \<Rightarrow> (exit_reason \<Rightarrow> nat) \<Rightarrow> probe option list" where
  "vmx_handle_exit_probe cfg vmx =
     foldl (\<lambda>t (i, p). t[i := Some p]) (replicate (nat REASON_NUM) None) (probe_entries cfg vmx)"

section \<open>State\<close>

datatype kp_call =
    Register nat int       \<comment> \<open>\<open>register_kprobe\<close> on a slot, with the value it returned\<close>
  | Unregister nat

record kexit =
  ktime :: u64             \<comment> \<open>\<open>__ktime\<close>\<close>
  showing_lock :: bool
  total_exit :: u64
  stat :: exit_stat
  klog :: "log_line list"
  calls :: "kp_call list"  \<comment> \<open>calls into the kernel's kprobe interface, in order\<close>

definition kexit_static :: kexit where
  "kexit_static =
     \<lparr>ktime = 0, showing_lock = False, total_exit = 0, stat = exit_stat_static, klog = [],
      calls = []\<rparr>"

section \<open>The report\<close>

definition total_fmt :: string where
  "total_fmt = tab @ ''TOTAL EXITS : %ld''"

definition reason_fmt :: string where
  "reason_fmt = tab @ ''%40s : %ld''"

definition show_reason_line :: "int \<Rightarrow> kexit \<Rightarrow> kexit res" where
  "show_reason_line idx s =
     bindR (report_reason idx (stat s)) (\<lambda>n.
       if n \<noteq> 0 then
         bindR (reason2str idx (stat s)) (\<lambda>(name, st).
         bindR (report_reason idx st) (\<lambda>m.
         Inr (s\<lparr>stat := st, klog := klog s @ [(reason_fmt, [AStr name, ALong m])]\<rparr>)))
       else Inr s)"

definition show_exitreason :: "u64 \<Rightarrow> kexit \<Rightarrow> kexit res" where
  "show_exitreason now s =
     (if sint (now - ktime s) < 1000 * 1000 * 1000 then Inr s
      else if showing_lock s then Inr s
      else
        let s1 = s\<lparr>showing_lock := True,
                   klog := klog s @ [(''VM EXIT REASON STATISTIC'', []),
                                     (total_fmt, [ALong (total_exit s)])]\<rparr>
        in bindR (for_range (nat REASON_NUM) show_reason_line s1) (\<lambda>s2.
           Inr (s2\<lparr>total_exit := 0, stat := reset_reason (stat s2), ktime := now,
                   showing_lock := False\<rparr>)))"

text \<open>
  The body of the handler that \<open>DECLEAR_PROBE_FUNC(REASON, ..)\<close> defines; it returns 0 on every
  path. \<open>probe_fires\<close> is the kernel hitting slot \<open>idx\<close>: it runs the handler the slot names.
\<close>

definition probe_func ::
  "(exit_reason \<Rightarrow> nat) \<Rightarrow> exit_reason \<Rightarrow> u64 \<Rightarrow> kexit \<Rightarrow> kexit res" where
  "probe_func vmx REASON now s =
     bindR (record_reason (int (vmx REASON)) (stat s)) (\<lambda>st.
       show_exitreason now (s\<lparr>stat := st, total_exit := total_exit s + 1\<rparr>))"

definition handler_reason :: "kernel_cfg \<Rightarrow> string \<Rightarrow> exit_reason option" where
  "handler_reason cfg name = map_of (map (\<lambda>(r, s). (s, r)) (probe_funcs cfg)) name"

section \<open>Registration\<close>

definition unregister_step ::
  "kernel_cfg \<Rightarrow> (exit_reason \<Rightarrow> nat) \<Rightarrow> int \<Rightarrow> kexit \<Rightarrow> kexit res" where
  "unregister_step cfg vmx idx s =
     bindR (arr_get (vmx_handle_exit_probe cfg vmx) idx) (\<lambda>slot.
       case slot of
         None \<Rightarrow> Inr (s\<lparr>klog := klog s @
           [(if ge_4_19_0 cfg then ''kvmexitreason : unregister_probe skip reason %d''
             else ''kvmexitreason : unregister_jprobe skip reason %d'', [AInt idx])]\<rparr>)
       | Some p \<Rightarrow> Inr (s\<lparr>calls := calls s @ [Unregister (nat idx)]\<rparr>))"

definition unregister_all_probes ::
  "kernel_cfg \<Rightarrow> (exit_reason \<Rightarrow> nat) \<Rightarrow> kexit \<Rightarrow> kexit res" where
  "unregister_all_probes cfg vmx s =
     for_range (length (vmx_handle_exit_probe cfg vmx)) (unregister_step cfg vmx) s"

text \<open>The loop of \<open>probe_init\<close> from slot \<open>idx\<close> on; \<open>Some rc\<close> is an early \<open>return rc\<close>.\<close>

function register_from ::
  "kernel_cfg \<Rightarrow> (exit_reason \<Rightarrow> nat) \<Rightarrow> (nat \<Rightarrow> int) \<Rightarrow> nat \<Rightarrow> kexit \<Rightarrow> (int option \<times> kexit) res"
where
  "register_from cfg vmx reg idx s =
     (if idx < length (vmx_handle_exit_probe cfg vmx) then
        (case vmx_handle_exit_probe cfg vmx ! idx of
           None \<Rightarrow> register_from cfg vmx reg (Suc idx) (s\<lparr>klog := klog s @
             [(if ge_4_19_0 cfg then ''kvmexitreason : register_probe skip reason %d''
               else ''kvmexitreason : register_jprobe skip reason %d'', [AInt (int idx)])]\<rparr>)
         | Some p \<Rightarrow>
             (let ret = reg idx; s1 = s\<lparr>calls := calls s @ [Register idx ret]\<rparr> in
              if ret < 0 then
                bindR (unregister_all_probes cfg vmx (s1\<lparr>klog := klog s1 @
                  [(if ge_4_19_0 cfg then ''kvmexitreason : register_kprobe %d jprobe failed : %d''
                    else ''kvmexitreason : register_jprobe %d jprobe failed : %d'',
                    [AInt (int idx), AInt ret])]\<rparr>))
                  (\<lambda>s2. Inr (Some (-1), s2))
              else register_from cfg vmx reg (Suc idx) s1))
      else Inr (None, s))"
  by pat_completeness auto
termination
  by (relation "measure (\<lambda>(cfg, vmx, reg, idx, s). length (vmx_handle_exit_probe cfg vmx) - idx)")
     auto

declare register_from.simps [simp del]

definition probe_init ::
  "kernel_cfg \<Rightarrow> (exit_reason \<Rightarrow> nat) \<Rightarrow> (nat \<Rightarrow> int) \<Rightarrow> u64 \<Rightarrow> kexit \<Rightarrow> (int \<times> kexit) res" where
  "probe_init cfg vmx reg now s =
     bindR (register_from cfg vmx reg 0 s) (\<lambda>(r, s1).
       case r of
         Some rc \<Rightarrow> Inr (rc, s1)
       | None \<Rightarrow> Inr (0, s1\<lparr>stat := init_reasons (stat s1), showing_lock := False,
                            total_exit := 0, ktime := now\<rparr>))"

definition probe_exit :: "kernel_cfg \<Rightarrow> (exit_reason \<Rightarrow> nat) \<Rightarrow> kexit \<Rightarrow> kexit res" where
  "probe_exit cfg vmx s = unregister_all_probes cfg vmx s"

text \<open>
  Documented behaviour of the kprobe interface: a successful registration arms a slot, an
  unregistration disarms it (and does nothing on a slot that was never armed).
\<close>

fun armed_step :: "kp_call \<Rightarrow> nat set \<Rightarrow> nat set" where
  "armed_step (Register i ret) A = (if ret < 0 then A else insert i A)"
| "armed_step (Unregister i) A = A - {i}"

definition armed :: "kp_call list \<Rightarrow> nat set" where
  "armed cs = fold armed_step cs {}"

text \<open>
  The numbering of the basic exit reasons in the Intel SDM (volume 3, appendix C), which
  \<open>asm/vmx.h\<close> is documented to follow: as a hypothesis about \<open>vmx\<close>.
\<close>

fun sdm_exit_reason :: "exit_reason \<Rightarrow> nat" where
  "sdm_exit_reason EXIT_REASON_EXCEPTION_NMI = 0"
| "sdm_exit_reason EXIT_REASON_EXTERNAL_INTERRUPT = 1"
| "sdm_exit_reason EXIT_REASON_TRIPLE_FAULT = 2"
| "sdm_exit_reason EXIT_REASON_NMI_WINDOW = 8"
| "sdm_exit_reason EXIT_REASON_IO_INSTRUCTION = 30"
| "sdm_exit_reason EXIT_REASON_CR_ACCESS = 28"
| "sdm_exit_reason EXIT_REASON_DR_ACCESS = 29"
| "sdm_exit_reason EXIT_REASON_CPUID = 10"
| "sdm_exit_reason EXIT_REASON_MSR_READ = 31"
| "sdm_exit_reason EXIT_REASON_MSR_WRITE = 32"
| "sdm_exit_reason EXIT_REASON_PENDING_INTERRUPT = 7"
| "sdm_exit_reason EXIT_REASON_HLT = 12"
| "sdm_exit_reason EXIT_REASON_INVD = 13"
| "sdm_exit_reason EXIT_REASON_INVLPG = 14"
| "sdm_exit_reason EXIT_REASON_RDPMC = 15"
| "sdm_exit_reason EXIT_REASON_VMCALL = 18"
| "sdm_exit_reason EXIT_REASON_VMCLEAR = 19"
| "sdm_exit_reason EXIT_REASON_VMLAUNCH = 20"
| "sdm_exit_reason EXIT_REASON_VMPTRLD = 21"
| "sdm_exit_reason EXIT_REASON_VMPTRST = 22"
| "sdm_exit_reason EXIT_REASON_VMREAD = 23"
| "sdm_exit_reason EXIT_REASON_VMRESUME = 24"
| "sdm_exit_reason EXIT_REASON_VMWRITE = 25"
| "sdm_exit_reason EXIT_REASON_VMOFF = 26"
| "sdm_exit_reason EXIT_REASON_VMON = 27"
| "sdm_exit_reason EXIT_REASON_TPR_BELOW_THRESHOLD = 43"
| "sdm_exit_reason EXIT_REASON_APIC_ACCESS = 44"
| "sdm_exit_reason EXIT_REASON_APIC_WRITE = 56"
| "sdm_exit_reason EXIT_REASON_EOI_INDUCED = 45"
| "sdm_exit_reason EXIT_REASON_WBINVD = 54"
| "sdm_exit_reason EXIT_REASON_XSETBV = 55"
| "sdm_exit_reason EXIT_REASON_TASK_SWITCH = 9"
| "sdm_exit_reason EXIT_REASON_MCE_DURING_VMENTRY = 41"
| "sdm_exit_reason EXIT_REASON_EPT_VIOLATION = 48"
| "sdm_exit_reason EXIT_REASON_EPT_MISCONFIG = 49"
| "sdm_exit_reason EXIT_REASON_PAUSE_INSTRUCTION = 40"
| "sdm_exit_reason EXIT_REASON_MWAIT_INSTRUCTION = 36"
| "sdm_exit_reason EXIT_REASON_MONITOR_TRAP_FLAG = 37"
| "sdm_exit_reason EXIT_REASON_MONITOR_INSTRUCTION = 39"
| "sdm_exit_reason EXIT_REASON_INVEPT = 50"
| "sdm_exit_reason EXIT_REASON_INVVPID = 53"
| "sdm_exit_reason EXIT_REASON_XSAVES = 63"
| "sdm_exit_reason EXIT_REASON_XRSTORS = 64"
| "sdm_exit_reason EXIT_REASON_PML_FULL = 62"
| "sdm_exit_reason EXIT_REASON_VMFUNC = 59"
| "sdm_exit_reason EXIT_REASON_PREEMPTION_TIMER = 52"

definition vmx_documented :: "(exit_reason \<Rightarrow> nat) \<Rightarrow> bool" where
  "vmx_documented vmx \<longleftrightarrow> (\<forall>r. vmx r = sdm_exit_reason r)"

fun macro_name :: "exit_reason \<Rightarrow> string" where
  "macro_name EXIT_REASON_EXCEPTION_NMI = ''EXIT_REASON_EXCEPTION_NMI''"
| "macro_name EXIT_REASON_EXTERNAL_INTERRUPT = ''EXIT_REASON_EXTERNAL_INTERRUPT''"
| "macro_name EXIT_REASON_TRIPLE_FAULT = ''EXIT_REASON_TRIPLE_FAULT''"
| "macro_name EXIT_REASON_NMI_WINDOW = ''EXIT_REASON_NMI_WINDOW''"
| "macro_name EXIT_REASON_IO_INSTRUCTION = ''EXIT_REASON_IO_INSTRUCTION''"
| "macro_name EXIT_REASON_CR_ACCESS = ''EXIT_REASON_CR_ACCESS''"
| "macro_name EXIT_REASON_DR_ACCESS = ''EXIT_REASON_DR_ACCESS''"
| "macro_name EXIT_REASON_CPUID = ''EXIT_REASON_CPUID''"
| "macro_name EXIT_REASON_MSR_READ = ''EXIT_REASON_MSR_READ''"
| "macro_name EXIT_REASON_MSR_WRITE = ''EXIT_REASON_MSR_WRITE''"
| "macro_name EXIT_REASON_PENDING_INTERRUPT = ''EXIT_REASON_PENDING_INTERRUPT''"
| "macro_name EXIT_REASON_HLT = ''EXIT_REASON_HLT''"
| "macro_name EXIT_REASON_INVD = ''EXIT_REASON_INVD''"
| "macro_name EXIT_REASON_INVLPG = ''EXIT_REASON_INVLPG''"
| "macro_name EXIT_REASON_RDPMC = ''EXIT_REASON_RDPMC''"
| "macro_name EXIT_REASON_VMCALL = ''EXIT_REASON_VMCALL''"
| "macro_name EXIT_REASON_VMCLEAR = ''EXIT_REASON_VMCLEAR''"
| "macro_name EXIT_REASON_VMLAUNCH = ''EXIT_REASON_VMLAUNCH''"
| "macro_name EXIT_REASON_VMPTRLD = ''EXIT_REASON_VMPTRLD''"
| "macro_name EXIT_REASON_VMPTRST = ''EXIT_REASON_VMPTRST''"
| "macro_name EXIT_REASON_VMREAD = ''EXIT_REASON_VMREAD''"
| "macro_name EXIT_REASON_VMRESUME = ''EXIT_REASON_VMRESUME''"
| "macro_name EXIT_REASON_VMWRITE = ''EXIT_REASON_VMWRITE''"
| "macro_name EXIT_REASON_VMOFF = ''EXIT_REASON_VMOFF''"
| "macro_name EXIT_REASON_VMON = ''EXIT_REASON_VMON''"
| "macro_name EXIT_REASON_TPR_BELOW_THRESHOLD = ''EXIT_REASON_TPR_BELOW_THRESHOLD''"
| "macro_name EXIT_REASON_APIC_ACCESS = ''EXIT_REASON_APIC_ACCESS''"
| "macro_name EXIT_REASON_APIC_WRITE = ''EXIT_REASON_APIC_WRITE''"
| "macro_name EXIT_REASON_EOI_INDUCED = ''EXIT_REASON_EOI_INDUCED''"
| "macro_name EXIT_REASON_WBINVD = ''EXIT_REASON_WBINVD''"
| "macro_name EXIT_REASON_XSETBV = ''EXIT_REASON_XSETBV''"
| "macro_name EXIT_REASON_TASK_SWITCH = ''EXIT_REASON_TASK_SWITCH''"
| "macro_name EXIT_REASON_MCE_DURING_VMENTRY = ''EXIT_REASON_MCE_DURING_VMENTRY''"
| "macro_name EXIT_REASON_EPT_VIOLATION = ''EXIT_REASON_EPT_VIOLATION''"
| "macro_name EXIT_REASON_EPT_MISCONFIG = ''EXIT_REASON_EPT_MISCONFIG''"
| "macro_name EXIT_REASON_PAUSE_INSTRUCTION = ''EXIT_REASON_PAUSE_INSTRUCTION''"
| "macro_name EXIT_REASON_MWAIT_INSTRUCTION = ''EXIT_REASON_MWAIT_INSTRUCTION''"
| "macro_name EXIT_REASON_MONITOR_TRAP_FLAG = ''EXIT_REASON_MONITOR_TRAP_FLAG''"
| "macro_name EXIT_REASON_MONITOR_INSTRUCTION = ''EXIT_REASON_MONITOR_INSTRUCTION''"
| "macro_name EXIT_REASON_INVEPT = ''EXIT_REASON_INVEPT''"
| "macro_name EXIT_REASON_INVVPID = ''EXIT_REASON_INVVPID''"
| "macro_name EXIT_REASON_XSAVES = ''EXIT_REASON_XSAVES''"
| "macro_name EXIT_REASON_XRSTORS = ''EXIT_REASON_XRSTORS''"
| "macro_name EXIT_REASON_PML_FULL = ''EXIT_REASON_PML_FULL''"
| "macro_name EXIT_REASON_VMFUNC = ''EXIT_REASON_VMFUNC''"
| "macro_name EXIT_REASON_PREEMPTION_TIMER = ''EXIT_REASON_PREEMPTION_TIMER''"

section \<open>The probe table\<close>

lemma length_probe_table [simp]: "length (vmx_handle_exit_probe cfg vmx) = nat REASON_NUM"
  by (simp add: vmx_handle_exit_probe_def)

lemma probe_decls_eq:
  "probe_decls cfg = (EXIT_REASON_EXCEPTION_NMI, ''handle_exception'') # probe_funcs cfg"
  by (simp add: probe_decls_def probe_funcs_def)

lemma distinct_probe_funcs: "distinct (map snd (probe_funcs cfg))"
  by (simp add: probe_funcs_def)

lemma handler_reason_decl:
  assumes "(r, name) \<in> set (probe_decls cfg)"
  shows "handler_reason cfg name = Some r"
proof -
  have "(EXIT_REASON_EXCEPTION_NMI, ''handle_exception'') \<in> set (probe_funcs cfg)"
    by (simp add: probe_funcs_def)
  with assms have "(r, name) \<in> set (probe_funcs cfg)"
    by (auto simp: probe_decls_eq)
  then have "(name, r) \<in> set (map (\<lambda>(r, s). (s, r)) (probe_funcs cfg))"
    by force
  moreover have "distinct (map fst (map (\<lambda>(r, s). (s, r)) (probe_funcs cfg)))"
    using distinct_probe_funcs [of cfg] by (simp add: comp_def case_prod_unfold)
  ultimately show ?thesis by (simp add: handler_reason_def)
qed

lemma probe_table_nth:
  "i < nat REASON_NUM \<Longrightarrow>
     vmx_handle_exit_probe cfg vmx ! i = map_of (rev (probe_entries cfg vmx)) i"
  unfolding vmx_handle_exit_probe_def
  by (subst foldl_assign_nth_last) (simp_all split: option.split)

lemma probe_table_slot:
  assumes "i < nat REASON_NUM" and "vmx_handle_exit_probe cfg vmx ! i = Some p"
  obtains r name where "(r, name) \<in> set (probe_decls cfg)" and "vmx r = i"
    and "p = \<lparr>pre_handler = name, symbol_name = name\<rparr>"
proof -
  from assms have "map_of (rev (probe_entries cfg vmx)) i = Some p"
    by (simp only: probe_table_nth)
  then have "(i, p) \<in> set (probe_entries cfg vmx)"
    by (metis map_of_SomeD set_rev)
  with that show thesis by (auto simp: probe_entries_def)
qed

lemma probe_table_present:
  assumes "vmx r < nat REASON_NUM" and "(r, name) \<in> set (probe_decls cfg)"
  shows "vmx_handle_exit_probe cfg vmx ! vmx r \<noteq> None"
proof -
  have "vmx r \<in> fst ` set (rev (probe_entries cfg vmx))"
    using assms(2) unfolding probe_entries_def by force
  then show ?thesis
    unfolding probe_table_nth [OF assms(1)] map_of_eq_None_iff by simp
qed

section \<open>The report\<close>

definition report_lines :: "nat \<Rightarrow> exit_stat \<Rightarrow> log_line list" where
  "report_lines n st =
     map (\<lambda>i. (reason_fmt, [AStr (reason_name i), ALong (reasons_num st ! i)]))
       (filter (\<lambda>i. reasons_num st ! i \<noteq> 0) [0..<n])"

definition named_stat :: "nat \<Rightarrow> exit_stat \<Rightarrow> exit_stat" where
  "named_stat n st = (if \<exists>i<n. reasons_num st ! i \<noteq> 0 then init_reasons st else st)"

lemma named_stat_num [simp]: "reasons_num (named_stat n st) = reasons_num st"
  by (simp add: named_stat_def)

lemma stat_wf_named [simp]: "stat_wf st \<Longrightarrow> stat_wf (named_stat n st)"
  by (simp add: named_stat_def stat_wf_init_reasons)

lemma show_reason_line_step:
  assumes "stat_wf (stat s)" and "int i < REASON_NUM"
  shows "show_reason_line (int i) s =
         Inr (if reasons_num (stat s) ! i = 0 then s
              else s\<lparr>stat := init_reasons (stat s), klog := klog s @
                 [(reason_fmt, [AStr (reason_name i), ALong (reasons_num (stat s) ! i)])]\<rparr>)"
  using assms
  by (simp add: show_reason_line_def report_reason_in reason2str_in stat_wf_init_reasons)

lemma show_lines:
  assumes "stat_wf (stat s)" and "int n \<le> REASON_NUM"
  shows "for_range n show_reason_line s =
         Inr (s\<lparr>stat := named_stat n (stat s), klog := klog s @ report_lines n (stat s)\<rparr>)"
  using assms
proof (induction n)
  case 0
  then show ?case by (simp add: named_stat_def report_lines_def)
next
  case (Suc n)
  let ?s = "s\<lparr>stat := named_stat n (stat s), klog := klog s @ report_lines n (stat s)\<rparr>"
  from Suc have "for_range (Suc n) show_reason_line s = show_reason_line (int n) ?s"
    by (simp add: for_range_Suc)
  also have "\<dots> = Inr (s\<lparr>stat := named_stat (Suc n) (stat s),
      klog := klog s @ report_lines (Suc n) (stat s)\<rparr>)"
    using Suc.prems
    by (auto simp: show_reason_line_step report_lines_def named_stat_def init_reasons_idem
        less_Suc_eq stat_wf_init_reasons)
  finally show ?case .
qed
lemma show_exitreason_flush:
  assumes "stat_wf (stat s)" and "1000000000 \<le> sint (now - ktime s)" and "\<not> showing_lock s"
  shows "show_exitreason now s =
    Inr (s\<lparr>klog := klog s @ (''VM EXIT REASON STATISTIC'', []) #
              (total_fmt, [ALong (total_exit s)]) # report_lines (nat REASON_NUM) (stat s),
           total_exit := 0, stat := reset_reason (named_stat (nat REASON_NUM) (stat s)),
           ktime := now\<rparr>)"
  using assms by (simp add: show_exitreason_def Let_def show_lines REASON_NUM_def)

lemma show_exitreason_quiet:
  "sint (now - ktime s) < 1000000000 \<or> showing_lock s \<Longrightarrow> show_exitreason now s = Inr s"
  by (auto simp: show_exitreason_def)

section \<open>What has been counted, printed or not yet\<close>

datatype exit_key = TotalExits | Label string

fun line_value :: "exit_key \<Rightarrow> log_line \<Rightarrow> u64" where
  "line_value TotalExits (f, [ALong v]) = (if f = total_fmt then v else 0)"
| "line_value (Label l) (f, [AStr n, ALong v]) = (if f = reason_fmt \<and> n = l then v else 0)"
| "line_value _ _ = 0"

definition printed :: "exit_key \<Rightarrow> log_line list \<Rightarrow> u64" where
  "printed k log = sum_list (map (line_value k) log)"

definition label_pending :: "string \<Rightarrow> exit_stat \<Rightarrow> u64" where
  "label_pending l st =
     sum_list (map (\<lambda>i. if reason_name i = l then reasons_num st ! i else 0)
       [0..<nat REASON_NUM])"

fun pending :: "exit_key \<Rightarrow> kexit \<Rightarrow> u64" where
  "pending TotalExits s = total_exit s"
| "pending (Label l) s = label_pending l (stat s)"

definition accounted :: "exit_key \<Rightarrow> kexit \<Rightarrow> u64" where
  "accounted k s = printed k (klog s) + pending k s"

definition exit_hit :: "(exit_reason \<Rightarrow> nat) \<Rightarrow> exit_reason \<times> u64 \<Rightarrow> exit_key \<Rightarrow> bool" where
  "exit_hit vmx e k \<longleftrightarrow> (case k of TotalExits \<Rightarrow> True | Label l \<Rightarrow> reason_name (vmx (fst e)) = l)"

definition exit_event ::
  "(exit_reason \<Rightarrow> nat) \<Rightarrow> exit_reason \<times> u64 \<Rightarrow> kexit \<Rightarrow> kexit res" where
  "exit_event vmx e s = probe_func vmx (fst e) (snd e) s"

lemma printed_append: "printed k (xs @ ys) = printed k xs + printed k ys"
  by (simp add: printed_def)

lemma printed_report:
  "printed k ((''VM EXIT REASON STATISTIC'', []) # (total_fmt, [ALong v]) # report_lines n st) =
   (case k of TotalExits \<Rightarrow> v
    | Label l \<Rightarrow> sum_list (map (\<lambda>i. if reason_name i = l then reasons_num st ! i else 0) [0..<n]))"
proof (cases k)
  case TotalExits
  then show ?thesis by (simp add: printed_def report_lines_def comp_def)
next
  case (Label l)
  have "sum_list (map (\<lambda>i. if reason_name i = l then reasons_num st ! i else 0)
          (filter (\<lambda>i. reasons_num st ! i \<noteq> 0) [0..<n])) =
        sum_list (map (\<lambda>i. if reason_name i = l then reasons_num st ! i else 0) [0..<n])"
    by (rule sum_list_map_filter) simp
  with Label show ?thesis by (simp add: printed_def report_lines_def comp_def)
qed

lemma reset_reason_nth: "i < nat REASON_NUM \<Longrightarrow> reasons_num (reset_reason st) ! i = 0"
  by (simp add: reset_reason_def)

lemma label_pending_reset: "label_pending l (reset_reason st) = 0"
proof -
  have "map (\<lambda>i. if reason_name i = l then reasons_num (reset_reason st) ! i else 0)
          [0..<nat REASON_NUM] = map (\<lambda>i. 0) [0..<nat REASON_NUM]"
    by (rule map_cong) (simp_all add: reset_reason_nth)
  then show ?thesis by (simp add: label_pending_def map_replicate_const)
qed

lemma show_exitreason_accounts:
  assumes "stat_wf (stat s)"
  shows "\<exists>t. show_exitreason now s = Inr t \<and> stat_wf (stat t) \<and> (\<forall>k. accounted k t = accounted k s)"
proof (cases "sint (now - ktime s) < 1000000000 \<or> showing_lock s")
  case True
  with assms show ?thesis by (simp add: show_exitreason_quiet)
next
  case False
  let ?log = "klog s @ (''VM EXIT REASON STATISTIC'', []) # (total_fmt, [ALong (total_exit s)]) #
    report_lines (nat REASON_NUM) (stat s)"
  let ?t = "s\<lparr>klog := ?log, total_exit := 0,
     stat := reset_reason (named_stat (nat REASON_NUM) (stat s)), ktime := now\<rparr>"
  have "show_exitreason now s = Inr ?t"
    using assms False by (intro show_exitreason_flush) auto
  moreover have "accounted k ?t = accounted k s" for k
  proof (cases k)
    case TotalExits
    then show ?thesis by (simp add: accounted_def printed_append printed_report)
  next
    case (Label l)
    then show ?thesis
      by (simp add: accounted_def printed_append printed_report label_pending_reset)
         (simp add: label_pending_def)
  qed
  moreover have "stat_wf (stat ?t)"
    using assms by (simp add: stat_wf_reset)
  ultimately show ?thesis by blast
qed

lemma record_pending:
  assumes "stat_wf st" and "r < nat REASON_NUM"
    and "record_reason (int r) st = Inr st'"
  shows "label_pending l st' = label_pending l st + (if reason_name r = l then 1 else 0)"
proof -
  have st': "st' = st\<lparr>reasons_num := (reasons_num st)[r := reasons_num st ! r + 1]\<rparr>"
    using assms by (simp add: record_reason_in)
  have "(if reason_name i = l then reasons_num st' ! i else 0) =
        (if reason_name i = l then reasons_num st ! i else 0) +
        (if i = r then if reason_name r = l then 1 else 0 else 0)" for i
    using assms(1,2) by (auto simp: st' stat_wf_def nth_list_update)
  then show ?thesis
    using assms(2) unfolding label_pending_def by (simp only: sum_list_addf sum_list_upt_delta)
qed

lemma exit_event_accounts:
  assumes "stat_wf (stat s)" and "vmx (fst e) < nat REASON_NUM"
  shows "\<exists>t. exit_event vmx e s = Inr t \<and> stat_wf (stat t) \<and>
             (\<forall>k. accounted k t = accounted k s + (if exit_hit vmx e k then 1 else 0))"
proof -
  let ?r = "vmx (fst e)"
  obtain st where st: "record_reason (int ?r) (stat s) = Inr st" "stat_wf st"
    using record_reason_wf [OF assms(1), of "int ?r"] by auto
  let ?u = "s\<lparr>stat := st, total_exit := total_exit s + 1\<rparr>"
  have ev: "exit_event vmx e s = show_exitreason (snd e) ?u"
    by (simp add: exit_event_def probe_func_def st)
  have u: "accounted k ?u = accounted k s + (if exit_hit vmx e k then 1 else 0)" for k
    by (cases k) (simp_all add: accounted_def exit_hit_def record_pending [OF assms st(1)])
  from st show_exitreason_accounts [of ?u "snd e"] show ?thesis
    unfolding ev by (simp add: u)
qed

interpretation exits: tally "\<lambda>s. stat_wf (stat s)" "\<lambda>e. vmx (fst e) < nat REASON_NUM"
  "exit_event vmx" accounted "exit_hit vmx" for vmx
proof
  show "\<exists>t. exit_event vmx e s = Inr t \<and> stat_wf (stat t)"
    if "stat_wf (stat s)" "vmx (fst e) < nat REASON_NUM" for s e
    using exit_event_accounts that by blast
  show "accounted k t = accounted k s + (if exit_hit vmx e k then 1 else 0)"
    if "stat_wf (stat s)" "vmx (fst e) < nat REASON_NUM" "exit_event vmx e s = Inr t" for s e t k
    using exit_event_accounts [where s = s and e = e and vmx = vmx] that by auto
qed


section \<open>Totals agree with the lines below them\<close>

fun leading_sum :: "log_line list \<Rightarrow> u64" where
  "leading_sum ((f, [AStr n, ALong v]) # ls) = (if f = reason_fmt then v + leading_sum ls else 0)"
| "leading_sum _ = 0"

fun log_balanced :: "log_line list \<Rightarrow> bool" where
  "log_balanced [] \<longleftrightarrow> True"
| "log_balanced ((f, [ALong v]) # ls) \<longleftrightarrow>
     (f = total_fmt \<longrightarrow> v = leading_sum ls) \<and> log_balanced ls"
| "log_balanced (_ # ls) \<longleftrightarrow> log_balanced ls"

definition books_balanced :: "kexit \<Rightarrow> bool" where
  "books_balanced s \<longleftrightarrow> stat_wf (stat s) \<and> total_exit s = sum_list (reasons_num (stat s)) \<and>
     log_balanced (klog s)"

lemma leading_sum_stop:
  "leading_sum (xs @ (''VM EXIT REASON STATISTIC'', []) # ys) = leading_sum xs"
  by (induction xs rule: leading_sum.induct) simp_all

lemma log_balanced_stop:
  "log_balanced (xs @ (''VM EXIT REASON STATISTIC'', []) # ys) \<longleftrightarrow> log_balanced xs \<and> log_balanced ys"
  by (induction xs rule: log_balanced.induct) (simp_all add: leading_sum_stop)

lemma leading_sum_lines:
  "leading_sum (map (\<lambda>i. (reason_fmt, [AStr (f i), ALong (g i)])) is) = sum_list (map g is)"
  by (induction "is") auto

lemma log_balanced_lines: "log_balanced (map (\<lambda>i. (f, [AStr (g i), ALong (h i)])) is)"
  by (induction "is") auto

lemma report_lines_sum:
  assumes "stat_wf st"
  shows "leading_sum (report_lines (nat REASON_NUM) st) = sum_list (reasons_num st)"
proof -
  have "leading_sum (report_lines (nat REASON_NUM) st) =
      sum_list (map ((!) (reasons_num st)) [0..<nat REASON_NUM])"
    unfolding report_lines_def leading_sum_lines by (rule sum_list_filter_zero)
  also have "\<dots> = sum_list (reasons_num st)"
    using sum_list_map_nth [of "reasons_num st"] assms by (simp add: stat_wf_def)
  finally show ?thesis .
qed

lemma show_exitreason_balanced:
  assumes "books_balanced s" and "show_exitreason now s = Inr t"
  shows "books_balanced t"
proof (cases "sint (now - ktime s) < 1000000000 \<or> showing_lock s")
  case True
  with assms show ?thesis by (simp add: show_exitreason_quiet)
next
  case False
  from assms have wf: "stat_wf (stat s)" by (simp add: books_balanced_def)
  have "sum_list (reasons_num (reset_reason st)) = 0" for st
    by (simp add: reset_reason_def)
  moreover have "log_balanced (report_lines n st)" for n st
    unfolding report_lines_def by (rule log_balanced_lines)
  ultimately show ?thesis
    using assms False wf
    by (auto simp: show_exitreason_flush books_balanced_def log_balanced_stop report_lines_sum
        stat_wf_reset)
qed

lemma record_reason_sum:
  assumes "stat_wf st" and "r < nat REASON_NUM" and "record_reason (int r) st = Inr st'"
  shows "sum_list (reasons_num st') = sum_list (reasons_num st) + 1"
  using assms by (auto simp: record_reason_in sum_list_update_word stat_wf_def)

lemma exit_event_balanced:
  assumes "books_balanced s" and "vmx (fst e) < nat REASON_NUM" and "exit_event vmx e s = Inr t"
  shows "books_balanced t"
proof -
  from assms(3) obtain st where
    st: "record_reason (int (vmx (fst e))) (stat s) = Inr st" and
    t: "show_exitreason (snd e) (s\<lparr>stat := st, total_exit := total_exit s + 1\<rparr>) = Inr t"
    by (auto simp: exit_event_def probe_func_def bindR_Inr_iff)
  have wf: "stat_wf (stat s)" using assms(1) by (simp add: books_balanced_def)
  have "stat_wf st" using record_reason_wf [OF wf, of "int (vmx (fst e))"] st by auto
  then have "books_balanced (s\<lparr>stat := st, total_exit := total_exit s + 1\<rparr>)"
    using assms(1) record_reason_sum [OF wf assms(2) st] by (simp add: books_balanced_def)
  then show ?thesis using t by (rule show_exitreason_balanced)
qed


section \<open>One report per second\<close>

definition reports :: "log_line list \<Rightarrow> nat" where
  "reports log = length (filter (\<lambda>l. l = (''VM EXIT REASON STATISTIC'', [])) log)"

lemma reports_append: "reports (xs @ ys) = reports xs + reports ys"
  by (simp add: reports_def)

lemma reports_report_lines [simp]: "reports (report_lines n st) = 0"
  by (simp add: reports_def report_lines_def comp_def filter_empty_conv)

lemma show_exitreason_reports:
  assumes "stat_wf (stat s)" and "show_exitreason now s = Inr t"
  shows "stat_wf (stat t) \<and>
    (t = s \<or> \<not> showing_lock t \<and> ktime t = now \<and> 1000000000 \<le> sint (now - ktime s) \<and>
             reports (klog t) = Suc (reports (klog s)))"
proof (cases "sint (now - ktime s) < 1000000000 \<or> showing_lock s")
  case True
  with assms show ?thesis by (simp add: show_exitreason_quiet)
next
  case False
  have [simp]: "reports ((''VM EXIT REASON STATISTIC'', []) # (total_fmt, [ALong v]) # ls) =
      Suc (reports ls)" for v ls
    by (simp add: reports_def)
  from False assms show ?thesis
    by (auto simp: show_exitreason_flush reports_append stat_wf_reset)
qed

lemma window_no_second_report:
  assumes "stat_wf (stat s)" and "\<forall>e\<in>set evs. vmx (fst e) < nat REASON_NUM"
    and "\<forall>e\<in>set evs. sint (snd e - ktime s) < 1000000000"
    and "foldR (exit_event vmx) evs s = Inr t"
  shows "reports (klog t) = reports (klog s)"
  using assms
proof (induction evs arbitrary: s)
  case (Cons e evs)
  from Cons.prems obtain u where u: "exit_event vmx e s = Inr u" "foldR (exit_event vmx) evs u = Inr t"
    by (auto simp: bindR_Inr_iff)
  from u(1) obtain st where st: "record_reason (int (vmx (fst e))) (stat s) = Inr st"
    and "show_exitreason (snd e) (s\<lparr>stat := st, total_exit := total_exit s + 1\<rparr>) = Inr u"
    by (auto simp: exit_event_def probe_func_def bindR_Inr_iff)
  with Cons.prems have u': "u = s\<lparr>stat := st, total_exit := total_exit s + 1\<rparr>"
    by (simp add: show_exitreason_quiet)
  have "stat_wf (stat u)"
    using record_reason_wf [OF Cons.prems(1), of "int (vmx (fst e))"] st u' by auto
  with Cons.IH [OF _ _ _ u(2)] Cons.prems u' show ?case by simp
qed simp

lemma window_reports:
  assumes "stat_wf (stat s)" and "\<forall>e\<in>set evs. vmx (fst e) < nat REASON_NUM"
    and "\<forall>e\<in>set evs. \<forall>e'\<in>set evs. sint (snd e - snd e') < 1000000000"
    and "foldR (exit_event vmx) evs s = Inr t"
  shows "reports (klog t) \<le> Suc (reports (klog s))"
  using assms
proof (induction evs arbitrary: s)
  case (Cons e evs)
  from Cons.prems obtain u where u: "exit_event vmx e s = Inr u" "foldR (exit_event vmx) evs u = Inr t"
    by (auto simp: bindR_Inr_iff)
  from u(1) obtain st where st: "record_reason (int (vmx (fst e))) (stat s) = Inr st"
    and sh: "show_exitreason (snd e) (s\<lparr>stat := st, total_exit := total_exit s + 1\<rparr>) = Inr u"
    by (auto simp: exit_event_def probe_func_def bindR_Inr_iff)
  have wf: "stat_wf st"
    using record_reason_wf [OF Cons.prems(1), of "int (vmx (fst e))"] st by auto
  then have sh': "stat_wf (stat u)"
    "u = s\<lparr>stat := st, total_exit := total_exit s + 1\<rparr> \<or>
     ktime u = snd e \<and> reports (klog u) = Suc (reports (klog s))"
    using show_exitreason_reports [OF _ sh] by auto
  from sh'(2) show ?case
  proof
    assume "u = s\<lparr>stat := st, total_exit := total_exit s + 1\<rparr>"
    then show ?thesis using Cons.IH [OF sh'(1) _ _ u(2)] Cons.prems by simp
  next
    assume "ktime u = snd e \<and> reports (klog u) = Suc (reports (klog s))"
    then show ?thesis
      using window_no_second_report [OF sh'(1) _ _ u(2)] Cons.prems by simp
  qed
qed simp


section \<open>Registration\<close>

definition present :: "kernel_cfg \<Rightarrow> (exit_reason \<Rightarrow> nat) \<Rightarrow> nat set" where
  "present cfg vmx = {i. i < nat REASON_NUM \<and> vmx_handle_exit_probe cfg vmx ! i \<noteq> None}"

lemma armed_snoc [simp]: "armed (cs @ [c]) = armed_step c (armed cs)"
  by (simp add: armed_def)

lemma armed_Nil [simp]: "armed [] = {}"
  by (simp add: armed_def)

definition same_stats :: "kexit \<Rightarrow> kexit \<Rightarrow> bool" where
  "same_stats s t \<longleftrightarrow> ktime t = ktime s \<and> showing_lock t = showing_lock s \<and>
     total_exit t = total_exit s \<and> stat t = stat s"

lemma same_stats_trans: "same_stats s t \<Longrightarrow> same_stats t u \<Longrightarrow> same_stats s u"
  by (simp add: same_stats_def)

lemma same_stats_log [simp]:
  "same_stats s s"
  "same_stats s (t\<lparr>calls := cs\<rparr>) = same_stats s t"
  "same_stats s (t\<lparr>klog := ls\<rparr>) = same_stats s t"
  "same_stats (s\<lparr>calls := cs\<rparr>) t = same_stats s t"
  "same_stats (s\<lparr>klog := ls\<rparr>) t = same_stats s t"
  by (simp_all add: same_stats_def)

lemma unregister_step_eq:
  "n < nat REASON_NUM \<Longrightarrow> unregister_step cfg vmx (int n) s = Inr
     (case vmx_handle_exit_probe cfg vmx ! n of
        None \<Rightarrow> s\<lparr>klog := klog s @
           [(if ge_4_19_0 cfg then ''kvmexitreason : unregister_probe skip reason %d''
             else ''kvmexitreason : unregister_jprobe skip reason %d'', [AInt (int n)])]\<rparr>
      | Some p \<Rightarrow> s\<lparr>calls := calls s @ [Unregister n]\<rparr>)"
  by (simp add: unregister_step_def split: option.split)

lemma unregister_upto:
  assumes "n \<le> nat REASON_NUM"
  shows "\<exists>t. for_range n (unregister_step cfg vmx) s = Inr t \<and>
    armed (calls t) = armed (calls s) - {i \<in> present cfg vmx. i < n} \<and>
    same_stats s t"
  using assms
proof (induction n)
  case (Suc n)
  then obtain t where
    t: "for_range n (unregister_step cfg vmx) s = Inr t"
       "armed (calls t) = armed (calls s) - {i \<in> present cfg vmx. i < n}"
       "same_stats s t"
    by auto
  have n: "n < nat REASON_NUM" using Suc.prems by simp
  show ?case
  proof (cases "vmx_handle_exit_probe cfg vmx ! n")
    case None
    then have "{i \<in> present cfg vmx. i < Suc n} = {i \<in> present cfg vmx. i < n}"
      by (auto simp: present_def less_Suc_eq)
    with None t n show ?thesis
      by (auto simp: for_range_Suc unregister_step_eq)
  next
    case (Some p)
    then have "{i \<in> present cfg vmx. i < Suc n} = insert n {i \<in> present cfg vmx. i < n}"
      using n by (auto simp: present_def less_Suc_eq)
    with Some t n show ?thesis
      by (auto simp: for_range_Suc unregister_step_eq)
  qed
qed simp

lemma unregister_all:
  obtains t where "unregister_all_probes cfg vmx s = Inr t"
    and "armed (calls t) = armed (calls s) - present cfg vmx"
    and "same_stats s t"
proof -
  have "{i \<in> present cfg vmx. i < nat REASON_NUM} = present cfg vmx"
    by (auto simp: present_def)
  with unregister_upto [of "nat REASON_NUM" cfg vmx s] that show thesis
    by (auto simp: unregister_all_probes_def)
qed

lemma register_from_result:
  assumes "armed (calls s) = {i \<in> present cfg vmx. i < idx}"
  shows "\<exists>r t. register_from cfg vmx reg idx s = Inr (r, t) \<and>
    same_stats s t \<and>
    (if \<forall>i\<in>present cfg vmx. idx \<le> i \<longrightarrow> 0 \<le> reg i
     then r = None \<and> armed (calls t) = present cfg vmx
     else r = Some (-1) \<and> armed (calls t) = {})"
  using assms
proof (induction cfg vmx reg idx s rule: register_from.induct)
  case (1 cfg vmx reg idx s)
  show ?case
  proof (cases "idx < nat REASON_NUM")
    case False
    then have "{i \<in> present cfg vmx. i < idx} = present cfg vmx"
      and "\<forall>i\<in>present cfg vmx. idx \<le> i \<longrightarrow> 0 \<le> reg i"
      by (auto simp: present_def)
    with False "1.prems" show ?thesis
      by (simp add: register_from.simps [of cfg vmx reg idx s])
  next
    case idx: True
    show ?thesis
    proof (cases "vmx_handle_exit_probe cfg vmx ! idx")
      case None
      then have "{i \<in> present cfg vmx. i < Suc idx} = {i \<in> present cfg vmx. i < idx}"
        and "(\<forall>i\<in>present cfg vmx. Suc idx \<le> i \<longrightarrow> 0 \<le> reg i) \<longleftrightarrow>
             (\<forall>i\<in>present cfg vmx. idx \<le> i \<longrightarrow> 0 \<le> reg i)"
        by (auto simp: present_def less_Suc_eq Suc_le_eq le_less)
      with "1.IH"(1) idx None "1.prems" show ?thesis
        by (auto simp: register_from.simps [of cfg vmx reg idx s])
    next
      case (Some p)
      then have ins: "{i \<in> present cfg vmx. i < Suc idx} = insert idx {i \<in> present cfg vmx. i < idx}"
        and mem: "idx \<in> present cfg vmx"
        using idx by (auto simp: present_def less_Suc_eq)
      show ?thesis
      proof (cases "reg idx < 0")
        case True
        have sub: "{i \<in> present cfg vmx. i < idx} - present cfg vmx = {}" by auto
        from True mem have "\<not> (\<forall>i\<in>present cfg vmx. idx \<le> i \<longrightarrow> 0 \<le> reg i)" by force
        with True Some idx "1.prems" sub show ?thesis
          by (auto simp: register_from.simps [of cfg vmx reg idx s] Let_def bindR_Inr_iff
              intro: unregister_all [of cfg vmx "s\<lparr>calls := calls s @ [Register idx (reg idx)],
                klog := klog s @ [(if ge_4_19_0 cfg then ''kvmexitreason : register_kprobe %d jprobe failed : %d''
                    else ''kvmexitreason : register_jprobe %d jprobe failed : %d'',
                    [AInt (int idx), AInt (reg idx)])]\<rparr>"])
      next
        case False
        then have "(\<forall>i\<in>present cfg vmx. Suc idx \<le> i \<longrightarrow> 0 \<le> reg i) \<longleftrightarrow>
             (\<forall>i\<in>present cfg vmx. idx \<le> i \<longrightarrow> 0 \<le> reg i)"
          by (auto simp: Suc_le_eq le_less)
        with "1.IH"(2) [OF _ Some refl refl] idx Some "1.prems" ins False show ?thesis
          by (auto simp: register_from.simps [of cfg vmx reg idx s] Let_def)
      qed
    qed
  qed
qed

section \<open>Properties\<close>

text \<open>
  C1: handlers that run one after the other lose no exit and count none twice. Over any sequence of probe hits that
  do not overlap in time, each with a reason in range, for the total and for each label, what the log has printed
  plus what the counters still hold grows by exactly the number of hits (modulo \<open>2 ^ 64\<close>), whatever reports
  happened in between and whichever hits found the lock taken. For handlers that overlap see \<open>Exit_Race\<close>.
\<close>

theorem exit_conservation:
  assumes "stat_wf (stat s)" and "\<forall>e\<in>set evs. vmx (fst e) < nat REASON_NUM"
  shows "\<exists>t. foldR (exit_event vmx) evs s = Inr t \<and>
    accounted TotalExits t = accounted TotalExits s + of_nat (length evs) \<and>
    (\<forall>l. accounted (Label l) t = accounted (Label l) s +
           of_nat (length (filter (\<lambda>e. reason_name (vmx (fst e)) = l) evs)))"
proof -
  from exits.run_measure [of s evs vmx, OF assms] obtain t where
    t: "foldR (exit_event vmx) evs s = Inr t"
       "\<forall>k. accounted k t = accounted k s + of_nat (exits.hits vmx k evs)"
    by blast
  show ?thesis
    using t(2) by (intro exI [of _ t] conjI t(1) allI)
      (simp_all add: exits.hits_def exit_hit_def)
qed

text \<open>A run from the freshly loaded module, with a report in the middle.\<close>

theorem exit_conservation_witness:
  "\<exists>t. foldR (exit_event sdm_exit_reason)
         [(EXIT_REASON_CPUID, 5), (EXIT_REASON_HLT, 2000000000), (EXIT_REASON_CPUID, 2000000007)]
         kexit_static = Inr t \<and>
       accounted TotalExits t = 3 \<and> accounted (Label ''EXIT_REASON_CPUID'') t = 2"
proof -
  have z: "accounted k kexit_static = 0" for k
  proof (cases k)
    case (Label l)
    have "label_pending l exit_stat_static = label_pending l (reset_reason exit_stat_static)"
      by (simp add: reset_reason_def exit_stat_static_def)
    with Label show ?thesis
      by (simp add: accounted_def kexit_static_def printed_def label_pending_reset)
  qed (simp add: accounted_def kexit_static_def printed_def)
  have names: "reason_name 10 = ''EXIT_REASON_CPUID''" "reason_name 12 = ''EXIT_REASON_HLT''"
    by (simp_all add: reason_name_def reason_assigns_def)
  have wf: "stat_wf (stat kexit_static)"
    by (simp add: kexit_static_def stat_wf_static)
  show ?thesis
    using exit_conservation [OF wf, of "[(EXIT_REASON_CPUID, 5), (EXIT_REASON_HLT, 2000000000),
        (EXIT_REASON_CPUID, 2000000007)]" sdm_exit_reason]
    by (auto simp: z names REASON_NUM_def)
qed

text \<open>
  C2: the books balance between handlers that run one after the other. Starting from a balanced state, after any
  sequence of probe hits that do not overlap in time, each with a reason in range, the total is the sum of the
  per-reason counters, and in the whole log each \<open>TOTAL EXITS\<close> line is the sum of the reason lines printed
  below it.
\<close>

theorem exit_report_balanced:
  assumes "books_balanced s" and "\<forall>e\<in>set evs. vmx (fst e) < nat REASON_NUM"
    and "foldR (exit_event vmx) evs s = Inr t"
  shows "log_balanced (klog t) \<and> total_exit t = sum_list (reasons_num (stat t))"
proof -
  have "books_balanced t"
    using assms(3,1) by (rule foldR_inv) (use assms(2) exit_event_balanced in blast)
  then show ?thesis by (simp add: books_balanced_def)
qed

theorem exit_report_balanced_witness:
  "\<exists>t. foldR (exit_event sdm_exit_reason)
         [(EXIT_REASON_CPUID, 5), (EXIT_REASON_HLT, 2000000000)] kexit_static = Inr t \<and>
       log_balanced (klog t) \<and> total_exit t = sum_list (reasons_num (stat t))"
proof -
  let ?evs = "[(EXIT_REASON_CPUID, 5), (EXIT_REASON_HLT, 2000000000)]"
  have b: "books_balanced kexit_static"
    by (simp add: books_balanced_def kexit_static_def stat_wf_static)
       (simp add: exit_stat_static_def)
  have v: "\<forall>e\<in>set ?evs. sdm_exit_reason (fst e) < nat REASON_NUM"
    by (simp add: REASON_NUM_def)
  obtain t where t: "foldR (exit_event sdm_exit_reason) ?evs kexit_static = Inr t"
    using exits.run_measure [of kexit_static ?evs sdm_exit_reason] b v
    by (auto simp: books_balanced_def)
  from t exit_report_balanced [OF b v t] show ?thesis by blast
qed

text \<open>
  at most one report per second. However many probes fire with time stamps inside one window of
  a second, at most one report is added to the log.
\<close>

theorem exit_report_rate:
  assumes "stat_wf (stat s)" and "\<forall>(r, n)\<in>set evs. vmx r < nat REASON_NUM"
    and "a + 1000000000 \<le> 2 ^ 62" and "\<forall>(r, n)\<in>set evs. a \<le> n \<and> n < a + 1000000000"
    and "foldR (exit_event vmx) (map (\<lambda>(r, n). (r, of_nat n)) evs) s = Inr t"
  shows "reports (klog t) \<le> Suc (reports (klog s))"
proof (rule window_reports [OF assms(1) _ _ assms(5)])
  show "\<forall>e\<in>set (map (\<lambda>(r, n). (r, of_nat n)) evs). vmx (fst e) < nat REASON_NUM"
    using assms(2) by auto
  show "\<forall>e\<in>set (map (\<lambda>(r, n). (r, of_nat n)) evs). \<forall>e'\<in>set (map (\<lambda>(r, n). (r, of_nat n)) evs).
      sint (snd e - snd e' :: u64) < 1000000000"
  proof clarsimp
    fix r n r' n' assume "(r, n) \<in> set evs" "(r', n') \<in> set evs"
    with assms(4) have "a \<le> n" "n < a + 1000000000" "a \<le> n'" "n' < a + 1000000000" by auto
    with assms(3) have "n < 2 ^ 62" "n' < 2 ^ 62" "int n - int n' < 1000000000" by linarith+
    then show "sint (of_nat n - of_nat n' :: u64) < 1000000000"
      by (simp add: sint_diff_of_nat)
  qed
qed

theorem exit_report_rate_witness:
  "\<exists>t. foldR (exit_event sdm_exit_reason)
         (map (\<lambda>(r, n). (r, of_nat n)) [(EXIT_REASON_CPUID, 3000000000), (EXIT_REASON_HLT, 3000000001)])
         kexit_static = Inr t \<and> reports (klog t) \<le> 1"
proof -
  let ?evs = "[(EXIT_REASON_CPUID, 3000000000), (EXIT_REASON_HLT, 3000000001)] :: (exit_reason \<times> nat) list"
  let ?f = "\<lambda>(r, n). (r, of_nat n :: u64)"
  have wf: "stat_wf (stat kexit_static)"
    by (simp add: kexit_static_def stat_wf_static)
  obtain t where t: "foldR (exit_event sdm_exit_reason) (map ?f ?evs) kexit_static = Inr t"
    using exits.run_measure [of kexit_static "map ?f ?evs" sdm_exit_reason] wf
    by (auto simp: REASON_NUM_def)
  have "reports (klog t) \<le> Suc (reports (klog kexit_static))"
    using exit_report_rate [OF wf _ _ _ t, of 3000000000] by (simp add: REASON_NUM_def)
  with t show ?thesis by (auto simp: kexit_static_def reports_def)
qed

text \<open>
  the handler in a slot counts that slot. Whatever the numbers in \<open>asm/vmx.h\<close> are, the handler that
  the table names for slot \<open>i\<close> exists and records the reason whose number is \<open>i\<close>.
\<close>

theorem exit_slot_attribution:
  assumes "i < nat REASON_NUM" and "vmx_handle_exit_probe cfg vmx ! i = Some p"
  shows "\<exists>r. handler_reason cfg (pre_handler p) = Some r \<and> vmx r = i \<and> symbol_name p = pre_handler p"
  using assms by (elim probe_table_slot) (auto dest: handler_reason_decl)

theorem exit_slot_attribution_witness:
  "\<exists>p r. vmx_handle_exit_probe \<lparr>ge_4_14_0 = True, ge_4_19_0 = True\<rparr> sdm_exit_reason ! 48 = Some p \<and>
     handler_reason \<lparr>ge_4_14_0 = True, ge_4_19_0 = True\<rparr> (pre_handler p) = Some r \<and>
     sdm_exit_reason r = 48"
proof -
  let ?cfg = "\<lparr>ge_4_14_0 = True, ge_4_19_0 = True\<rparr>"
  have "(EXIT_REASON_EPT_VIOLATION, ''handle_ept_violation'') \<in> set (probe_decls ?cfg)"
    by (simp add: probe_decls_def)
  from probe_table_present [OF _ this, of sdm_exit_reason]
  obtain p where p: "vmx_handle_exit_probe ?cfg sdm_exit_reason ! 48 = Some p"
    by (auto simp: REASON_NUM_def)
  with exit_slot_attribution [OF _ p] show ?thesis by (auto simp: REASON_NUM_def)
qed

text \<open>
  C4: with the documented numbering every probed reason has an in-range slot and the report prints it
  under its own macro name, except \<open>EXIT_REASON_VMFUNC\<close>: that one is probed but missing from the
  name table, so its exits appear as \<open>EXIT_REASON_UNKNOWN\<close>.
\<close>

theorem exit_labels:
  assumes "vmx_documented vmx" and "stat_wf s"
  shows "int (vmx r) < REASON_NUM \<and>
    reason2str (int (vmx r)) s =
      Inr (if r = EXIT_REASON_VMFUNC then ''EXIT_REASON_UNKNOWN'' else macro_name r, init_reasons s)"
proof -
  have r: "vmx r = sdm_exit_reason r" using assms(1) by (simp add: vmx_documented_def)
  have in66: "int (vmx r) < REASON_NUM"
    unfolding r REASON_NUM_def by (cases r) simp_all
  have "reason_name (sdm_exit_reason r) =
      (if r = EXIT_REASON_VMFUNC then ''EXIT_REASON_UNKNOWN'' else macro_name r)"
    by (cases r) (simp_all add: reason_name_def reason_assigns_def)
  with in66 show ?thesis
    by (simp add: reason2str_in [OF assms(2)] r)
qed

theorem exit_labels_witness:
  "reason2str 59 exit_stat_static = Inr (''EXIT_REASON_UNKNOWN'', init_reasons exit_stat_static)"
  using exit_labels [of sdm_exit_reason exit_stat_static EXIT_REASON_VMFUNC]
  by (simp add: vmx_documented_def stat_wf_static)

text \<open>
  C3: loading is all or nothing, and unloading undoes it. \<open>probe_init\<close> returns 0 with exactly the
  present slots armed and the statistics initialised, or, if any registration fails, returns -1
  with no slot armed and the statistics untouched; \<open>probe_exit\<close> after a load leaves nothing armed.
\<close>

theorem exit_load_unload:
  assumes "armed (calls s) = {}"
  shows "\<exists>rc t u. probe_init cfg vmx reg now s = Inr (rc, t) \<and>
    (if \<forall>i\<in>present cfg vmx. 0 \<le> reg i
     then rc = 0 \<and> armed (calls t) = present cfg vmx \<and> stat t = init_reasons (stat s) \<and>
          total_exit t = 0 \<and> ktime t = now \<and> \<not> showing_lock t
     else rc = -1 \<and> armed (calls t) = {} \<and> same_stats s t) \<and>
    probe_exit cfg vmx t = Inr u \<and> armed (calls u) = {}"
proof -
  obtain r t where t: "register_from cfg vmx reg 0 s = Inr (r, t)" "same_stats s t"
    "if \<forall>i\<in>present cfg vmx. 0 \<le> reg i then r = None \<and> armed (calls t) = present cfg vmx
     else r = Some (-1) \<and> armed (calls t) = {}"
    using register_from_result [of s cfg vmx 0 reg] assms by auto
  let ?t = "if r = None then t\<lparr>stat := init_reasons (stat t), showing_lock := False,
     total_exit := 0, ktime := now\<rparr> else t"
  obtain u where "unregister_all_probes cfg vmx ?t = Inr u"
    "armed (calls u) = armed (calls ?t) - present cfg vmx"
    by (rule unregister_all)
  moreover from this t(3) have "armed (calls u) = {}" by (auto split: if_splits)
  ultimately show ?thesis
    using t by (auto simp: probe_init_def probe_exit_def same_stats_def split: if_splits)
qed

theorem exit_load_unload_witness:
  "\<exists>t. probe_init \<lparr>ge_4_14_0 = True, ge_4_19_0 = True\<rparr> sdm_exit_reason
         (\<lambda>i. if i = 48 then -22 else 0) 7 kexit_static = Inr (-1, t) \<and> armed (calls t) = {}"
proof -
  let ?cfg = "\<lparr>ge_4_14_0 = True, ge_4_19_0 = True\<rparr>"
  have "(EXIT_REASON_EPT_VIOLATION, ''handle_ept_violation'') \<in> set (probe_decls ?cfg)"
    by (simp add: probe_decls_def)
  from probe_table_present [OF _ this, of sdm_exit_reason]
  have "48 \<in> present ?cfg sdm_exit_reason"
    by (auto simp: REASON_NUM_def present_def)
  then have "\<not> (\<forall>i\<in>present ?cfg sdm_exit_reason. 0 \<le> (if i = 48 then -22 else 0 :: int))"
    by force
  moreover have "armed (calls kexit_static) = {}"
    by (simp add: kexit_static_def)
  ultimately show ?thesis
    using exit_load_unload [of kexit_static ?cfg sdm_exit_reason "\<lambda>i. if i = 48 then -22 else 0" 7]
    by (simp only: if_False) blast
qed

end
