(* ===== verification/Spin_Section.thy ===== *)
theory Spin_Section
  imports Kvm_Prelude
begin

text \<open>
  Code under a spin lock, executed by several CPUs: the contract of such code as a locale. A system has a list
  of program counters, one per CPU; some program counters are inside the section. Whatever the code does, if a
  step moves one CPU, enters the section only when the lock is free, takes it then, and frees it on leaving,
  at most one CPU is inside, and the lock is held exactly while one is.
\<close>

definition occupants :: "('p \<Rightarrow> bool) \<Rightarrow> 'p list \<Rightarrow> nat" where
  "occupants P qs = length (filter P qs)"

lemma occupants_update:
  assumes "c < length qs"
  shows "occupants P (qs[c := q]) = occupants P qs + (if P q then 1 else 0) - (if P (qs ! c) then 1 else 0)"
    and "P (qs ! c) \<Longrightarrow> 0 < occupants P qs"
  using length_filter_at [OF assms, of P] by (simp_all add: occupants_def)

lemma occupants_none: "occupants P qs = 0 \<longleftrightarrow> (\<forall>c < length qs. \<not> P (qs ! c))"
  by (auto simp: occupants_def filter_empty_conv all_set_conv_all_nth)

lemma occupants_mono: "(\<And>q. P q \<Longrightarrow> Q q) \<Longrightarrow> occupants P qs \<le> occupants Q qs"
  by (induction qs) (auto simp: occupants_def)

lemma occupants_replicate: "\<not> P q \<Longrightarrow> occupants P (replicate n q) = 0"
  by (simp add: occupants_def)

lemma occupants_one:
  assumes "occupants P qs \<le> 1" and "c < length qs" and "d < length qs" and "P (qs ! c)" and "P (qs ! d)"
  shows "c = d"
proof (rule ccontr)
  assume "c \<noteq> d"
  have xs: "qs = take c qs @ qs ! c # drop (Suc c) qs" by (rule id_take_nth_drop [OF assms(2)])
  have "length (filter P qs) = length (filter P (take c qs)) + 1 + length (filter P (drop (Suc c) qs))"
    using assms(4) by (subst xs) simp
  moreover have "0 < length (filter P (take c qs)) + length (filter P (drop (Suc c) qs))"
  proof (cases "d < c")
    case True
    then have "qs ! d \<in> set (take c qs)" using assms(2) by (auto simp: in_set_conv_nth)
    with assms(5) show ?thesis by (auto simp: filter_empty_conv)
  next
    case False
    then have "qs ! d \<in> set (drop (Suc c) qs)"
      using assms(3) \<open>c \<noteq> d\<close> by (auto simp: in_set_conv_nth intro!: exI [of _ "d - Suc c"])
    with assms(5) show ?thesis by (auto simp: filter_empty_conv)
  qed
  ultimately show False using assms(1) by (simp add: occupants_def)
qed

locale spin_section =
  fixes step :: "'s \<Rightarrow> 's \<Rightarrow> bool"
    and pcs :: "'s \<Rightarrow> 'p list"
    and held :: "'s \<Rightarrow> bool"
    and inside :: "'p \<Rightarrow> bool"
  assumes section_step: "step b b' \<Longrightarrow> \<exists>c q. c < length (pcs b) \<and> pcs b' = (pcs b)[c := q] \<and>
    (if inside (pcs b ! c) then held b' = (held b \<and> inside q)
     else if inside q then \<not> held b \<and> held b'
     else held b' = held b)"
begin

lemma length_pcs: "step\<^sup>*\<^sup>* b b' \<Longrightarrow> length (pcs b') = length (pcs b)"
  by (induction rule: rtranclp_induct) (auto dest: section_step)

lemma exclusive_step:
  assumes "step b b'" and "occupants inside (pcs b) = (if held b then 1 else 0)"
  shows "occupants inside (pcs b') = (if held b' then 1 else 0)"
proof -
  obtain c q where c: "c < length (pcs b)" "pcs b' = (pcs b)[c := q]"
    and h: "if inside (pcs b ! c) then held b' = (held b \<and> inside q)
      else if inside q then \<not> held b \<and> held b' else held b' = held b"
    using section_step [OF assms(1)] by blast
  have "inside (pcs b ! c) \<Longrightarrow> 0 < occupants inside (pcs b)" by (rule occupants_update(2) [OF c(1)])
  with assms(2) h show ?thesis
    by (auto simp: c(2) occupants_update(1) [OF c(1)] split: if_splits)
qed

lemma exclusive:
  "step\<^sup>*\<^sup>* b b' \<Longrightarrow> occupants inside (pcs b) = (if held b then 1 else 0) \<Longrightarrow>
     occupants inside (pcs b') = (if held b' then 1 else 0)"
  by (induction rule: rtranclp_induct) (simp_all add: exclusive_step)

text \<open>Whoever is inside holds the lock, and is alone.\<close>

lemma alone:
  assumes "step\<^sup>*\<^sup>* b b'" and "occupants inside (pcs b) = (if held b then 1 else 0)"
    and "c < length (pcs b')" and "inside (pcs b' ! c)"
  shows "held b'" and "d < length (pcs b') \<Longrightarrow> inside (pcs b' ! d) \<Longrightarrow> d = c"
proof -
  have e: "occupants inside (pcs b') = (if held b' then 1 else 0)" by (rule exclusive [OF assms(1,2)])
  have "0 < occupants inside (pcs b')" using assms(3,4) by (rule occupants_update(2))
  with e show "held b'" by (simp split: if_splits)
  show "d = c" if "d < length (pcs b')" "inside (pcs b' ! d)"
    using occupants_one [of inside "pcs b'" d c] e assms(3,4) that by (simp split: if_splits)
qed

end

end
