(* ===== verification/Exit_Race.thy ===== *)
theory Exit_Race
  imports Kvm_Exit_Probe Spin_Section
begin

text \<open>
  \<open>debug/kvmexitreason\<close> on several CPUs: the handler of \<open>Kvm_Exit_Probe\<close> in single steps, interleaved by a
  step relation. What one handler does without interference is the handler as one operation; the lock keeps
  reports apart; the atomic total is never counted twice; and the plain counters can lose an exit or keep one
  that has been printed, since \<open>record_reason\<close> and \<open>reset_reason\<close> take no lock.
\<close>

section \<open>The handler in steps\<close>

datatype hpc =
    Away                  \<comment> \<open>no VM exit being handled\<close>
  | Recording nat         \<comment> \<open>\<open>record_reason\<close> entered with a reason\<close>
  | Storing nat u64       \<comment> \<open>the counter has been read, the sum not written yet\<close>
  | Counting              \<comment> \<open>before \<open>atomic_long_inc\<close>\<close>
  | Checking              \<comment> \<open>\<open>show_exitreason\<close> entered\<close>
  | Trying u64            \<comment> \<open>a second has passed: before \<open>spin_trylock\<close>; the argument is \<open>now\<close>\<close>
  | Titling u64           \<comment> \<open>the lock is held, nothing printed\<close>
  | Printing u64 nat      \<comment> \<open>in the loop, at an index\<close>
  | Zeroing u64           \<comment> \<open>before \<open>atomic_long_set\<close>\<close>
  | Resetting u64         \<comment> \<open>before \<open>reset_reason\<close>\<close>
  | Stamping u64          \<comment> \<open>before the assignment of \<open>__ktime\<close>\<close>
  | Unlocking

record hsys =
  shared :: kexit
  cpus :: "hpc list"
  exits :: nat            \<comment> \<open>how many exits have been counted, for the specification only\<close>

text \<open>
  The next step of CPU \<open>c\<close>. \<open>r\<close> is the reason of the exit that a CPU without one takes, and \<open>now\<close> what
  \<open>ktime_get\<close> returned. The increment of a counter is a read and a write; the atomic operations, the lock,
  the \<open>memset\<close> and each turn of the printing loop are one step. \<open>None\<close>: no such CPU, or a fault.
\<close>

definition cpu_step :: "nat \<Rightarrow> nat \<Rightarrow> u64 \<Rightarrow> hsys \<Rightarrow> hsys option" where
  "cpu_step c r now b =
     (let k = shared b;
          goes = (\<lambda>q k'. Some (b\<lparr>shared := k', cpus := (cpus b)[c := q]\<rparr>))
      in if length (cpus b) \<le> c then None
         else case cpus b ! c of
           Away \<Rightarrow> goes (Recording r) k
         | Recording r' \<Rightarrow>
             if REASON_NUM \<le> int r' then goes Counting k
             else goes (Storing r' (reasons_num (stat k) ! r')) k
         | Storing r' v \<Rightarrow>
             goes Counting (k\<lparr>stat := (stat k)\<lparr>reasons_num := (reasons_num (stat k))[r' := v + 1]\<rparr>\<rparr>)
         | Counting \<Rightarrow>
             Some (b\<lparr>shared := k\<lparr>total_exit := total_exit k + 1\<rparr>, cpus := (cpus b)[c := Checking],
               exits := exits b + 1\<rparr>)
         | Checking \<Rightarrow>
             if sint (now - ktime k) < 1000 * 1000 * 1000 then goes Away k else goes (Trying now) k
         | Trying t \<Rightarrow>
             if showing_lock k then goes Away k else goes (Titling t) (k\<lparr>showing_lock := True\<rparr>)
         | Titling t \<Rightarrow>
             goes (Printing t 0) (k\<lparr>klog := klog k @ [(''VM EXIT REASON STATISTIC'', []),
                                     (total_fmt, [ALong (total_exit k)])]\<rparr>)
         | Printing t idx \<Rightarrow>
             if int idx < REASON_NUM then
               (case show_reason_line (int idx) k of
                  Inr k' \<Rightarrow> goes (Printing t (Suc idx)) k' | Inl e \<Rightarrow> None)
             else goes (Zeroing t) k
         | Zeroing t \<Rightarrow> goes (Resetting t) (k\<lparr>total_exit := 0\<rparr>)
         | Resetting t \<Rightarrow> goes (Stamping t) (k\<lparr>stat := reset_reason (stat k)\<rparr>)
         | Stamping t \<Rightarrow> goes Unlocking (k\<lparr>ktime := t\<rparr>)
         | Unlocking \<Rightarrow> goes Away (k\<lparr>showing_lock := False\<rparr>))"

inductive hstep :: "hsys \<Rightarrow> hsys \<Rightarrow> bool" where
  cpu: "cpu_step c r now b = Some b' \<Longrightarrow> hstep b b'"

abbreviation runs_to :: "hsys \<Rightarrow> hsys \<Rightarrow> bool" where
  "runs_to \<equiv> hstep\<^sup>*\<^sup>*"

section \<open>A handler without interference\<close>

text \<open>System \<open>b\<close> with CPU \<open>c\<close> at \<open>q\<close>, shared state \<open>k\<close> and \<open>e\<close> exits counted.\<close>

definition at :: "hsys \<Rightarrow> nat \<Rightarrow> kexit \<Rightarrow> hpc \<Rightarrow> nat \<Rightarrow> hsys" where
  "at b c k q e = b\<lparr>shared := k, cpus := (cpus b)[c := q], exits := e\<rparr>"

lemma at_step:
  assumes "cpu_step c r now (at b c k q e) = Some (at b c k' q' e')" and "runs_to (at b c k' q' e') b'"
  shows "runs_to (at b c k q e) b'"
  using hstep.cpu [OF assms(1)] assms(2) by (rule converse_rtranclp_into_rtranclp)

lemma at_fields [simp]:
  "shared (at b c k q e) = k" "exits (at b c k q e) = e" "cpus (at b c k q e) = (cpus b)[c := q]"
  "(at b c k q e)\<lparr>shared := k', cpus := (cpus b)[c := q']\<rparr> = at b c k' q' e"
  "(at b c k q e)\<lparr>shared := k', cpus := (cpus b)[c := q'], exits := e'\<rparr> = at b c k' q' e'"
  by (simp_all add: at_def)

lemma print_loop:
  assumes "c < length (cpus b)"
  shows "for_range n show_reason_line k = Inr k' \<Longrightarrow> int n \<le> REASON_NUM \<Longrightarrow>
    runs_to (at b c k (Printing t 0) e) (at b c k' (Printing t n) e)"
proof (induction n arbitrary: k')
  case 0
  then show ?case by simp
next
  case (Suc n)
  then obtain k1 where k1: "for_range n show_reason_line k = Inr k1" "show_reason_line (int n) k1 = Inr k'"
    by (auto simp: for_range_Suc bindR_Inr_iff)
  have "cpu_step c 0 0 (at b c k1 (Printing t n) e) = Some (at b c k' (Printing t (Suc n)) e)"
    using Suc.prems(2) assms k1(2) by (simp add: cpu_step_def Let_def)
  then have "hstep (at b c k1 (Printing t n) e) (at b c k' (Printing t (Suc n)) e)" by (rule hstep.cpu)
  with Suc.IH [OF k1(1)] Suc.prems(2) show ?case by (simp add: rtranclp.rtrancl_into_rtrancl)
qed

lemma solo_show:
  assumes c: "c < length (cpus b)" and sh: "show_exitreason now k = Inr k'"
  shows "runs_to (at b c k Checking e) (at b c k' Away e)"
proof -
  consider (early) "sint (now - ktime k) < 1000 * 1000 * 1000"
    | (busy) "\<not> sint (now - ktime k) < 1000 * 1000 * 1000" "showing_lock k"
    | (due) "\<not> sint (now - ktime k) < 1000 * 1000 * 1000" "\<not> showing_lock k" by blast
  then show ?thesis
  proof cases
    case early
    have "k' = k" using sh early by (simp add: show_exitreason_def)
    have "cpu_step c 0 now (at b c k Checking e) = Some (at b c k Away e)"
      using early c by (simp add: cpu_step_def Let_def)
    then show ?thesis using \<open>k' = k\<close> by (auto intro: at_step)
  next
    case busy
    have "k' = k" using sh busy by (simp add: show_exitreason_def)
    have "cpu_step c 0 now (at b c k Checking e) = Some (at b c k (Trying now) e)"
      "cpu_step c 0 now (at b c k (Trying now) e) = Some (at b c k Away e)"
      using busy c by (simp_all add: cpu_step_def Let_def)
    then show ?thesis using \<open>k' = k\<close> by (auto intro: at_step)
  next
    case due
    define k1 where "k1 = k\<lparr>showing_lock := True\<rparr>"
    define k2 where "k2 = k1\<lparr>klog := klog k @ [(''VM EXIT REASON STATISTIC'', []), (total_fmt, [ALong (total_exit k)])]\<rparr>"
    obtain k3 where k3: "for_range (nat REASON_NUM) show_reason_line k2 = Inr k3"
      and k': "k' = k3\<lparr>total_exit := 0, stat := reset_reason (stat k3), ktime := now, showing_lock := False\<rparr>"
      using sh due by (auto simp: show_exitreason_def bindR_Inr_iff Let_def k1_def k2_def)
    have "cpu_step c 0 now (at b c k Checking e) = Some (at b c k (Trying now) e)"
      "cpu_step c 0 now (at b c k (Trying now) e) = Some (at b c k1 (Titling now) e)"
      "cpu_step c 0 now (at b c k1 (Titling now) e) = Some (at b c k2 (Printing now 0) e)"
      using due c by (simp_all add: cpu_step_def Let_def k1_def k2_def)
    moreover have "runs_to (at b c k2 (Printing now 0) e) (at b c k3 (Printing now (nat REASON_NUM)) e)"
      by (rule print_loop [OF c k3]) (simp add: REASON_NUM_def)
    moreover have
      "cpu_step c 0 now (at b c k3 (Printing now (nat REASON_NUM)) e) = Some (at b c k3 (Zeroing now) e)"
      "cpu_step c 0 now (at b c k3 (Zeroing now) e) = Some (at b c (k3\<lparr>total_exit := 0\<rparr>) (Resetting now) e)"
      "cpu_step c 0 now (at b c (k3\<lparr>total_exit := 0\<rparr>) (Resetting now) e) =
        Some (at b c (k3\<lparr>total_exit := 0, stat := reset_reason (stat k3)\<rparr>) (Stamping now) e)"
      "cpu_step c 0 now (at b c (k3\<lparr>total_exit := 0, stat := reset_reason (stat k3)\<rparr>) (Stamping now) e) =
        Some (at b c (k3\<lparr>total_exit := 0, stat := reset_reason (stat k3), ktime := now\<rparr>) Unlocking e)"
      "cpu_step c 0 now (at b c (k3\<lparr>total_exit := 0, stat := reset_reason (stat k3), ktime := now\<rparr>) Unlocking e) =
        Some (at b c k' Away e)"
      using c k' by (simp_all add: cpu_step_def Let_def REASON_NUM_def)
    ultimately show ?thesis
      by (meson at_step rtranclp.rtrancl_refl rtranclp_trans)
  qed
qed

lemma solo_handler:
  assumes c: "c < length (cpus b)" and pf: "probe_func vmx R now k = Inr k'"
  shows "runs_to (at b c k Away e) (at b c k' Away (Suc e))"
proof -
  let ?r = "vmx R"
  obtain st where st: "record_reason (int ?r) (stat k) = Inr st"
    and sh: "show_exitreason now (k\<lparr>stat := st, total_exit := total_exit k + 1\<rparr>) = Inr k'"
    using pf by (auto simp: probe_func_def bindR_Inr_iff)
  have start: "cpu_step c ?r 0 (at b c k Away e) = Some (at b c k (Recording ?r) e)"
    using c by (simp add: cpu_step_def Let_def)
  have rec: "runs_to (at b c k (Recording ?r) e) (at b c (k\<lparr>stat := st\<rparr>) Counting e)"
  proof (cases "REASON_NUM \<le> int ?r")
    case True
    then have "st = stat k" using st by (simp add: record_reason_def)
    then have "cpu_step c 0 0 (at b c k (Recording ?r) e) = Some (at b c (k\<lparr>stat := st\<rparr>) Counting e)"
      using c True by (simp add: cpu_step_def Let_def)
    then show ?thesis by (auto intro: at_step)
  next
    case False
    let ?v = "reasons_num (stat k) ! ?r"
    have "st = (stat k)\<lparr>reasons_num := (reasons_num (stat k))[?r := ?v + 1]\<rparr>"
      using st False by (auto simp: record_reason_def bindR_Inr_iff arr_get_def arr_set_def split: if_splits)
    then have "cpu_step c 0 0 (at b c k (Recording ?r) e) = Some (at b c k (Storing ?r ?v) e)"
      "cpu_step c 0 0 (at b c k (Storing ?r ?v) e) = Some (at b c (k\<lparr>stat := st\<rparr>) Counting e)"
      using c False by (simp_all add: cpu_step_def Let_def)
    then show ?thesis by (auto intro: at_step)
  qed
  have "cpu_step c 0 0 (at b c (k\<lparr>stat := st\<rparr>) Counting e) =
      Some (at b c (k\<lparr>stat := st, total_exit := total_exit k + 1\<rparr>) Checking (Suc e))"
    using c by (simp add: cpu_step_def Let_def)
  from at_step [OF this solo_show [OF c sh]] rec
  have "runs_to (at b c k (Recording ?r) e) (at b c k' Away (Suc e))" by (rule rtranclp_trans [rotated])
  with start show ?thesis by (rule at_step)
qed

text \<open>
  C5: the handler as one operation is a correct abstraction of its steps on runs without interference: whatever
  state a sequence of whole handlers leads to, the same handlers run step by step, each on a CPU of its own or
  all on one, lead to the same state, with every CPU done and every exit counted.
\<close>

theorem handlers_refine:
  assumes "foldR (\<lambda>(c, e). exit_event vmx e) ces k = Inr k'" and "\<forall>ce \<in> set ces. fst ce < n"
  shows "runs_to \<lparr>shared = k, cpus = replicate n Away, exits = m\<rparr>
    \<lparr>shared = k', cpus = replicate n Away, exits = m + length ces\<rparr>"
  using assms
proof (induction ces arbitrary: k m)
  case Nil
  then show ?case by simp
next
  case (Cons ce ces)
  obtain c e where ce: "ce = (c, e)" by (cases ce)
  obtain k1 where k1: "probe_func vmx (fst e) (snd e) k = Inr k1"
    and rest: "foldR (\<lambda>(c, e). exit_event vmx e) ces k1 = Inr k'"
    using Cons.prems(1) by (simp add: ce bindR_Inr_iff) (auto simp: exit_event_def)
  let ?b = "\<lparr>shared = k, cpus = replicate n Away, exits = m\<rparr>"
  have c: "c < length (cpus ?b)" using Cons.prems(2) by (simp add: ce)
  then have "(replicate n Away)[c := Away] = replicate n Away"
    by (metis list_update_id nth_replicate hsys.select_convs(2) length_replicate)
  with solo_handler [OF c k1, of m] Cons.IH [OF rest, of "Suc m"] Cons.prems(2)
  show ?case by (simp add: at_def)
qed

section \<open>One report at a time\<close>

definition in_report :: "hpc \<Rightarrow> bool" where
  "in_report q \<longleftrightarrow> (case q of Titling t \<Rightarrow> True | Printing t i \<Rightarrow> True | Zeroing t \<Rightarrow> True
     | Resetting t \<Rightarrow> True | Stamping t \<Rightarrow> True | Unlocking \<Rightarrow> True | _ \<Rightarrow> False)"

definition window :: "hpc \<Rightarrow> bool" where   \<comment> \<open>the total has been printed and not cleared\<close>
  "window q \<longleftrightarrow> (case q of Printing t i \<Rightarrow> True | Zeroing t \<Rightarrow> True | _ \<Rightarrow> False)"

lemma show_reason_line_frame:
  assumes "show_reason_line i k = Inr k'"
  shows "showing_lock k' = showing_lock k \<and> total_exit k' = total_exit k \<and> ktime k' = ktime k \<and>
    printed TotalExits (klog k') = printed TotalExits (klog k)"
  using assms
  by (auto simp: show_reason_line_def bindR_Inr_iff printed_append split: if_splits) (simp add: printed_def)

interpretation report: spin_section hstep cpus "\<lambda>b. showing_lock (shared b)" in_report
proof
  fix b b' assume "hstep b b'"
  then obtain c r now where s: "cpu_step c r now b = Some b'" by (auto elim: hstep.cases)
  then have c: "c < length (cpus b)" by (simp add: cpu_step_def Let_def split: if_splits)
  obtain q where q: "cpus b' = (cpus b)[c := q]"
    using s by (cases "cpus b ! c") (auto simp: cpu_step_def Let_def split: if_splits sum.splits)
  with c have "cpus b' ! c = q" by simp
  with s c have "if in_report (cpus b ! c) then showing_lock (shared b') = (showing_lock (shared b) \<and> in_report q)
      else if in_report q then \<not> showing_lock (shared b) \<and> showing_lock (shared b')
      else showing_lock (shared b') = showing_lock (shared b)"
    by (cases "cpus b ! c")
       (auto simp: cpu_step_def Let_def in_report_def dest: show_reason_line_frame split: if_splits sum.splits)
  with c q show "\<exists>c q. c < length (cpus b) \<and> cpus b' = (cpus b)[c := q] \<and>
      (if in_report (cpus b ! c) then showing_lock (shared b') = (showing_lock (shared b) \<and> in_report q)
       else if in_report q then \<not> showing_lock (shared b) \<and> showing_lock (shared b')
       else showing_lock (shared b') = showing_lock (shared b))" by blast
qed

definition report_inv :: "hsys \<Rightarrow> bool" where
  "report_inv b \<longleftrightarrow> occupants in_report (cpus b) = (if showing_lock (shared b) then 1 else 0)"

lemma report_inv_runs: "runs_to b b' \<Longrightarrow> report_inv b \<Longrightarrow> report_inv b'"
  unfolding report_inv_def by (rule report.exclusive)

text \<open>
  C6: the reports do not overlap. From a state in which no handler is at work and the lock is free, however the
  handlers of the CPUs interleave, the lock is held exactly while some CPU is inside the report, and no two
  CPUs are inside it.
\<close>

theorem report_exclusive:
  assumes "runs_to b b'" and "\<not> showing_lock (shared b)" and "cpus b = replicate n Away"
  shows "(showing_lock (shared b') \<longleftrightarrow> (\<exists>c < n. in_report (cpus b' ! c))) \<and>
    (\<forall>c < n. \<forall>d < n. in_report (cpus b' ! c) \<and> in_report (cpus b' ! d) \<longrightarrow> c = d)"
proof -
  have inv: "occupants in_report (cpus b') = (if showing_lock (shared b') then 1 else 0)"
    using assms(2,3) by (intro report.exclusive [OF assms(1)]) (simp add: occupants_replicate in_report_def)
  have len: "length (cpus b') = n" using report.length_pcs [OF assms(1)] assms(3) by simp
  have "showing_lock (shared b') \<longleftrightarrow> (\<exists>c < n. in_report (cpus b' ! c))"
    using inv occupants_none [of in_report "cpus b'"] by (auto simp: len split: if_splits)
  moreover have "c = d" if "c < n" "d < n" "in_report (cpus b' ! c)" "in_report (cpus b' ! d)" for c d
    by (rule occupants_one [of in_report "cpus b'"]) (use inv that len in simp_all)
  ultimately show ?thesis by blast
qed

section \<open>No fault and no waiting\<close>

text \<open>What is known of a CPU: the index it stores at is in range, the loop of the report is not past its end.\<close>

definition hpc_wf :: "hpc \<Rightarrow> bool" where
  "hpc_wf q \<longleftrightarrow> (case q of Storing r v \<Rightarrow> int r < REASON_NUM | Printing t i \<Rightarrow> int i \<le> REASON_NUM | _ \<Rightarrow> True)"

definition hsys_wf :: "hsys \<Rightarrow> bool" where
  "hsys_wf b \<longleftrightarrow> stat_wf (stat (shared b)) \<and> (\<forall>q \<in> set (cpus b). hpc_wf q)"

text \<open>How many steps a handler still makes, at most.\<close>

definition hrank :: "hpc \<Rightarrow> nat" where
  "hrank q = (case q of Away \<Rightarrow> 0 | Unlocking \<Rightarrow> 1 | Stamping t \<Rightarrow> 2 | Resetting t \<Rightarrow> 3 | Zeroing t \<Rightarrow> 4
     | Printing t i \<Rightarrow> 5 + (nat REASON_NUM - i) | Titling t \<Rightarrow> 6 + nat REASON_NUM | Trying t \<Rightarrow> 7 + nat REASON_NUM
     | Checking \<Rightarrow> 8 + nat REASON_NUM | Counting \<Rightarrow> 9 + nat REASON_NUM | Storing r v \<Rightarrow> 10 + nat REASON_NUM
     | Recording r \<Rightarrow> 11 + nat REASON_NUM)"

lemma show_reason_line_wf: "stat_wf (stat k) \<Longrightarrow> int i < REASON_NUM \<Longrightarrow>
    \<exists>k'. show_reason_line (int i) k = Inr k' \<and> stat_wf (stat k')"
  by (simp add: show_reason_line_step stat_wf_init_reasons)

lemma cpu_step_wf:
  assumes "c < length (cpus b)" and "hpc_wf (cpus b ! c)" and "stat_wf (stat (shared b))"
  shows "\<exists>b'. cpu_step c r now b = Some b' \<and> cpus b' = (cpus b)[c := cpus b' ! c] \<and> hpc_wf (cpus b' ! c) \<and>
    stat_wf (stat (shared b')) \<and> (cpus b ! c \<noteq> Away \<longrightarrow> hrank (cpus b' ! c) < hrank (cpus b ! c))"
proof (cases "\<exists>t i. cpus b ! c = Printing t i \<and> int i < REASON_NUM")
  case True
  then obtain t i where q: "cpus b ! c = Printing t i" "int i < REASON_NUM" by blast
  then obtain k' where "show_reason_line (int i) (shared b) = Inr k'" "stat_wf (stat k')"
    using show_reason_line_wf [OF assms(3)] by blast
  with q assms(1) show ?thesis by (auto simp: cpu_step_def Let_def hpc_wf_def hrank_def)
next
  case False
  have "stat_wf ((stat (shared b))\<lparr>reasons_num := (reasons_num (stat (shared b)))[i := v]\<rparr>)" for i v
    using assms(3) by (simp add: stat_wf_def)
  with False assms show ?thesis
    by (cases "cpus b ! c") (simp_all add: cpu_step_def Let_def hpc_wf_def hrank_def stat_wf_reset REASON_NUM_def)
qed

lemma hsys_wf_step: "hstep b b' \<Longrightarrow> hsys_wf b \<Longrightarrow> hsys_wf b'"
proof (induction rule: hstep.induct)
  case (cpu c r now b b')
  then have c: "c < length (cpus b)" by (simp add: cpu_step_def Let_def split: if_splits)
  with cpu obtain q where "cpus b' = (cpus b)[c := q]" "hpc_wf q" "stat_wf (stat (shared b'))"
    using cpu_step_wf [OF c, of r now] by (auto simp: hsys_wf_def)
  with cpu.prems show ?case by (auto simp: hsys_wf_def dest!: set_update_subset_insert [THEN subsetD])
qed

lemma hsys_wf_runs: "runs_to b b' \<Longrightarrow> hsys_wf b \<Longrightarrow> hsys_wf b'"
  by (induction rule: rtranclp_induct) (simp_all add: hsys_wf_step)

text \<open>
  C17: no handler faults and none waits. From a well-formed state with no handler at work, in every interleaving
  with any exit reasons, the counters keep their shape, a CPU about to store a counter has an index within the
  array, and every CPU has a next step whatever the others do; a step within a handler brings it closer to its
  end, so that a handler returns after at most 77 steps of its own.
\<close>

theorem handlers_never_fault:
  assumes "runs_to b b'" and "cpus b = replicate n Away" and "stat_wf (stat (shared b))" and "c < n"
  shows "stat_wf (stat (shared b')) \<and>
    (\<forall>r v. cpus b' ! c = Storing r v \<longrightarrow> r < length (reasons_num (stat (shared b')))) \<and>
    (\<exists>b''. cpu_step c r now b' = Some b'' \<and>
      (cpus b' ! c \<noteq> Away \<longrightarrow> hrank (cpus b'' ! c) < hrank (cpus b' ! c) \<and> hrank (cpus b' ! c) \<le> 77))"
proof -
  have "hsys_wf b" using assms(2,3) by (simp add: hsys_wf_def hpc_wf_def)
  then have wf: "hsys_wf b'" by (rule hsys_wf_runs [OF assms(1)])
  have c: "c < length (cpus b')" using report.length_pcs [OF assms(1)] assms(2,4) by simp
  then have q: "hpc_wf (cpus b' ! c)" using wf by (simp add: hsys_wf_def)
  have "hrank (cpus b' ! c) \<le> 77" by (cases "cpus b' ! c") (simp_all add: hrank_def REASON_NUM_def)
  moreover have st: "stat_wf (stat (shared b'))" using wf by (simp add: hsys_wf_def)
  moreover have "r' < length (reasons_num (stat (shared b')))" if "cpus b' ! c = Storing r' v" for r' v
    using q st that by (simp add: hpc_wf_def stat_wf_def REASON_NUM_def)
  ultimately show ?thesis using cpu_step_wf [OF c q st, of r now] by blast
qed

section \<open>The total\<close>

abbreviation windows :: "hpc list \<Rightarrow> nat" where
  "windows \<equiv> occupants window"

lemma no_window:
  assumes "c < length qs" and "in_report (qs ! c)" and "\<not> window (qs ! c)" and "occupants in_report qs \<le> 1"
  shows "windows qs = 0"
proof -
  have "windows (qs[c := Away]) \<le> occupants in_report (qs[c := Away])"
    by (rule occupants_mono) (auto simp: window_def in_report_def split: hpc.splits)
  then show ?thesis
    using occupants_update(1) [OF assms(1), of in_report Away] occupants_update(1) [OF assms(1), of window Away] assms(2-4)
    by (simp add: in_report_def window_def)
qed

text \<open>
  \<open>P\<close> exits have been printed in totals, \<open>T\<close> are in the counter, and \<open>t\<close> of these are among the printed ones
  because the report that printed them has not cleared the counter yet.
\<close>

definition total_inv :: "hsys \<Rightarrow> bool" where
  "total_inv b \<longleftrightarrow> (\<exists>P T t. printed TotalExits (klog (shared b)) = of_nat P \<and> total_exit (shared b) = of_nat T \<and>
     t \<le> T \<and> (windows (cpus b) = 0 \<longrightarrow> t = 0) \<and> P + T \<le> exits b + t)"

lemma total_inv_keep:
  assumes "total_inv b" and "printed TotalExits (klog (shared b')) = printed TotalExits (klog (shared b))"
    and "total_exit (shared b') = total_exit (shared b)" and "exits b' = exits b"
    and "windows (cpus b') = windows (cpus b)"
  shows "total_inv b'"
  using assms by (simp add: total_inv_def)

lemma total_inv_step:
  assumes "cpu_step c r now b = Some b'" and "total_inv b" and "report_inv b"
  shows "total_inv b'"
proof -
  have c: "c < length (cpus b)" using assms(1) by (simp add: cpu_step_def Let_def split: if_splits)
  have w: "window (cpus b ! c) \<Longrightarrow> 0 < windows (cpus b)" by (rule occupants_update(2) [OF c])
  note defs = cpu_step_def Let_def occupants_update(1) [OF c] window_def
  obtain P T t where inv: "printed TotalExits (klog (shared b)) = of_nat P" "total_exit (shared b) = of_nat T"
    "t \<le> T" "windows (cpus b) = 0 \<longrightarrow> t = 0" "P + T \<le> exits b + t"
    using assms(2) by (auto simp: total_inv_def)
  consider (count) "cpus b ! c = Counting" | (titl) u where "cpus b ! c = Titling u"
    | (zero) u where "cpus b ! c = Zeroing u"
    | (other) "cpus b ! c \<noteq> Counting" "\<forall>u. cpus b ! c \<noteq> Titling u" "\<forall>u. cpus b ! c \<noteq> Zeroing u" by blast
  then show ?thesis
  proof cases
    case count
    have "total_exit (shared b') = of_nat (Suc T)" "exits b' = Suc (exits b)"
      "printed TotalExits (klog (shared b')) = of_nat P" "windows (cpus b') = windows (cpus b)"
      using assms(1) c count inv(1,2) by (auto simp: defs)
    moreover have "P + Suc T \<le> Suc (exits b) + t" "t \<le> Suc T" using inv(3,5) by simp_all
    ultimately show ?thesis unfolding total_inv_def using inv(4) by metis
  next
    case titl
    have "occupants in_report (cpus b) \<le> 1" using assms(3) by (simp add: report_inv_def)
    then have "t = 0" using no_window [OF c] titl inv(4) by (simp add: in_report_def window_def)
    have "total_exit (shared b') = of_nat T" "exits b' = exits b"
      "printed TotalExits (klog (shared b')) = of_nat (P + T)" "windows (cpus b') = Suc (windows (cpus b))"
      using assms(1) c titl inv(1,2) by (auto simp: defs printed_append) (simp add: printed_def)
    moreover have "P + T + T \<le> exits b + T" using inv(5) \<open>t = 0\<close> by simp
    ultimately show ?thesis unfolding total_inv_def by (metis nat.distinct(1) order_refl)
  next
    case zero
    have "total_exit (shared b') = of_nat 0" "exits b' = exits b" "printed TotalExits (klog (shared b')) = of_nat P"
      using assms(1) c zero inv(1) by (auto simp: defs)
    moreover have "P + 0 \<le> exits b + 0" using inv(3,5) by simp
    ultimately show ?thesis unfolding total_inv_def by (metis order_refl)
  next
    case other
    show ?thesis
    proof (rule total_inv_keep [OF assms(2)])
      show "windows (cpus b') = windows (cpus b)"
        using assms(1) c other w
        by (cases "cpus b ! c") (auto simp: defs split: if_splits sum.splits)
    qed (use assms(1) c other in \<open>cases "cpus b ! c"; auto simp: defs dest: show_reason_line_frame split: if_splits sum.splits\<close>)+
  qed
qed

lemma total_inv_runs: "runs_to b b' \<Longrightarrow> report_inv b \<Longrightarrow> total_inv b \<Longrightarrow> total_inv b'"
proof (induction rule: rtranclp_induct)
  case (step b1 b2)
  then show ?case using report_inv_runs [OF step.hyps(1)] by (auto elim!: hstep.cases intro: total_inv_step)
qed

text \<open>
  C7: the totals never count an exit twice. From a state with nothing counted, no handler at work and the lock
  free, however the handlers interleave, and as long as fewer than \<open>2 ^ 64\<close> exits have been counted, the totals
  printed so far add up to at most the number of exits counted; and while no CPU is between printing the total and
  clearing it, so does their sum with the counter. (Between the two the printed exits are in the counter as well.)
\<close>

theorem totals_bounded:
  assumes "runs_to b b'" and "cpus b = replicate n Away" and "\<not> showing_lock (shared b)"
    and "printed TotalExits (klog (shared b)) = 0" and "total_exit (shared b) = 0" and "exits b' < 2 ^ 64"
  shows "unat (printed TotalExits (klog (shared b'))) \<le> exits b' \<and>
    (windows (cpus b') = 0 \<longrightarrow>
      unat (printed TotalExits (klog (shared b'))) + unat (total_exit (shared b')) \<le> exits b')"
proof -
  have "report_inv b" using assms(2,3) by (simp add: report_inv_def occupants_replicate in_report_def)
  moreover have "total_inv b"
    unfolding total_inv_def using assms(4,5) by (intro exI [of _ 0]) simp
  ultimately have "total_inv b'" by (rule total_inv_runs [OF assms(1)])
  then obtain P T t where inv: "printed TotalExits (klog (shared b')) = of_nat P" "total_exit (shared b') = of_nat T"
    "t \<le> T" "windows (cpus b') = 0 \<longrightarrow> t = 0" "P + T \<le> exits b' + t"
    by (auto simp: total_inv_def)
  have "P \<le> exits b'" using inv(3,5) by simp
  moreover from this have "unat (of_nat P :: u64) = P" using assms(6) by (intro unat_of_nat_small) simp
  moreover have "unat (of_nat T :: u64) = T" if "windows (cpus b') = 0"
    using inv(4,5) that assms(6) by (intro unat_of_nat_small) simp
  ultimately show ?thesis using inv by auto
qed

section \<open>What the counters do not survive\<close>

lemma run_step:
  assumes "cpu_step c r now b = Some b1" and "runs_to b1 b'"
  shows "runs_to b b'"
  using hstep.cpu [OF assms(1)] assms(2) by (rule converse_rtranclp_into_rtranclp)

text \<open>From \<open>Storing\<close> a CPU writes its sum, counts the exit and, when no second has passed, is done.\<close>

lemma finish_store:
  assumes "c < length (cpus b)" and "cpus b ! c = Storing r v"
  shows "runs_to b (b\<lparr>shared := (shared b)\<lparr>stat := (stat (shared b))\<lparr>reasons_num := (reasons_num (stat (shared b)))[r := v + 1]\<rparr>,
      total_exit := total_exit (shared b) + 1\<rparr>, cpus := (cpus b)[c := Away], exits := exits b + 1\<rparr>)"
proof -
  define k where "k = (shared b)\<lparr>stat := (stat (shared b))\<lparr>reasons_num := (reasons_num (stat (shared b)))[r := v + 1]\<rparr>\<rparr>"
  have s1: "cpu_step c 0 0 b = Some (b\<lparr>shared := k, cpus := (cpus b)[c := Counting]\<rparr>)"
    using assms by (simp add: cpu_step_def Let_def k_def)
  have s2: "cpu_step c 0 0 (b\<lparr>shared := k, cpus := (cpus b)[c := Counting]\<rparr>) =
      Some (b\<lparr>shared := k\<lparr>total_exit := total_exit k + 1\<rparr>, cpus := (cpus b)[c := Checking], exits := exits b + 1\<rparr>)"
    using assms by (simp add: cpu_step_def Let_def)
  have s3: "cpu_step c 0 (ktime k)
      (b\<lparr>shared := k\<lparr>total_exit := total_exit k + 1\<rparr>, cpus := (cpus b)[c := Checking], exits := exits b + 1\<rparr>) =
      Some (b\<lparr>shared := k\<lparr>total_exit := total_exit k + 1\<rparr>, cpus := (cpus b)[c := Away], exits := exits b + 1\<rparr>)"
    using assms by (simp add: cpu_step_def Let_def)
  have k: "k\<lparr>total_exit := total_exit k + 1\<rparr> = (shared b)\<lparr>stat := (stat (shared b))\<lparr>reasons_num :=
      (reasons_num (stat (shared b)))[r := v + 1]\<rparr>, total_exit := total_exit (shared b) + 1\<rparr>"
    by (simp add: k_def)
  show ?thesis
    using run_step [OF s1 run_step [OF s2 run_step [OF s3 rtranclp.rtrancl_refl]]] unfolding k .
qed

lemma start_exit:
  assumes "c < length (cpus b)" and "cpus b ! c = Away" and "int r < REASON_NUM"
  shows "runs_to b (b\<lparr>cpus := (cpus b)[c := Storing r (reasons_num (stat (shared b)) ! r)]\<rparr>)"
proof -
  have s1: "cpu_step c r 0 b = Some (b\<lparr>cpus := (cpus b)[c := Recording r]\<rparr>)"
    using assms by (simp add: cpu_step_def Let_def)
  have s2: "cpu_step c r 0 (b\<lparr>cpus := (cpus b)[c := Recording r]\<rparr>) =
      Some (b\<lparr>cpus := (cpus b)[c := Storing r (reasons_num (stat (shared b)) ! r)]\<rparr>)"
    using assms by (simp add: cpu_step_def Let_def)
  show ?thesis by (rule run_step [OF s1 run_step [OF s2 rtranclp.rtrancl_refl]])
qed

text \<open>
  C8: an exit can be lost. From any state in which two CPUs are free, both can take an exit for the same reason
  so that its counter grows by one only, while the total grows by two: the counters of \<open>record_reason\<close> are
  incremented without a lock.
\<close>

theorem lost_update:
  assumes "c < length (cpus b)" and "d < length (cpus b)" and "c \<noteq> d" and "cpus b ! c = Away" and "cpus b ! d = Away"
    and "stat_wf (stat (shared b))" and "int r < REASON_NUM"
  shows "\<exists>b'. runs_to b b' \<and> cpus b' = cpus b \<and> exits b' = exits b + 2 \<and>
    total_exit (shared b') = total_exit (shared b) + 2 \<and>
    reasons_num (stat (shared b')) ! r = reasons_num (stat (shared b)) ! r + 1"
proof -
  let ?v = "reasons_num (stat (shared b)) ! r"
  define b1 where "b1 = b\<lparr>cpus := (cpus b)[c := Storing r ?v]\<rparr>"
  define b2 where "b2 = b1\<lparr>cpus := (cpus b1)[d := Storing r ?v]\<rparr>"
  have len: "r < length (reasons_num (stat (shared b)))" using assms(6,7) by (simp add: stat_wf_def)
  have r1: "runs_to b b1" unfolding b1_def by (rule start_exit [OF assms(1,4,7)])
  have r2: "runs_to b1 b2"
    using start_exit [of d b1 r] assms by (simp add: b1_def b2_def)
  obtain b3 where r3: "runs_to b2 b3" and b3: "b3 = b2\<lparr>shared := (shared b2)\<lparr>stat := (stat (shared b2))\<lparr>reasons_num :=
      (reasons_num (stat (shared b2)))[r := ?v + 1]\<rparr>, total_exit := total_exit (shared b2) + 1\<rparr>,
      cpus := (cpus b2)[c := Away], exits := exits b2 + 1\<rparr>"
    using finish_store [of c b2 r ?v] assms by (auto simp: b1_def b2_def)
  obtain b4 where r4: "runs_to b3 b4" and b4: "b4 = b3\<lparr>shared := (shared b3)\<lparr>stat := (stat (shared b3))\<lparr>reasons_num :=
      (reasons_num (stat (shared b3)))[r := ?v + 1]\<rparr>, total_exit := total_exit (shared b3) + 1\<rparr>,
      cpus := (cpus b3)[d := Away], exits := exits b3 + 1\<rparr>"
    using finish_store [of d b3 r ?v] assms by (auto simp: b1_def b2_def b3)
  have "cpus b4 = cpus b"
    using assms(1-5) by (simp add: b4 b3 b2_def b1_def list_update_swap [of c d]) (metis list_update_id)
  moreover have "runs_to b b4" using r1 r2 r3 r4 by simp
  ultimately show ?thesis
    using len by (intro exI [of _ b4]) (simp add: b4 b3 b2_def b1_def)
qed

text \<open>
  C9: an exit can be reported twice. Let CPU \<open>d\<close> have read a counter that is not zero, and CPU \<open>c\<close> make a
  report before \<open>d\<close> writes: the report prints the exits the counter held and clears it, and then \<open>d\<close> writes
  them back, so they are in the counter again, to be printed by the next report.
\<close>

theorem reported_twice:
  assumes "c < length (cpus b)" and "d < length (cpus b)" and "c \<noteq> d" and "cpus b ! c = Checking"
    and "cpus b ! d = Storing r v" and "v = reasons_num (stat (shared b)) ! r" and "v \<noteq> 0"
    and "stat_wf (stat (shared b))" and "int r < REASON_NUM" and "\<not> showing_lock (shared b)"
  shows "\<exists>b'. runs_to b b' \<and> cpus b' = (cpus b)[c := Away, d := Away] \<and> exits b' = exits b + 1 \<and>
    (reason_fmt, [AStr (reason_name r), ALong v]) \<in> set (klog (shared b')) \<and>
    reasons_num (stat (shared b')) ! r = v + 1"
proof -
  let ?k = "shared b"
  define now where "now = ktime ?k + 1000000000"
  have due: "1000000000 \<le> sint (now - ktime ?k)" by (simp add: now_def)
  define k' where "k' = ?k\<lparr>klog := klog ?k @ (''VM EXIT REASON STATISTIC'', []) #
      (total_fmt, [ALong (total_exit ?k)]) # report_lines (nat REASON_NUM) (stat ?k),
      total_exit := 0, stat := reset_reason (named_stat (nat REASON_NUM) (stat ?k)), ktime := now\<rparr>"
  have "show_exitreason now ?k = Inr k'"
    unfolding k'_def by (rule show_exitreason_flush [OF assms(8) due assms(10)])
  from solo_show [OF assms(1) this, of "exits b"]
  have r1: "runs_to b (b\<lparr>shared := k', cpus := (cpus b)[c := Away]\<rparr>)"
    using list_update_id [of "cpus b" c] assms(4) by (simp add: at_def)
  obtain b2 where r2: "runs_to (b\<lparr>shared := k', cpus := (cpus b)[c := Away]\<rparr>) b2"
    and b2: "b2 = b\<lparr>shared := k'\<lparr>stat := (stat k')\<lparr>reasons_num := (reasons_num (stat k'))[r := v + 1]\<rparr>,
      total_exit := total_exit k' + 1\<rparr>, cpus := (cpus b)[c := Away, d := Away], exits := exits b + 1\<rparr>"
    using finish_store [of d "b\<lparr>shared := k', cpus := (cpus b)[c := Away]\<rparr>" r v] assms(1-5) by auto
  have "(reason_fmt, [AStr (reason_name r), ALong v]) \<in> set (report_lines (nat REASON_NUM) (stat ?k))"
    using assms(6,7,9) by (auto simp: report_lines_def)
  moreover have "length (reasons_num (stat k')) = nat REASON_NUM" by (simp add: k'_def reset_reason_def)
  ultimately show ?thesis
    using r1 r2 assms(9) by (intro exI [of _ b2]) (auto simp: b2 k'_def)
qed

text \<open>
  What \<open>probe_init\<close> does after the last registration, when the probes are armed already.
\<close>

definition late_init :: "u64 \<Rightarrow> kexit \<Rightarrow> kexit" where
  "late_init now k = k\<lparr>stat := init_reasons (stat k), showing_lock := False, total_exit := 0, ktime := now\<rparr>"

lemma probe_init_late:
  "probe_init cfg vmx reg now s = bindR (register_from cfg vmx reg 0 s) (\<lambda>(r, s1).
     case r of Some rc \<Rightarrow> Inr (rc, s1) | None \<Rightarrow> Inr (0, late_init now s1))"
  by (simp only: probe_init_def late_init_def)

text \<open>
  the probes are armed before the lock is initialised. Handlers that run before \<open>probe_init\<close> comes to
  \<open>spin_lock_init\<close> may be anywhere: there is a run in which one CPU is inside the report and another at the
  \<open>trylock\<close> at that moment, and after the initialisation both are inside the report.
\<close>

theorem init_breaks_lock:
  assumes "c < length (cpus b)" and "d < length (cpus b)" and "c \<noteq> d" and "cpus b ! c = Checking" and "cpus b ! d = Checking"
    and "\<not> showing_lock (shared b)"
  shows "\<exists>b1 b2. runs_to b b1 \<and> runs_to (b1\<lparr>shared := late_init t (shared b1)\<rparr>) b2 \<and>
    in_report (cpus b2 ! c) \<and> in_report (cpus b2 ! d)"
proof -
  define now where "now = ktime (shared b) + 1000000000"
  have due: "\<not> sint (now - ktime (shared b)) < 1000 * 1000 * 1000" by (simp add: now_def)
  let ?b1 = "b\<lparr>cpus := (cpus b)[c := Trying now]\<rparr>"
  let ?b2 = "b\<lparr>cpus := (cpus b)[c := Trying now, d := Trying now]\<rparr>"
  let ?b3 = "b\<lparr>shared := (shared b)\<lparr>showing_lock := True\<rparr>, cpus := (cpus b)[d := Trying now, c := Titling now]\<rparr>"
  let ?b4 = "?b3\<lparr>shared := late_init t (shared ?b3)\<rparr>"
  let ?b5 = "?b4\<lparr>shared := (shared ?b4)\<lparr>showing_lock := True\<rparr>, cpus := (cpus ?b4)[d := Titling now]\<rparr>"
  have s1: "cpu_step c 0 now b = Some ?b1" and s2: "cpu_step d 0 now ?b1 = Some ?b2"
    using assms(1-5) due by (simp_all add: cpu_step_def Let_def)
  have s3: "cpu_step c 0 0 ?b2 = Some ?b3"
    using assms(1-3,6) by (simp add: cpu_step_def Let_def list_update_swap [of c d])
  have "runs_to b ?b3" by (rule run_step [OF s1 run_step [OF s2 run_step [OF s3 rtranclp.rtrancl_refl]]])
  moreover have s4: "cpu_step d 0 0 ?b4 = Some ?b5"
    using assms(1-3) by (simp add: cpu_step_def Let_def late_init_def)
  have "runs_to ?b4 ?b5" by (rule run_step [OF s4 rtranclp.rtrancl_refl])
  moreover have "in_report (cpus ?b5 ! c)" "in_report (cpus ?b5 ! d)"
    using assms(1-3) by (simp_all add: in_report_def)
  ultimately show ?thesis by blast
qed

section \<open>Examples\<close>

definition ex_two :: hsys where
  "ex_two = \<lparr>shared = kexit_static, cpus = [Away, Away], exits = 0\<rparr>"

lemma ex_two_fields: "shared ex_two = kexit_static" "cpus ex_two = [Away, Away]" "exits ex_two = 0"
  by (simp_all add: ex_two_def)

lemma ex_two_replicate: "cpus ex_two = replicate 2 Away"
  by (simp add: ex_two_def numeral_2_eq_2)

lemma ex_kexit_fields: "ktime kexit_static = 0" "\<not> showing_lock kexit_static" "total_exit kexit_static = 0"
  "printed TotalExits (klog kexit_static) = 0"
  by (simp_all add: kexit_static_def printed_def)

lemma ex_stat_wf: "stat_wf (stat kexit_static)"
  by (simp add: kexit_static_def stat_wf_static)

lemma ex_handler: "\<exists>k'. exit_event sdm_exit_reason (EXIT_REASON_CPUID, 0) kexit_static = Inr k' \<and>
    accounted TotalExits k' = 1"
proof -
  have "sdm_exit_reason (fst (EXIT_REASON_CPUID, 0 :: u64)) < nat REASON_NUM" by (simp add: REASON_NUM_def)
  from exit_event_accounts [where vmx = sdm_exit_reason and e = "(EXIT_REASON_CPUID, 0)", OF ex_stat_wf this] obtain t
    where t: "exit_event sdm_exit_reason (EXIT_REASON_CPUID, 0) kexit_static = Inr t"
      and a: "\<forall>k. accounted k t = accounted k kexit_static +
        (if exit_hit sdm_exit_reason (EXIT_REASON_CPUID, 0) k then 1 else 0)" by blast
  from a [THEN spec, of TotalExits] t show ?thesis
    by (intro exI [of _ t]) (simp add: exit_hit_def accounted_def ex_kexit_fields)
qed

theorem handlers_refine_witness:
  "\<exists>k'. runs_to ex_two \<lparr>shared = k', cpus = replicate 2 Away, exits = 1\<rparr> \<and> accounted TotalExits k' = 1"
proof -
  obtain k' where k': "exit_event sdm_exit_reason (EXIT_REASON_CPUID, 0) kexit_static = Inr k'"
    "accounted TotalExits k' = 1" using ex_handler by blast
  have "ex_two = \<lparr>shared = kexit_static, cpus = replicate 2 Away, exits = 0\<rparr>"
    by (simp add: ex_two_def numeral_2_eq_2)
  with handlers_refine [of sdm_exit_reason "[(1, EXIT_REASON_CPUID, 0)]" kexit_static k' 2 0] k'
  show ?thesis by auto
qed

lemma ex_takes_lock:
  "runs_to ex_two \<lparr>shared = kexit_static\<lparr>total_exit := 1, showing_lock := True\<rparr>, cpus = [Titling 2000000000, Away], exits = 1\<rparr>"
proof -
  let ?k = "kexit_static\<lparr>total_exit := 1\<rparr>"
  have s1: "cpu_step 0 70 0 ex_two = Some (ex_two\<lparr>cpus := [Recording 70, Away]\<rparr>)"
    by (simp add: cpu_step_def ex_two_def Let_def)
  have s2: "cpu_step 0 70 0 (ex_two\<lparr>cpus := [Recording 70, Away]\<rparr>) = Some (ex_two\<lparr>cpus := [Counting, Away]\<rparr>)"
    by (simp add: cpu_step_def ex_two_def Let_def REASON_NUM_def)
  have s3: "cpu_step 0 70 0 (ex_two\<lparr>cpus := [Counting, Away]\<rparr>) = Some \<lparr>shared = ?k, cpus = [Checking, Away], exits = 1\<rparr>"
    by (simp add: cpu_step_def ex_two_def Let_def ex_kexit_fields)
  have s4: "cpu_step 0 70 2000000000 \<lparr>shared = ?k, cpus = [Checking, Away], exits = 1\<rparr> =
      Some \<lparr>shared = ?k, cpus = [Trying 2000000000, Away], exits = 1\<rparr>"
    by (simp add: cpu_step_def Let_def ex_kexit_fields)
  have s5: "cpu_step 0 70 0 \<lparr>shared = ?k, cpus = [Trying 2000000000, Away], exits = 1\<rparr> =
      Some \<lparr>shared = ?k\<lparr>showing_lock := True\<rparr>, cpus = [Titling 2000000000, Away], exits = 1\<rparr>"
    by (simp add: cpu_step_def Let_def ex_kexit_fields)
  show ?thesis
    using run_step [OF s1 run_step [OF s2 run_step [OF s3 run_step [OF s4 run_step [OF s5 rtranclp.rtrancl_refl]]]]]
    by simp
qed

theorem report_exclusive_witness:
  "\<exists>b. runs_to ex_two b \<and> in_report (cpus b ! 0) \<and> showing_lock (shared b) \<and> \<not> in_report (cpus b ! 1)"
proof -
  let ?b = "\<lparr>shared = kexit_static\<lparr>total_exit := 1, showing_lock := True\<rparr>, cpus = [Titling 2000000000, Away], exits = 1\<rparr>"
  have in0: "in_report (cpus ?b ! 0)" by (simp add: in_report_def)
  have "\<not> showing_lock (shared ex_two)" by (simp add: ex_two_fields ex_kexit_fields)
  note e = report_exclusive [OF ex_takes_lock this ex_two_replicate]
  have "\<not> in_report (cpus ?b ! 1)"
    using e [THEN conjunct2, THEN spec, THEN mp, THEN spec, THEN mp, of 0 1] in0 by auto
  moreover have "showing_lock (shared ?b)" by simp
  ultimately show ?thesis using ex_takes_lock in0 by blast
qed

theorem handlers_never_fault_witness:
  "\<exists>b b'. runs_to ex_two b \<and> cpus b ! 0 = Titling 2000000000 \<and> cpu_step 0 70 0 b = Some b' \<and>
     hrank (cpus b' ! 0) < hrank (Titling 2000000000)"
proof -
  let ?b = "\<lparr>shared = kexit_static\<lparr>total_exit := 1, showing_lock := True\<rparr>, cpus = [Titling 2000000000, Away], exits = 1\<rparr>"
  have "stat_wf (stat (shared ex_two))" by (simp add: ex_two_fields ex_stat_wf)
  from handlers_never_fault [OF ex_takes_lock ex_two_replicate this, of 0 70 0]
  obtain b' where "cpu_step 0 70 0 ?b = Some b'" "hrank (cpus b' ! 0) < hrank (cpus ?b ! 0)" by auto
  then show ?thesis using ex_takes_lock by (intro exI [of _ ?b] exI [of _ b']) simp
qed

theorem totals_bounded_witness:
  "\<exists>b. runs_to ex_two b \<and> exits b = 1 \<and>
     unat (printed TotalExits (klog (shared b))) + unat (total_exit (shared b)) \<le> 1"
proof -
  let ?b = "\<lparr>shared = kexit_static\<lparr>total_exit := 1, showing_lock := True\<rparr>, cpus = [Titling 2000000000, Away], exits = 1\<rparr>"
  have "windows (cpus ?b) = 0" by (simp add: occupants_def window_def)
  with totals_bounded [OF ex_takes_lock ex_two_replicate] ex_takes_lock
  show ?thesis by (intro exI [of _ ?b]) (simp add: ex_two_fields ex_kexit_fields)
qed

theorem lost_update_witness:
  "\<exists>b. runs_to ex_two b \<and> cpus b = [Away, Away] \<and> exits b = 2 \<and> total_exit (shared b) = 2 \<and>
     reasons_num (stat (shared b)) ! 10 = 1"
proof -
  have "reasons_num (stat (shared ex_two)) ! 10 = 0"
    by (simp add: ex_two_def kexit_static_def exit_stat_static_def REASON_NUM_def)
  with lost_update [of 0 ex_two 1 10] show ?thesis
    by (auto simp: ex_two_fields ex_kexit_fields ex_stat_wf REASON_NUM_def)
qed

definition ex_stale_cpu :: hsys where
  "ex_stale_cpu = \<lparr>shared = kexit_static\<lparr>stat := (stat kexit_static)\<lparr>reasons_num :=
     (reasons_num (stat kexit_static))[10 := 5]\<rparr>, total_exit := 5\<rparr>, cpus = [Checking, Storing 10 5], exits = 5\<rparr>"

theorem reported_twice_witness:
  "\<exists>b. runs_to ex_stale_cpu b \<and> exits b = 6 \<and> (reason_fmt, [AStr (reason_name 10), ALong 5]) \<in> set (klog (shared b)) \<and>
     reasons_num (stat (shared b)) ! 10 = 6"
proof -
  have wf: "stat_wf (stat (shared ex_stale_cpu))" using ex_stat_wf by (simp add: ex_stale_cpu_def stat_wf_def)
  have f: "reasons_num (stat (shared ex_stale_cpu)) ! 10 = 5" "\<not> showing_lock (shared ex_stale_cpu)"
    "cpus ex_stale_cpu = [Checking, Storing 10 5]" "exits ex_stale_cpu = 5"
    by (simp_all add: ex_stale_cpu_def kexit_static_def exit_stat_static_def REASON_NUM_def)
  have "\<exists>b. runs_to ex_stale_cpu b \<and> cpus b = (cpus ex_stale_cpu)[0 := Away, 1 := Away] \<and>
    exits b = exits ex_stale_cpu + 1 \<and> (reason_fmt, [AStr (reason_name 10), ALong 5]) \<in> set (klog (shared b)) \<and>
    reasons_num (stat (shared b)) ! 10 = 5 + 1"
    by (rule reported_twice) (simp_all add: wf f REASON_NUM_def)
  then obtain b where "runs_to ex_stale_cpu b" "exits b = exits ex_stale_cpu + 1"
    "(reason_fmt, [AStr (reason_name 10), ALong 5]) \<in> set (klog (shared b))"
    "reasons_num (stat (shared b)) ! 10 = 5 + 1" by blast
  with f(4) show ?thesis by (intro exI [of _ b]) simp
qed

theorem init_breaks_lock_witness:
  "\<exists>b1 b2. runs_to (ex_two\<lparr>cpus := [Checking, Checking]\<rparr>) b1 \<and>
     runs_to (b1\<lparr>shared := late_init 7 (shared b1)\<rparr>) b2 \<and> in_report (cpus b2 ! 0) \<and> in_report (cpus b2 ! 1)"
  using init_breaks_lock [of 0 "ex_two\<lparr>cpus := [Checking, Checking]\<rparr>" 1 7]
  by (simp add: ex_two_fields ex_kexit_fields)

end
