(* ===== verification/Msr_Index.thy ===== *)
theory Msr_Index
  imports Kvm_Prelude
begin

text \<open>
  The MSR and local-APIC register numbers that the kvmwrmsr module's switch statements use, from
  \<open>msr-index.h\<close>, \<open>kvm_para.h\<close> and \<open>apicdef.h\<close> (the fallback in \<open>local-msr-index.h\<close> is inactive: its
  \<open>#ifndef\<close> finds \<open>MSR_MISC_FEATURES_ENABLES\<close> already defined, with the same value). The whole of
  these headers is in \<open>Msr_Names\<close>, \<open>Msr_Fields\<close> and \<open>Apic_Layout\<close>.
\<close>

named_theorems msr_consts

definition MSR_IA32_APICBASE :: u32 where
  [msr_consts]: "MSR_IA32_APICBASE = 0x1b"

definition MSR_IA32_TSC_ADJUST :: u32 where
  [msr_consts]: "MSR_IA32_TSC_ADJUST = 0x3b"

definition MSR_IA32_TSCDEADLINE :: u32 where
  [msr_consts]: "MSR_IA32_TSCDEADLINE = 0x6e0"

definition MSR_IA32_MISC_ENABLE :: u32 where
  [msr_consts]: "MSR_IA32_MISC_ENABLE = 0x1a0"

definition MSR_IA32_MCG_STATUS :: u32 where
  [msr_consts]: "MSR_IA32_MCG_STATUS = 0x17a"

definition MSR_IA32_MCG_CTL :: u32 where
  [msr_consts]: "MSR_IA32_MCG_CTL = 0x17b"

definition MSR_IA32_MCG_EXT_CTL :: u32 where
  [msr_consts]: "MSR_IA32_MCG_EXT_CTL = 0x4d0"

definition MSR_IA32_SMBASE :: u32 where
  [msr_consts]: "MSR_IA32_SMBASE = 0x9e"

definition MSR_PLATFORM_INFO :: u32 where
  [msr_consts]: "MSR_PLATFORM_INFO = 0xce"

definition MSR_MISC_FEATURES_ENABLES :: u32 where
  [msr_consts]: "MSR_MISC_FEATURES_ENABLES = 0x140"

definition MSR_KVM_WALL_CLOCK :: u32 where
  [msr_consts]: "MSR_KVM_WALL_CLOCK = 0x11"

definition MSR_KVM_SYSTEM_TIME :: u32 where
  [msr_consts]: "MSR_KVM_SYSTEM_TIME = 0x12"

definition MSR_KVM_WALL_CLOCK_NEW :: u32 where
  [msr_consts]: "MSR_KVM_WALL_CLOCK_NEW = 0x4b564d00"

definition MSR_KVM_SYSTEM_TIME_NEW :: u32 where
  [msr_consts]: "MSR_KVM_SYSTEM_TIME_NEW = 0x4b564d01"

definition APIC_BASE_MSR :: u32 where
  [msr_consts]: "APIC_BASE_MSR = 0x800"

definition MSR_CORE_PERF_FIXED_CTR0 :: u32 where
  [msr_consts]: "MSR_CORE_PERF_FIXED_CTR0 = 0x309"

definition MSR_CORE_PERF_FIXED_CTR1 :: u32 where
  [msr_consts]: "MSR_CORE_PERF_FIXED_CTR1 = 0x30a"

definition MSR_CORE_PERF_FIXED_CTR2 :: u32 where
  [msr_consts]: "MSR_CORE_PERF_FIXED_CTR2 = 0x30b"

definition MSR_CORE_PERF_FIXED_CTR_CTRL :: u32 where
  [msr_consts]: "MSR_CORE_PERF_FIXED_CTR_CTRL = 0x38d"

definition MSR_CORE_PERF_GLOBAL_STATUS :: u32 where
  [msr_consts]: "MSR_CORE_PERF_GLOBAL_STATUS = 0x38e"

definition MSR_CORE_PERF_GLOBAL_CTRL :: u32 where
  [msr_consts]: "MSR_CORE_PERF_GLOBAL_CTRL = 0x38f"

definition MSR_CORE_PERF_GLOBAL_OVF_CTRL :: u32 where
  [msr_consts]: "MSR_CORE_PERF_GLOBAL_OVF_CTRL = 0x390"

definition APIC_TASKPRI :: u32 where
  [msr_consts]: "APIC_TASKPRI = 0x80"

definition APIC_EOI :: u32 where
  [msr_consts]: "APIC_EOI = 0xb0"

definition APIC_LDR :: u32 where
  [msr_consts]: "APIC_LDR = 0xd0"

definition APIC_DFR :: u32 where
  [msr_consts]: "APIC_DFR = 0xe0"

definition APIC_SPIV :: u32 where
  [msr_consts]: "APIC_SPIV = 0xf0"

definition APIC_ICR :: u32 where
  [msr_consts]: "APIC_ICR = 0x300"

definition APIC_ICR2 :: u32 where
  [msr_consts]: "APIC_ICR2 = 0x310"

definition APIC_LVT0 :: u32 where
  [msr_consts]: "APIC_LVT0 = 0x350"

definition APIC_LVTTHMR :: u32 where
  [msr_consts]: "APIC_LVTTHMR = 0x330"

definition APIC_LVTPC :: u32 where
  [msr_consts]: "APIC_LVTPC = 0x340"

definition APIC_LVT1 :: u32 where
  [msr_consts]: "APIC_LVT1 = 0x360"

definition APIC_LVTERR :: u32 where
  [msr_consts]: "APIC_LVTERR = 0x370"

definition APIC_LVTT :: u32 where
  [msr_consts]: "APIC_LVTT = 0x320"

definition APIC_SELF_IPI :: u32 where
  [msr_consts]: "APIC_SELF_IPI = 0x3f0"

text \<open>The x2APIC MSR of a local-APIC register: \<open>APIC_BASE_MSR + (reg >> 4)\<close>.\<close>

definition apic_msr :: "u32 \<Rightarrow> u32" where
  "apic_msr reg = APIC_BASE_MSR + drop_bit 4 reg"

text \<open>The GNU case range \<open>APIC_BASE_MSR ... (APIC_BASE_MSR + 0x3ff)\<close>.\<close>

definition in_apic_range :: "u32 \<Rightarrow> bool" where
  "in_apic_range msr \<longleftrightarrow> APIC_BASE_MSR \<le> msr \<and> msr \<le> APIC_BASE_MSR + 0x3ff"

definition apic_reg :: "u32 \<Rightarrow> u32" where
  "apic_reg msr = push_bit 4 (msr - APIC_BASE_MSR)"

end
