(* ===== verification/Wrmsr_Stats.thy ===== *)
theory Wrmsr_Stats
  imports Tally Msr_Index
begin

text \<open>
  \<open>debug/kvmwrmsr/msr.h\<close>: classification, counting, reporting and naming of the MSRs a guest writes,
  and the table of MSRs outside the known classes. The file's static counters are the cells of the
  store \<open>ctr\<close>, one constructor of \<open>wrmsr_var\<close> per variable.
\<close>

section \<open>State\<close>

datatype wrmsr_var =
    wrmsr_exits_set_apic_base
  | wrmsr_exits_set_tscadjust
  | wrmsr_exits_set_tscdeadline
  | wrmsr_exits_set_misc_enable
  | wrmsr_exits_set_mcg_status
  | wrmsr_exits_set_mcg_ctl
  | wrmsr_exits_set_mcg_ext_ctl
  | wrmsr_exits_set_smbase
  | wrmsr_exits_set_platform_info
  | wrmsr_exits_set_misc_features_enables
  | wrmsr_exits_set_wall_clock
  | wrmsr_exits_set_system_time
  | wrmsr_exits_set_lapic_tpr
  | wrmsr_exits_set_lapic_eoi
  | wrmsr_exits_set_lapic_ldr
  | wrmsr_exits_set_lapic_dfr
  | wrmsr_exits_set_lapic_spiv
  | wrmsr_exits_set_lapic_icr
  | wrmsr_exits_set_lapic_icr2
  | wrmsr_exits_set_lapic_lvt
  | wrmsr_exits_set_lapic_lvtt
  | wrmsr_exits_set_lapic_self_ipi
  | wrmsr_exits_set_lapic_others
  | wrmsr_exits_others
  | wrmsr_exits_set_perf_fixed_ctr0
  | wrmsr_exits_set_perf_fixed_ctr1
  | wrmsr_exits_set_perf_fixed_ctr2
  | wrmsr_exits_set_perf_fixed_ctr_ctrl
  | wrmsr_exits_set_perf_global_status
  | wrmsr_exits_set_perf_global_ctrl
  | wrmsr_exits_set_perf_global_ovf_ctrl

record msr_index_count =
  index :: u32
  count :: u32

definition OTHER_MSRS :: nat where
  "OTHER_MSRS = 128"

record wrmsr_stat =
  ctr :: "wrmsr_var \<Rightarrow> u64"
  other_msrs :: "msr_index_count list"
  other_msrs_lock :: bool

definition zero_slot :: msr_index_count where
  "zero_slot = \<lparr>index = 0, count = 0\<rparr>"

definition wrmsr_static :: wrmsr_stat where
  "wrmsr_static =
     \<lparr>ctr = (\<lambda>_. 0), other_msrs = replicate OTHER_MSRS zero_slot, other_msrs_lock = False\<rparr>"

section \<open>Operations\<close>

text \<open>The loop of \<open>record_other_wrmsr\<close> over the slots that are left.\<close>

fun record_slot :: "u32 \<Rightarrow> msr_index_count list \<Rightarrow> msr_index_count list" where
  "record_slot msr [] = []"
| "record_slot msr (e # es) =
     (if msr = index e \<or> index e = 0 then e\<lparr>index := msr, count := count e + 1\<rparr> # es
      else e # record_slot msr es)"

definition record_other_wrmsr :: "u32 \<Rightarrow> wrmsr_stat \<Rightarrow> wrmsr_stat res" where
  "record_other_wrmsr msr s =
     bindR (spin_lock (other_msrs_lock s)) (\<lambda>l.
       let s1 = s\<lparr>other_msrs_lock := l\<rparr>;
           s2 = s1\<lparr>other_msrs := record_slot msr (other_msrs s1)\<rparr>
       in Inr (s2\<lparr>other_msrs_lock := False\<rparr>))"

text \<open>\<open>Some (msr, count)\<close> is a return of 0 with the two out parameters, \<open>None\<close> a return of -1.\<close>

definition report_other_wrmsr :: "int \<Rightarrow> wrmsr_stat \<Rightarrow> (u32 \<times> u32) option res" where
  "report_other_wrmsr idx s =
     bindR (spin_lock (other_msrs_lock s)) (\<lambda>l.
     bindR (arr_get (other_msrs s) idx) (\<lambda>e.
       if index e \<noteq> 0 \<and> count e \<noteq> 0 then Inr (Some (index e, count e)) else Inr None))"

definition reset_other_wrmsr :: "wrmsr_stat \<Rightarrow> wrmsr_stat res" where
  "reset_other_wrmsr s =
     bindR (spin_lock (other_msrs_lock s)) (\<lambda>l.
       let s1 = s\<lparr>other_msrs_lock := l\<rparr>;
           s2 = s1\<lparr>other_msrs := replicate OTHER_MSRS zero_slot\<rparr>
       in Inr (s2\<lparr>other_msrs_lock := False\<rparr>))"

definition inc :: "wrmsr_var \<Rightarrow> wrmsr_stat \<Rightarrow> wrmsr_stat" where
  "inc v s = s\<lparr>ctr := (ctr s)(v := ctr s v + 1)\<rparr>"

definition record_wrmsr :: "u32 \<Rightarrow> wrmsr_stat \<Rightarrow> wrmsr_stat res" where
  "record_wrmsr msr s =
     (if msr = MSR_IA32_APICBASE then Inr (inc wrmsr_exits_set_apic_base s)
      else if msr = MSR_IA32_TSC_ADJUST then Inr (inc wrmsr_exits_set_tscadjust s)
      else if msr = MSR_IA32_TSCDEADLINE then Inr (inc wrmsr_exits_set_tscdeadline s)
      else if msr = MSR_IA32_MISC_ENABLE then Inr (inc wrmsr_exits_set_misc_enable s)
      else if msr = MSR_IA32_MCG_STATUS then Inr (inc wrmsr_exits_set_mcg_status s)
      else if msr = MSR_IA32_MCG_CTL then Inr (inc wrmsr_exits_set_mcg_ctl s)
      else if msr = MSR_IA32_MCG_EXT_CTL then Inr (inc wrmsr_exits_set_mcg_ext_ctl s)
      else if msr = MSR_IA32_SMBASE then Inr (inc wrmsr_exits_set_smbase s)
      else if msr = MSR_PLATFORM_INFO then Inr (inc wrmsr_exits_set_platform_info s)
      else if msr = MSR_MISC_FEATURES_ENABLES then Inr (inc wrmsr_exits_set_misc_features_enables s)
      else if msr = MSR_KVM_WALL_CLOCK_NEW \<or> msr = MSR_KVM_WALL_CLOCK then Inr (inc wrmsr_exits_set_wall_clock s)
      else if msr = MSR_KVM_SYSTEM_TIME_NEW \<or> msr = MSR_KVM_SYSTEM_TIME then Inr (inc wrmsr_exits_set_system_time s)
      else if in_apic_range msr then
        (let reg = apic_reg msr in
         if reg = APIC_TASKPRI then Inr (inc wrmsr_exits_set_lapic_tpr s)
         else if reg = APIC_EOI then Inr (inc wrmsr_exits_set_lapic_eoi s)
         else if reg = APIC_LDR then Inr (inc wrmsr_exits_set_lapic_ldr s)
         else if reg = APIC_DFR then Inr (inc wrmsr_exits_set_lapic_dfr s)
         else if reg = APIC_SPIV then Inr (inc wrmsr_exits_set_lapic_spiv s)
         else if reg = APIC_ICR then Inr (inc wrmsr_exits_set_lapic_icr s)
         else if reg = APIC_ICR2 then Inr (inc wrmsr_exits_set_lapic_icr2 s)
         else if reg = APIC_LVT0 \<or> reg = APIC_LVTTHMR \<or> reg = APIC_LVTPC \<or> reg = APIC_LVT1 \<or> reg = APIC_LVTERR then Inr (inc wrmsr_exits_set_lapic_lvt s)
         else if reg = APIC_LVTT then Inr (inc wrmsr_exits_set_lapic_lvtt s)
         else if reg = APIC_SELF_IPI then Inr (inc wrmsr_exits_set_lapic_self_ipi s)
         else Inr (inc wrmsr_exits_set_lapic_others s))
      else if msr = MSR_CORE_PERF_FIXED_CTR0 then Inr (inc wrmsr_exits_set_perf_fixed_ctr0 s)
      else if msr = MSR_CORE_PERF_FIXED_CTR1 then Inr (inc wrmsr_exits_set_perf_fixed_ctr1 s)
      else if msr = MSR_CORE_PERF_FIXED_CTR2 then Inr (inc wrmsr_exits_set_perf_fixed_ctr2 s)
      else if msr = MSR_CORE_PERF_FIXED_CTR_CTRL then Inr (inc wrmsr_exits_set_perf_fixed_ctr_ctrl s)
      else if msr = MSR_CORE_PERF_GLOBAL_STATUS then Inr (inc wrmsr_exits_set_perf_global_status s)
      else if msr = MSR_CORE_PERF_GLOBAL_CTRL then Inr (inc wrmsr_exits_set_perf_global_ctrl s)
      else if msr = MSR_CORE_PERF_GLOBAL_OVF_CTRL then Inr (inc wrmsr_exits_set_perf_global_ovf_ctrl s)
      else record_other_wrmsr msr (inc wrmsr_exits_others s))"

definition report_wrmsr :: "u32 \<Rightarrow> wrmsr_stat \<Rightarrow> u64" where
  "report_wrmsr msr s =
     (if msr = MSR_IA32_APICBASE then ctr s wrmsr_exits_set_apic_base
      else if msr = MSR_IA32_TSC_ADJUST then ctr s wrmsr_exits_set_tscadjust
      else if msr = MSR_IA32_TSCDEADLINE then ctr s wrmsr_exits_set_tscdeadline
      else if msr = MSR_IA32_MISC_ENABLE then ctr s wrmsr_exits_set_misc_enable
      else if msr = MSR_IA32_MCG_STATUS then ctr s wrmsr_exits_set_mcg_status
      else if msr = MSR_IA32_MCG_CTL then ctr s wrmsr_exits_set_mcg_ctl
      else if msr = MSR_IA32_MCG_EXT_CTL then ctr s wrmsr_exits_set_mcg_ext_ctl
      else if msr = MSR_IA32_SMBASE then ctr s wrmsr_exits_set_smbase
      else if msr = MSR_PLATFORM_INFO then ctr s wrmsr_exits_set_platform_info
      else if msr = MSR_MISC_FEATURES_ENABLES then ctr s wrmsr_exits_set_misc_enable
      else if msr = MSR_KVM_WALL_CLOCK_NEW \<or> msr = MSR_KVM_WALL_CLOCK then ctr s wrmsr_exits_set_wall_clock
      else if msr = MSR_KVM_SYSTEM_TIME_NEW \<or> msr = MSR_KVM_SYSTEM_TIME then ctr s wrmsr_exits_set_system_time
      else if in_apic_range msr then
        (let reg = apic_reg msr in
         if reg = APIC_TASKPRI then ctr s wrmsr_exits_set_lapic_tpr
         else if reg = APIC_EOI then ctr s wrmsr_exits_set_lapic_eoi
         else if reg = APIC_LDR then ctr s wrmsr_exits_set_lapic_ldr
         else if reg = APIC_DFR then ctr s wrmsr_exits_set_lapic_dfr
         else if reg = APIC_SPIV then ctr s wrmsr_exits_set_lapic_spiv
         else if reg = APIC_ICR then ctr s wrmsr_exits_set_lapic_icr
         else if reg = APIC_ICR2 then ctr s wrmsr_exits_set_lapic_icr2
         else if reg = APIC_LVT0 \<or> reg = APIC_LVTTHMR \<or> reg = APIC_LVTPC \<or> reg = APIC_LVT1 \<or> reg = APIC_LVTERR then ctr s wrmsr_exits_set_lapic_lvt
         else if reg = APIC_LVTT then ctr s wrmsr_exits_set_lapic_lvtt
         else if reg = APIC_SELF_IPI then ctr s wrmsr_exits_set_lapic_self_ipi
         else ctr s wrmsr_exits_set_lapic_others)
      else if msr = MSR_CORE_PERF_FIXED_CTR0 then ctr s wrmsr_exits_set_perf_fixed_ctr0
      else if msr = MSR_CORE_PERF_FIXED_CTR1 then ctr s wrmsr_exits_set_perf_fixed_ctr1
      else if msr = MSR_CORE_PERF_FIXED_CTR2 then ctr s wrmsr_exits_set_perf_fixed_ctr2
      else if msr = MSR_CORE_PERF_FIXED_CTR_CTRL then ctr s wrmsr_exits_set_perf_fixed_ctr_ctrl
      else if msr = MSR_CORE_PERF_GLOBAL_STATUS then ctr s wrmsr_exits_set_perf_global_status
      else if msr = MSR_CORE_PERF_GLOBAL_CTRL then ctr s wrmsr_exits_set_perf_global_ctrl
      else if msr = MSR_CORE_PERF_GLOBAL_OVF_CTRL then ctr s wrmsr_exits_set_perf_global_ovf_ctrl
      else ctr s wrmsr_exits_others)"

text \<open>The assignments of \<open>reset_wrmsr\<close>, in order.\<close>

definition reset_vars :: "wrmsr_var list" where
  "reset_vars =
    [wrmsr_exits_set_apic_base,
     wrmsr_exits_set_tscadjust,
     wrmsr_exits_set_tscdeadline,
     wrmsr_exits_set_misc_enable,
     wrmsr_exits_set_mcg_status,
     wrmsr_exits_set_mcg_ctl,
     wrmsr_exits_set_mcg_ext_ctl,
     wrmsr_exits_set_smbase,
     wrmsr_exits_set_platform_info,
     wrmsr_exits_set_misc_features_enables,
     wrmsr_exits_set_wall_clock,
     wrmsr_exits_set_system_time,
     wrmsr_exits_set_lapic_tpr,
     wrmsr_exits_set_lapic_eoi,
     wrmsr_exits_set_lapic_ldr,
     wrmsr_exits_set_lapic_dfr,
     wrmsr_exits_set_lapic_spiv,
     wrmsr_exits_set_lapic_icr,
     wrmsr_exits_set_lapic_icr2,
     wrmsr_exits_set_lapic_lvt,
     wrmsr_exits_set_lapic_lvtt,
     wrmsr_exits_set_lapic_self_ipi,
     wrmsr_exits_set_lapic_others,
     wrmsr_exits_others,
     wrmsr_exits_set_perf_fixed_ctr0,
     wrmsr_exits_set_perf_fixed_ctr1,
     wrmsr_exits_set_perf_fixed_ctr2,
     wrmsr_exits_set_perf_fixed_ctr_ctrl,
     wrmsr_exits_set_perf_global_status,
     wrmsr_exits_set_perf_global_ctrl,
     wrmsr_exits_set_perf_global_ovf_ctrl]"

definition reset_wrmsr :: "wrmsr_stat \<Rightarrow> wrmsr_stat res" where
  "reset_wrmsr s =
     reset_other_wrmsr (s\<lparr>ctr := foldl (\<lambda>c v. c(v := 0)) (ctr s) reset_vars\<rparr>)"

definition msr2str :: "u32 \<Rightarrow> string" where
  "msr2str msr =
     (if msr = MSR_IA32_APICBASE then ''MSR_IA32_APICBASE''
      else if msr = MSR_IA32_TSC_ADJUST then ''MSR_IA32_TSC_ADJUST''
      else if msr = MSR_IA32_TSCDEADLINE then ''MSR_IA32_TSCDEADLINE''
      else if msr = MSR_IA32_MISC_ENABLE then ''MSR_IA32_MISC_ENABLE''
      else if msr = MSR_IA32_MCG_STATUS then ''MSR_IA32_MCG_STATUS''
      else if msr = MSR_IA32_MCG_CTL then ''MSR_IA32_MCG_CTL''
      else if msr = MSR_IA32_MCG_EXT_CTL then ''MSR_IA32_MCG_EXT_CTL''
      else if msr = MSR_IA32_SMBASE then ''MSR_IA32_SMBASE''
      else if msr = MSR_PLATFORM_INFO then ''MSR_PLATFORM_INFO''
      else if msr = MSR_MISC_FEATURES_ENABLES then ''MSR_MISC_FEATURES_ENABLES''
      else if msr = MSR_KVM_WALL_CLOCK_NEW \<or> msr = MSR_KVM_WALL_CLOCK then ''MSR_KVM_WALL_CLOCK''
      else if msr = MSR_KVM_SYSTEM_TIME_NEW \<or> msr = MSR_KVM_SYSTEM_TIME then ''MSR_KVM_SYSTEM_TIME''
      else if in_apic_range msr then
        (let reg = apic_reg msr in
         if reg = APIC_TASKPRI then ''APIC_TASKPRI''
         else if reg = APIC_EOI then ''APIC_EOI''
         else if reg = APIC_LDR then ''APIC_LDR''
         else if reg = APIC_DFR then ''APIC_DFR''
         else if reg = APIC_SPIV then ''APIC_SPIV''
         else if reg = APIC_ICR then ''APIC_ICR''
         else if reg = APIC_ICR2 then ''APIC_ICR2''
         else if reg = APIC_LVT0 \<or> reg = APIC_LVTTHMR \<or> reg = APIC_LVTPC \<or> reg = APIC_LVT1 \<or> reg = APIC_LVTERR then ''APIC_LVT0''
         else if reg = APIC_LVTT then ''APIC_LVTT''
         else if reg = APIC_SELF_IPI then ''APIC_SELF_IPI''
         else ''APIC_OTHERS'')
      else if msr = MSR_CORE_PERF_FIXED_CTR0 then ''MSR_CORE_PERF_FIXED_CTR0''
      else if msr = MSR_CORE_PERF_FIXED_CTR1 then ''MSR_CORE_PERF_FIXED_CTR1''
      else if msr = MSR_CORE_PERF_FIXED_CTR2 then ''MSR_CORE_PERF_FIXED_CTR2''
      else if msr = MSR_CORE_PERF_FIXED_CTR_CTRL then ''MSR_CORE_PERF_FIXED_CTR_CTRL''
      else if msr = MSR_CORE_PERF_GLOBAL_STATUS then ''MSR_CORE_PERF_GLOBAL_STATUS''
      else if msr = MSR_CORE_PERF_GLOBAL_CTRL then ''MSR_CORE_PERF_GLOBAL_CTRL''
      else if msr = MSR_CORE_PERF_GLOBAL_OVF_CTRL then ''MSR_CORE_PERF_GLOBAL_OVF_CTRL''
      else ''MSR_OTHERS'')"

definition init_wrmsr :: "wrmsr_stat \<Rightarrow> wrmsr_stat res" where
  "init_wrmsr s = reset_other_wrmsr (s\<lparr>other_msrs_lock := False\<rparr>)"

section \<open>The classification the three switches share\<close>

definition msr_table :: "(u32 \<times> wrmsr_var) list" where
  "msr_table =
    [(MSR_IA32_APICBASE, wrmsr_exits_set_apic_base),
     (MSR_IA32_TSC_ADJUST, wrmsr_exits_set_tscadjust),
     (MSR_IA32_TSCDEADLINE, wrmsr_exits_set_tscdeadline),
     (MSR_IA32_MISC_ENABLE, wrmsr_exits_set_misc_enable),
     (MSR_IA32_MCG_STATUS, wrmsr_exits_set_mcg_status),
     (MSR_IA32_MCG_CTL, wrmsr_exits_set_mcg_ctl),
     (MSR_IA32_MCG_EXT_CTL, wrmsr_exits_set_mcg_ext_ctl),
     (MSR_IA32_SMBASE, wrmsr_exits_set_smbase),
     (MSR_PLATFORM_INFO, wrmsr_exits_set_platform_info),
     (MSR_MISC_FEATURES_ENABLES, wrmsr_exits_set_misc_features_enables),
     (MSR_KVM_WALL_CLOCK_NEW, wrmsr_exits_set_wall_clock),
     (MSR_KVM_WALL_CLOCK, wrmsr_exits_set_wall_clock),
     (MSR_KVM_SYSTEM_TIME_NEW, wrmsr_exits_set_system_time),
     (MSR_KVM_SYSTEM_TIME, wrmsr_exits_set_system_time),
     (MSR_CORE_PERF_FIXED_CTR0, wrmsr_exits_set_perf_fixed_ctr0),
     (MSR_CORE_PERF_FIXED_CTR1, wrmsr_exits_set_perf_fixed_ctr1),
     (MSR_CORE_PERF_FIXED_CTR2, wrmsr_exits_set_perf_fixed_ctr2),
     (MSR_CORE_PERF_FIXED_CTR_CTRL, wrmsr_exits_set_perf_fixed_ctr_ctrl),
     (MSR_CORE_PERF_GLOBAL_STATUS, wrmsr_exits_set_perf_global_status),
     (MSR_CORE_PERF_GLOBAL_CTRL, wrmsr_exits_set_perf_global_ctrl),
     (MSR_CORE_PERF_GLOBAL_OVF_CTRL, wrmsr_exits_set_perf_global_ovf_ctrl)]"

definition lapic_table :: "(u32 \<times> wrmsr_var) list" where
  "lapic_table =
    [(APIC_TASKPRI, wrmsr_exits_set_lapic_tpr),
     (APIC_EOI, wrmsr_exits_set_lapic_eoi),
     (APIC_LDR, wrmsr_exits_set_lapic_ldr),
     (APIC_DFR, wrmsr_exits_set_lapic_dfr),
     (APIC_SPIV, wrmsr_exits_set_lapic_spiv),
     (APIC_ICR, wrmsr_exits_set_lapic_icr),
     (APIC_ICR2, wrmsr_exits_set_lapic_icr2),
     (APIC_LVT0, wrmsr_exits_set_lapic_lvt),
     (APIC_LVTTHMR, wrmsr_exits_set_lapic_lvt),
     (APIC_LVTPC, wrmsr_exits_set_lapic_lvt),
     (APIC_LVT1, wrmsr_exits_set_lapic_lvt),
     (APIC_LVTERR, wrmsr_exits_set_lapic_lvt),
     (APIC_LVTT, wrmsr_exits_set_lapic_lvtt),
     (APIC_SELF_IPI, wrmsr_exits_set_lapic_self_ipi)]"

definition wrmsr_class :: "u32 \<Rightarrow> wrmsr_var" where
  "wrmsr_class msr =
     (case map_of msr_table msr of
        Some v \<Rightarrow> v
      | None \<Rightarrow>
          if in_apic_range msr then
            (case map_of lapic_table (apic_reg msr) of
               Some v \<Rightarrow> v | None \<Rightarrow> wrmsr_exits_set_lapic_others)
          else wrmsr_exits_others)"

fun class_label :: "wrmsr_var \<Rightarrow> string" where
  "class_label wrmsr_exits_set_apic_base = ''MSR_IA32_APICBASE''"
| "class_label wrmsr_exits_set_tscadjust = ''MSR_IA32_TSC_ADJUST''"
| "class_label wrmsr_exits_set_tscdeadline = ''MSR_IA32_TSCDEADLINE''"
| "class_label wrmsr_exits_set_misc_enable = ''MSR_IA32_MISC_ENABLE''"
| "class_label wrmsr_exits_set_mcg_status = ''MSR_IA32_MCG_STATUS''"
| "class_label wrmsr_exits_set_mcg_ctl = ''MSR_IA32_MCG_CTL''"
| "class_label wrmsr_exits_set_mcg_ext_ctl = ''MSR_IA32_MCG_EXT_CTL''"
| "class_label wrmsr_exits_set_smbase = ''MSR_IA32_SMBASE''"
| "class_label wrmsr_exits_set_platform_info = ''MSR_PLATFORM_INFO''"
| "class_label wrmsr_exits_set_misc_features_enables = ''MSR_MISC_FEATURES_ENABLES''"
| "class_label wrmsr_exits_set_wall_clock = ''MSR_KVM_WALL_CLOCK''"
| "class_label wrmsr_exits_set_system_time = ''MSR_KVM_SYSTEM_TIME''"
| "class_label wrmsr_exits_set_lapic_tpr = ''APIC_TASKPRI''"
| "class_label wrmsr_exits_set_lapic_eoi = ''APIC_EOI''"
| "class_label wrmsr_exits_set_lapic_ldr = ''APIC_LDR''"
| "class_label wrmsr_exits_set_lapic_dfr = ''APIC_DFR''"
| "class_label wrmsr_exits_set_lapic_spiv = ''APIC_SPIV''"
| "class_label wrmsr_exits_set_lapic_icr = ''APIC_ICR''"
| "class_label wrmsr_exits_set_lapic_icr2 = ''APIC_ICR2''"
| "class_label wrmsr_exits_set_lapic_lvt = ''APIC_LVT0''"
| "class_label wrmsr_exits_set_lapic_lvtt = ''APIC_LVTT''"
| "class_label wrmsr_exits_set_lapic_self_ipi = ''APIC_SELF_IPI''"
| "class_label wrmsr_exits_set_lapic_others = ''APIC_OTHERS''"
| "class_label wrmsr_exits_others = ''MSR_OTHERS''"
| "class_label wrmsr_exits_set_perf_fixed_ctr0 = ''MSR_CORE_PERF_FIXED_CTR0''"
| "class_label wrmsr_exits_set_perf_fixed_ctr1 = ''MSR_CORE_PERF_FIXED_CTR1''"
| "class_label wrmsr_exits_set_perf_fixed_ctr2 = ''MSR_CORE_PERF_FIXED_CTR2''"
| "class_label wrmsr_exits_set_perf_fixed_ctr_ctrl = ''MSR_CORE_PERF_FIXED_CTR_CTRL''"
| "class_label wrmsr_exits_set_perf_global_status = ''MSR_CORE_PERF_GLOBAL_STATUS''"
| "class_label wrmsr_exits_set_perf_global_ctrl = ''MSR_CORE_PERF_GLOBAL_CTRL''"
| "class_label wrmsr_exits_set_perf_global_ovf_ctrl = ''MSR_CORE_PERF_GLOBAL_OVF_CTRL''"

lemmas switch_defs = wrmsr_class_def msr_table_def lapic_table_def

lemma record_wrmsr_class:
  "record_wrmsr msr s =
     (if wrmsr_class msr = wrmsr_exits_others then record_other_wrmsr msr (inc wrmsr_exits_others s)
      else Inr (inc (wrmsr_class msr) s))"
  unfolding record_wrmsr_def switch_defs
  by (simp add: msr_consts in_apic_range_def Let_def)

lemma msr2str_class: "msr2str msr = class_label (wrmsr_class msr)"
  unfolding msr2str_def switch_defs
  by (simp add: msr_consts in_apic_range_def Let_def)

lemma report_wrmsr_class:
  "report_wrmsr msr s = ctr s (if msr = MSR_MISC_FEATURES_ENABLES then wrmsr_exits_set_misc_enable
     else wrmsr_class msr)"
  unfolding report_wrmsr_def switch_defs
  by (simp add: msr_consts in_apic_range_def Let_def)

lemma class_label_inj: "class_label v = class_label w \<longleftrightarrow> v = w"
proof -
  have "distinct (map class_label reset_vars)" by (simp add: reset_vars_def)
  moreover have "x \<in> set reset_vars" for x by (cases x) (simp_all add: reset_vars_def)
  ultimately show ?thesis by (metis distinct_map inj_onD)
qed

section \<open>The variables as a finite type\<close>

instantiation wrmsr_var :: enum
begin

definition enum_wrmsr_var :: "wrmsr_var list" where
  "enum_wrmsr_var = reset_vars"

definition enum_all_wrmsr_var :: "(wrmsr_var \<Rightarrow> bool) \<Rightarrow> bool" where
  "enum_all_wrmsr_var P \<longleftrightarrow> list_all P reset_vars"

definition enum_ex_wrmsr_var :: "(wrmsr_var \<Rightarrow> bool) \<Rightarrow> bool" where
  "enum_ex_wrmsr_var P \<longleftrightarrow> list_ex P reset_vars"

instance
proof
  have mem: "x \<in> set reset_vars" for x
    by (cases x) (simp_all add: reset_vars_def)
  then show "UNIV = set (enum_class.enum :: wrmsr_var list)"
    by (auto simp: enum_wrmsr_var_def)
  show "distinct (enum_class.enum :: wrmsr_var list)"
    by (simp add: enum_wrmsr_var_def reset_vars_def)
  show "\<And>P :: wrmsr_var \<Rightarrow> bool. enum_class.enum_all P = Ball UNIV P"
    using mem by (auto simp: enum_all_wrmsr_var_def list_all_iff)
  show "\<And>P :: wrmsr_var \<Rightarrow> bool. enum_class.enum_ex P = Bex UNIV P"
    using mem by (auto simp: enum_ex_wrmsr_var_def list_ex_iff)
qed

end

lemma in_reset_vars [simp]: "v \<in> set reset_vars"
  using UNIV_enum [where 'a = wrmsr_var] by (auto simp: enum_wrmsr_var_def)

section \<open>The counters as a resettable tally\<close>

definition mstat_wf :: "wrmsr_stat \<Rightarrow> bool" where
  "mstat_wf s \<longleftrightarrow> length (other_msrs s) = OTHER_MSRS \<and> \<not> other_msrs_lock s"

lemma length_record_slot [simp]: "length (record_slot msr es) = length es"
  by (induction es) auto

lemma record_other_ok:
  "\<not> other_msrs_lock s \<Longrightarrow>
     record_other_wrmsr msr s = Inr (s\<lparr>other_msrs := record_slot msr (other_msrs s)\<rparr>)"
  by (simp add: record_other_wrmsr_def)

lemma reset_other_ok:
  "\<not> other_msrs_lock s \<Longrightarrow>
     reset_other_wrmsr s = Inr (s\<lparr>other_msrs := replicate OTHER_MSRS zero_slot\<rparr>)"
  by (simp add: reset_other_wrmsr_def)

lemma foldl_clear: "foldl (\<lambda>c v. c(v := 0)) c vs x = (if x \<in> set vs then 0 else c x)"
  by (induction vs arbitrary: c) auto

lemma reset_wrmsr_ok:
  assumes "mstat_wf s"
  shows "reset_wrmsr s =
    Inr (s\<lparr>ctr := (\<lambda>_. 0), other_msrs := replicate OTHER_MSRS zero_slot\<rparr>)"
proof -
  have "foldl (\<lambda>c v. c(v := 0)) (ctr s) reset_vars = (\<lambda>_. 0)"
    by (rule ext) (simp add: foldl_clear)
  with assms show ?thesis by (simp add: reset_wrmsr_def mstat_wf_def reset_other_ok)
qed

definition reset_state :: "wrmsr_stat \<Rightarrow> wrmsr_stat" where
  "reset_state s = s\<lparr>ctr := (\<lambda>_. 0), other_msrs := replicate OTHER_MSRS zero_slot\<rparr>"

lemma mstat_wf_reset: "mstat_wf s \<Longrightarrow> mstat_wf (reset_state s)"
  by (simp add: mstat_wf_def reset_state_def)

lemma inc_simps [simp]:
  "ctr (inc v s) = (ctr s)(v := ctr s v + 1)"
  "other_msrs (inc v s) = other_msrs s"
  "other_msrs_lock (inc v s) = other_msrs_lock s"
  by (simp_all add: inc_def)

lemma record_wrmsr_effect:
  assumes "mstat_wf s"
  shows "\<exists>t. record_wrmsr msr s = Inr t \<and> mstat_wf t \<and>
    ctr t = (ctr s)(wrmsr_class msr := ctr s (wrmsr_class msr) + 1) \<and>
    other_msrs t = (if wrmsr_class msr = wrmsr_exits_others
                    then record_slot msr (other_msrs s) else other_msrs s)"
  using assms by (auto simp: record_wrmsr_class mstat_wf_def record_other_ok)

interpretation wrmsrs: event_counter mstat_wf "\<lambda>_. True" record_wrmsr "\<lambda>v s. ctr s v"
  "\<lambda>msr v. wrmsr_class msr = v" reset_state
proof unfold_locales
  show "\<exists>t. record_wrmsr e s = Inr t \<and> mstat_wf t" if "mstat_wf s" for s e
    using record_wrmsr_effect [OF that] by blast
  show "ctr t k = ctr s k + (if wrmsr_class e = k then 1 else 0)"
    if "mstat_wf s" "record_wrmsr e s = Inr t" for s e t k
    using record_wrmsr_effect [OF that(1), of e] that(2) by auto
  show "mstat_wf (reset_state s)" if "mstat_wf s" for s
    using that by (rule mstat_wf_reset)
  show "ctr (reset_state s) k = 0" for s k
    by (simp add: reset_state_def)
qed

section \<open>The table of other MSRs\<close>

text \<open>The distinct elements of a list in the order of their first occurrence.\<close>

definition firsts :: "'a list \<Rightarrow> 'a list" where
  "firsts xs = rev (remdups (rev xs))"

lemma firsts_snoc: "firsts (xs @ [x]) = (if x \<in> set xs then firsts xs else firsts xs @ [x])"
  by (simp add: firsts_def)

lemma set_firsts [simp]: "set (firsts xs) = set xs"
  by (simp add: firsts_def)

lemma distinct_firsts [simp]: "distinct (firsts xs)"
  by (simp add: firsts_def)

definition other_table :: "nat \<Rightarrow> u32 list \<Rightarrow> msr_index_count list" where
  "other_table n es =
     map (\<lambda>m. \<lparr>index = m, count = of_nat (count_list es m)\<rparr>) (take n (firsts es)) @
     replicate (n - length (firsts es)) zero_slot"

lemma record_slot_hit:
  "m \<in> set ms \<Longrightarrow> distinct ms \<Longrightarrow> 0 \<notin> set ms \<Longrightarrow>
     record_slot m (map (\<lambda>x. \<lparr>index = x, count = c x\<rparr>) ms @ zs) =
     map (\<lambda>x. \<lparr>index = x, count = c x + (if x = m then 1 else 0)\<rparr>) ms @ zs"
  by (induction ms) auto

lemma record_slot_miss:
  "m \<notin> set ms \<Longrightarrow> 0 \<notin> set ms \<Longrightarrow>
     record_slot m (map (\<lambda>x. \<lparr>index = x, count = c x\<rparr>) ms @ zs) =
     map (\<lambda>x. \<lparr>index = x, count = c x\<rparr>) ms @ record_slot m zs"
  by (induction ms) auto

lemma record_slot_free: "record_slot m (replicate (Suc k) zero_slot) =
    \<lparr>index = m, count = 1\<rparr> # replicate k zero_slot"
  by (simp add: zero_slot_def)

lemma other_table_snoc:
  assumes "0 \<notin> set (es @ [m])"
  shows "record_slot m (other_table n es) = other_table n (es @ [m])"
proof (cases "m \<in> set (take n (firsts es))")
  case True
  then have "m \<in> set es" by (metis set_firsts in_set_takeD)
  then have fs: "firsts (es @ [m]) = firsts es" by (simp add: firsts_snoc)
  have cnt: "of_nat (count_list (es @ [m]) x) =
      (of_nat (count_list es x) + (if x = m then 1 else 0) :: u32)" for x
    by simp
  have "0 \<notin> set (take n (firsts es))" using assms by (auto dest: in_set_takeD)
  then show ?thesis
    unfolding other_table_def fs cnt by (intro record_slot_hit True distinct_take) simp_all
next
  case False
  have cnt: "map (\<lambda>x. \<lparr>index = x, count = of_nat (count_list (es @ [m]) x) :: u32\<rparr>) (take n (firsts es)) =
      map (\<lambda>x. \<lparr>index = x, count = of_nat (count_list es x)\<rparr>) (take n (firsts es))"
    using False by auto
  have z: "0 \<notin> set (take n (firsts es))" using assms by (auto dest: in_set_takeD)
  show ?thesis
  proof (cases "length (firsts es) < n")
    case True
    with False have new: "m \<notin> set es" by simp
    from True obtain k where k: "n - length (firsts es) = Suc k" "n - Suc (length (firsts es)) = k"
      by (metis Suc_diff_Suc)
    have "count_list es m = 0" using new by simp
    with True new k cnt z False show ?thesis
      by (simp add: other_table_def firsts_snoc record_slot_miss record_slot_free del: replicate_Suc)
  next
    case full: False
    then have "take n (firsts (es @ [m])) = take n (firsts es)"
      "n - length (firsts es) = 0" "n - length (firsts (es @ [m])) = 0"
      by (simp_all add: firsts_snoc)
    with cnt z False show ?thesis
      by (simp add: other_table_def record_slot_miss [where zs = "[]", simplified] del: count_list_append)
  qed
qed

definition is_other :: "u32 \<Rightarrow> bool" where
  "is_other msr \<longleftrightarrow> wrmsr_class msr = wrmsr_exits_others"

lemma other_table_run:
  assumes "mstat_wf s" and "other_msrs s = replicate OTHER_MSRS zero_slot" and "0 \<notin> set es"
    and "foldR record_wrmsr es s = Inr t"
  shows "mstat_wf t \<and> other_msrs t = other_table OTHER_MSRS (filter is_other es)"
  using assms(3,4)
proof (induction es arbitrary: t rule: rev_induct)
  case Nil
  with assms(1,2) show ?case by (simp add: other_table_def firsts_def)
next
  case (snoc e es)
  then obtain u where u: "foldR record_wrmsr es s = Inr u" "record_wrmsr e u = Inr t"
    by (auto simp: foldR_append bindR_Inr_iff)
  with snoc have IH: "mstat_wf u" "other_msrs u = other_table OTHER_MSRS (filter is_other es)"
    by auto
  have "0 \<notin> set (filter is_other es @ [e])" using snoc.prems by auto
  with record_wrmsr_effect [OF IH(1), of e] u(2) IH(2) show ?case
    by (auto simp: is_other_def [of e] other_table_snoc)
qed

section \<open>Properties\<close>

lemma mstat_wf_static: "mstat_wf wrmsr_static"
  by (simp add: mstat_wf_def wrmsr_static_def)

lemma is_other_label: "msr2str e = ''MSR_OTHERS'' \<longleftrightarrow> is_other e"
  using class_label_inj [of "wrmsr_class e" wrmsr_exits_others]
  by (simp add: msr2str_class is_other_def)

lemma count_list_filter: "P m \<Longrightarrow> count_list (filter P es) m = count_list es m"
  by (induction es) auto

lemma report_other_table:
  assumes "mstat_wf t" and "other_msrs t = other_table OTHER_MSRS os" and "0 \<notin> set os"
    and "length os < 2 ^ 32" and "i < OTHER_MSRS"
  shows "report_other_wrmsr (int i) t =
    Inr (if i < length (firsts os) then Some (firsts os ! i, of_nat (count_list os (firsts os ! i)))
         else None)"
proof (cases "i < length (firsts os)")
  case True
  let ?m = "firsts os ! i"
  have m: "?m \<in> set os" using True by (metis nth_mem set_firsts)
  with assms(3) have "?m \<noteq> 0" by metis
  have "count_list os ?m \<le> length os" by (rule count_le_length)
  then have c: "count_list os ?m < 2 ^ 32" using assms(4) by linarith
  have "0 < count_list os ?m" using m by (metis count_list_0_iff gr0I)
  with c have nz: "(of_nat (count_list os ?m) :: u32) \<noteq> 0"
    by (simp add: of_nat_word_nonzero)
  have "other_msrs t ! i = \<lparr>index = ?m, count = of_nat (count_list os ?m)\<rparr>"
    using True assms(5) by (simp add: assms(2) other_table_def nth_append)
  moreover have "i < length (other_msrs t)" using assms(1,5) by (simp add: mstat_wf_def)
  ultimately show ?thesis
    using assms(1) nz \<open>?m \<noteq> 0\<close> True by (simp add: report_other_wrmsr_def mstat_wf_def)
next
  case False
  then have "other_msrs t ! i = zero_slot"
    using assms(5) by (simp add: assms(2) other_table_def nth_append)
  then show ?thesis
    using assms(1,5) False by (simp add: report_other_wrmsr_def mstat_wf_def zero_slot_def)
qed

lemma wrmsr_hits_label:
  "wrmsrs.hits (wrmsr_class m) es = length (filter (\<lambda>e. msr2str e = msr2str m) es)"
  by (simp add: wrmsrs.hits_def msr2str_class class_label_inj)

text \<open>
  C11: the three switch statements agree. After \<open>reset_wrmsr\<close> and any sequence of MSR writes the
  report for an MSR is the number of writes to MSRs that \<open>msr2str\<close> gives the same name; the one
  exception is \<open>MSR_MISC_FEATURES_ENABLES\<close>, whose report counts the writes to
  \<open>MSR_IA32_MISC_ENABLE\<close>.
\<close>

theorem wrmsr_report_counts:
  assumes "mstat_wf s"
  shows "\<exists>t u. reset_wrmsr s = Inr t \<and> foldR record_wrmsr es t = Inr u \<and>
    (\<forall>m. report_wrmsr m u = of_nat (length (filter (\<lambda>e. msr2str e =
       (if m = MSR_MISC_FEATURES_ENABLES then msr2str MSR_IA32_MISC_ENABLE else msr2str m)) es)))"
proof -
  from wrmsrs.run_from_reset [OF assms] obtain u where
    u: "foldR record_wrmsr es (reset_state s) = Inr u"
       "\<forall>v. ctr u v = of_nat (wrmsrs.hits v es)"
    by auto
  have "wrmsr_class MSR_IA32_MISC_ENABLE = wrmsr_exits_set_misc_enable"
    by (simp add: wrmsr_class_def msr_table_def msr_consts)
  then have "report_wrmsr m u = of_nat (length (filter (\<lambda>e. msr2str e =
       (if m = MSR_MISC_FEATURES_ENABLES then msr2str MSR_IA32_MISC_ENABLE else msr2str m)) es))" for m
    using u(2) by (simp add: report_wrmsr_class flip: wrmsr_hits_label)
  with u(1) reset_wrmsr_ok [OF assms] show ?thesis
    by (auto simp: reset_state_def)
qed

theorem wrmsr_report_counts_witness:
  "\<exists>t u. reset_wrmsr wrmsr_static = Inr t \<and> foldR record_wrmsr [0x6e0, 0x830, 0x6e0, 0x140] t = Inr u \<and>
     report_wrmsr 0x6e0 u = 2 \<and> report_wrmsr 0x140 u = 0"
proof -
  have n: "msr2str 0x6e0 = ''MSR_IA32_TSCDEADLINE''" "msr2str 0x830 = ''APIC_ICR''"
    "msr2str 0x140 = ''MSR_MISC_FEATURES_ENABLES''" "msr2str 0x1a0 = ''MSR_IA32_MISC_ENABLE''"
    by (simp_all add: msr2str_def msr_consts in_apic_range_def apic_reg_def)
  from wrmsr_report_counts [OF mstat_wf_static, of "[0x6e0, 0x830, 0x6e0, 0x140]"]
  obtain t u where "reset_wrmsr wrmsr_static = Inr t"
    "foldR record_wrmsr [0x6e0, 0x830, 0x6e0, 0x140] t = Inr u"
    "\<forall>m. report_wrmsr m u = of_nat (length (filter (\<lambda>e. msr2str e =
       (if m = MSR_MISC_FEATURES_ENABLES then msr2str MSR_IA32_MISC_ENABLE else msr2str m))
       [0x6e0, 0x830, 0x6e0, 0x140]))"
    by blast
  then show ?thesis
    by (intro exI [of _ t] exI [of _ u]) (simp add: n msr_consts)
qed

lemma other_reports_after_reset:
  assumes "mstat_wf s" and "0 \<notin> set es" and "length es < 2 ^ 32"
    and "foldR record_wrmsr es (reset_state s) = Inr u"
  shows "\<forall>i<OTHER_MSRS. report_other_wrmsr (int i) u =
    Inr (if i < length (firsts (filter is_other es))
         then Some (firsts (filter is_other es) ! i,
                    of_nat (count_list es (firsts (filter is_other es) ! i)))
         else None)"
proof -
  let ?os = "filter is_other es"
  have "mstat_wf u \<and> other_msrs u = other_table OTHER_MSRS ?os"
    by (rule other_table_run [OF _ _ assms(2,4)])
       (simp_all add: mstat_wf_reset assms(1), simp add: reset_state_def)
  moreover have "0 \<notin> set ?os" "length ?os < 2 ^ 32"
    using assms(2,3) le_less_trans [OF length_filter_le [of is_other es]] by auto
  ultimately have "report_other_wrmsr (int i) u =
      Inr (if i < length (firsts ?os) then Some (firsts ?os ! i, of_nat (count_list ?os (firsts ?os ! i)))
           else None)" if "i < OTHER_MSRS" for i
    using report_other_table that by blast
  moreover have "count_list ?os (firsts ?os ! i) = count_list es (firsts ?os ! i)"
    if "i < length (firsts ?os)" for i
    using nth_mem [OF that] by (intro count_list_filter) simp
  ultimately show ?thesis by auto
qed

text \<open>
  C12: the table of other MSRs. After a reset and fewer than \<open>2 ^ 32\<close> writes, none of them to MSR 0,
  slot \<open>i\<close> reports the \<open>i\<close>-th distinct unclassified MSR in the order of first occurrence with its
  exact number of writes, for the first 128 of them; the slots behind them report nothing.
\<close>

theorem wrmsr_others_table:
  assumes "mstat_wf s" and "0 \<notin> set es" and "length es < 2 ^ 32"
  shows "\<exists>t u. reset_wrmsr s = Inr t \<and> foldR record_wrmsr es t = Inr u \<and>
    (let ms = firsts (filter (\<lambda>e. msr2str e = ''MSR_OTHERS'') es) in
     \<forall>i<OTHER_MSRS. report_other_wrmsr (int i) u =
       Inr (if i < length ms then Some (ms ! i, of_nat (count_list es (ms ! i))) else None))"
proof -
  from wrmsrs.run_from_reset [OF assms(1)] obtain u where
    u: "foldR record_wrmsr es (reset_state s) = Inr u" by auto
  from other_reports_after_reset [OF assms u] u reset_wrmsr_ok [OF assms(1)] show ?thesis
    by (simp add: reset_state_def is_other_label Let_def)
qed

theorem wrmsr_others_table_witness:
  "\<exists>t u. reset_wrmsr wrmsr_static = Inr t \<and> foldR record_wrmsr [0x10, 0x6e0, 0xc0000080, 0x10] t = Inr u \<and>
     report_other_wrmsr 0 u = Inr (Some (0x10, 2)) \<and>
     report_other_wrmsr 1 u = Inr (Some (0xc0000080, 1)) \<and> report_other_wrmsr 2 u = Inr None"
proof -
  let ?es = "[0x10, 0x6e0, 0xc0000080, 0x10] :: u32 list"
  have n: "filter (\<lambda>e. msr2str e = ''MSR_OTHERS'') ?es = [0x10, 0xc0000080, 0x10]"
    by (simp add: msr2str_def msr_consts in_apic_range_def apic_reg_def)
  have f: "firsts [0x10, 0xc0000080, 0x10 :: u32] = [0x10, 0xc0000080]"
    by (simp add: firsts_def)
  from wrmsr_others_table [OF mstat_wf_static, of ?es] obtain t u where
    "reset_wrmsr wrmsr_static = Inr t" "foldR record_wrmsr ?es t = Inr u"
    and r: "\<forall>i<OTHER_MSRS. report_other_wrmsr (int i) u =
       Inr (if i < length [0x10, 0xc0000080 :: u32] then Some ([0x10, 0xc0000080] ! i,
              of_nat (count_list ?es ([0x10, 0xc0000080] ! i))) else None)"
    unfolding n f Let_def by auto
  then show ?thesis
    using r [rule_format, of 0] r [rule_format, of 1] r [rule_format, of 2]
    by (auto simp: OTHER_MSRS_def)
qed

text \<open>
  writes to MSR 0 are charged to another MSR. Index 0 marks a free slot, so \<open>n\<close> writes to MSR 0
  only raise the count of the first free slot, which the next new MSR then takes over together with
  the count.
\<close>

theorem wrmsr_msr0_misattributed:
  assumes "mstat_wf s" and "m \<noteq> 0" and "msr2str m = ''MSR_OTHERS''" and "n + 1 < 2 ^ 32"
  shows "\<exists>t u. reset_wrmsr s = Inr t \<and> foldR record_wrmsr (replicate n 0 @ [m]) t = Inr u \<and>
    report_other_wrmsr 0 u = Inr (Some (m, of_nat (n + 1)))"
proof -
  let ?t = "reset_state s"
  have o0: "wrmsr_class 0 = wrmsr_exits_others"
    by (simp add: wrmsr_class_def msr_table_def msr_consts in_apic_range_def)
  have om: "wrmsr_class m = wrmsr_exits_others"
    using assms(3) by (simp add: is_other_label is_other_def)
  have "\<exists>v. foldR record_wrmsr (replicate n 0) ?t = Inr v \<and> mstat_wf v \<and>
      other_msrs v = \<lparr>index = 0, count = of_nat n\<rparr> # replicate 127 zero_slot"
  proof (induction n)
    case 0
    have "replicate OTHER_MSRS zero_slot = zero_slot # replicate 127 zero_slot"
      by (simp add: OTHER_MSRS_def numeral_eq_Suc)
    then show ?case
      using mstat_wf_reset [OF assms(1)] by (simp add: reset_state_def zero_slot_def)
  next
    case (Suc n)
    then obtain v where v: "foldR record_wrmsr (replicate n 0) ?t = Inr v" "mstat_wf v"
      "other_msrs v = \<lparr>index = 0, count = of_nat n\<rparr> # replicate 127 zero_slot" by blast
    from record_wrmsr_effect [OF v(2), of 0] v show ?case
      by (auto simp: foldR_append o0 add.commute simp flip: replicate_append_same)
  qed
  then obtain v where v: "foldR record_wrmsr (replicate n 0) ?t = Inr v" "mstat_wf v"
    "other_msrs v = \<lparr>index = 0, count = of_nat n\<rparr> # replicate 127 zero_slot" by blast
  from record_wrmsr_effect [OF v(2), of m] v om assms(2) obtain u where
    u: "record_wrmsr m v = Inr u" "mstat_wf u"
       "other_msrs u = \<lparr>index = m, count = of_nat (n + 1)\<rparr> # replicate 127 zero_slot"
    by (auto simp: add.commute)
  have "(of_nat (n + 1) :: u32) \<noteq> 0"
    using assms(4) by (intro of_nat_word_nonzero) simp_all
  with u v assms(1,2) show ?thesis
    by (intro exI [of _ ?t] exI [of _ u])
       (auto simp: foldR_append reset_wrmsr_ok reset_state_def report_other_wrmsr_def mstat_wf_def)
qed

theorem wrmsr_msr0_misattributed_witness:
  "\<exists>t u. reset_wrmsr wrmsr_static = Inr t \<and> foldR record_wrmsr (replicate 3 0 @ [0x10]) t = Inr u \<and>
     report_other_wrmsr 0 u = Inr (Some (0x10, 4))"
  using wrmsr_msr0_misattributed [OF mstat_wf_static, of "0x10" 3]
  by (simp add: msr2str_def msr_consts in_apic_range_def)

text \<open>
  a write to \<open>MSR_MISC_FEATURES_ENABLES\<close> is counted but never shown: recording one leaves every
  report, that MSR's own included, as it was.
\<close>

theorem wrmsr_misc_features_invisible:
  assumes "mstat_wf s"
  shows "\<exists>t. record_wrmsr MSR_MISC_FEATURES_ENABLES s = Inr t \<and>
    (\<forall>m. report_wrmsr m t = report_wrmsr m s) \<and>
    ctr t wrmsr_exits_set_misc_features_enables = ctr s wrmsr_exits_set_misc_features_enables + 1"
proof -
  have c: "wrmsr_class MSR_MISC_FEATURES_ENABLES = wrmsr_exits_set_misc_features_enables"
    by (simp add: wrmsr_class_def msr_table_def msr_consts)
  have "wrmsr_class m \<noteq> wrmsr_exits_set_misc_features_enables" if "m \<noteq> MSR_MISC_FEATURES_ENABLES" for m
    using that unfolding switch_defs by (simp add: msr_consts in_apic_range_def)
  with record_wrmsr_effect [OF assms, of MSR_MISC_FEATURES_ENABLES] show ?thesis
    by (auto simp: c report_wrmsr_class)
qed

theorem wrmsr_misc_features_invisible_witness:
  "\<exists>t. record_wrmsr MSR_MISC_FEATURES_ENABLES wrmsr_static = Inr t \<and>
     report_wrmsr MSR_MISC_FEATURES_ENABLES t = 0"
proof -
  from wrmsr_misc_features_invisible [OF mstat_wf_static] obtain t where
    "record_wrmsr MSR_MISC_FEATURES_ENABLES wrmsr_static = Inr t"
    "report_wrmsr MSR_MISC_FEATURES_ENABLES t = report_wrmsr MSR_MISC_FEATURES_ENABLES wrmsr_static"
    by blast
  then show ?thesis
    by (simp add: report_wrmsr_class [of _ wrmsr_static]) (simp add: wrmsr_static_def)
qed

end
