(* ===== verification/Kvm_Wrmsr.thy ===== *)
theory Kvm_Wrmsr
  imports Wrmsr_Stats
begin

text \<open>
  \<open>debug/kvmwrmsr/kvmwrmsr.c\<close>: the probe on \<open>vmx_set_msr\<close> that counts MSR writes, the periodic report,
  and loading and unloading. What the kernel supplies is a parameter: the value \<open>now\<close> of
  \<open>ktime_get()\<close>, the index of the MSR being written (\<open>msr_info->index\<close>) and the value \<open>ret\<close> that
  \<open>register_kprobe\<close> returns. The 4.19 and pre-4.19 variants of the handler differ only in how they
  obtain \<open>msr_info\<close> and in ending with \<open>jprobe_return\<close>.
\<close>

section \<open>State\<close>

record kwrmsr =
  wrmsr_ktime :: u64         \<comment> \<open>\<open>__ktime\<close>\<close>
  wrmsr_lock :: bool         \<comment> \<open>\<open>showing_lock\<close>\<close>
  total_wrmsr :: u64
  mstat :: wrmsr_stat
  wlog :: "log_line list"
  planted :: bool            \<comment> \<open>whether the kernel has the probe armed\<close>

definition kwrmsr_static :: kwrmsr where
  "kwrmsr_static =
     \<lparr>wrmsr_ktime = 0, wrmsr_lock = False, total_wrmsr = 0, mstat = wrmsr_static, wlog = [],
      planted = False\<rparr>"

section \<open>The report\<close>

definition stat_line :: "u32 \<Rightarrow> wrmsr_stat \<Rightarrow> log_line" where
  "stat_line idx s = (tab @ ''[%s] %ld'', [AStr (msr2str idx), ALong (report_wrmsr idx s)])"

text \<open>The values \<open>show_wrmsr\<close> gives \<open>idx\<close>, in order.\<close>

definition shown_msrs :: "u32 list" where
  "shown_msrs =
    [MSR_IA32_APICBASE,
     MSR_IA32_TSC_ADJUST,
     MSR_IA32_TSCDEADLINE,
     MSR_IA32_MISC_ENABLE,
     MSR_IA32_MCG_STATUS,
     MSR_IA32_MCG_CTL,
     MSR_IA32_MCG_EXT_CTL,
     MSR_IA32_SMBASE,
     MSR_PLATFORM_INFO,
     MSR_MISC_FEATURES_ENABLES,
     MSR_KVM_WALL_CLOCK,
     MSR_KVM_SYSTEM_TIME,
     MSR_CORE_PERF_FIXED_CTR0,
     MSR_CORE_PERF_FIXED_CTR1,
     MSR_CORE_PERF_FIXED_CTR2,
     MSR_CORE_PERF_FIXED_CTR_CTRL,
     MSR_CORE_PERF_GLOBAL_STATUS,
     MSR_CORE_PERF_GLOBAL_CTRL,
     MSR_CORE_PERF_GLOBAL_OVF_CTRL,
     0]"

definition shown_apic :: "u32 list" where
  "shown_apic =
    [apic_msr APIC_TASKPRI,
     apic_msr APIC_EOI,
     apic_msr APIC_LDR,
     apic_msr APIC_DFR,
     apic_msr APIC_SPIV,
     apic_msr APIC_ICR,
     apic_msr APIC_ICR2,
     apic_msr APIC_LVT0,
     apic_msr APIC_LVTT,
     apic_msr APIC_SELF_IPI,
     apic_msr 0]"

function show_others :: "nat \<Rightarrow> wrmsr_stat \<Rightarrow> log_line list res" where
  "show_others idx s =
     (if idx < OTHER_MSRS then
        bindR (report_other_wrmsr (int idx) s) (\<lambda>r.
          case r of
            None \<Rightarrow> Inr []
          | Some (msr, cnt) \<Rightarrow>
              bindR (show_others (Suc idx) s) (\<lambda>ls.
                Inr ((tab @ ''[OTHER MSR 0x%x] %d'', [AUInt msr, AUInt cnt]) # ls)))
      else Inr [])"
  by pat_completeness auto
termination
  by (relation "measure (\<lambda>(idx, s). OTHER_MSRS - idx)") auto

declare show_others.simps [simp del]

definition show_wrmsr :: "kwrmsr \<Rightarrow> kwrmsr res" where
  "show_wrmsr k =
     (let s = mstat k;
          ls = (''WRMSR STATISTIC'', []) # map (\<lambda>idx. stat_line idx s) shown_msrs @
               (''APIC STATISTIC'', []) # map (\<lambda>idx. stat_line idx s) shown_apic
      in bindR (report_other_wrmsr 0 s) (\<lambda>r.
           if r \<noteq> None then
             bindR (show_others 0 s) (\<lambda>os.
             Inr (k\<lparr>wlog := wlog k @ ls @ (''OTHER MSRS STATISTIC'', []) # os\<rparr>))
           else Inr (k\<lparr>wlog := wlog k @ ls\<rparr>)))"

section \<open>The probe\<close>

text \<open>The handler returns 0 on every path.\<close>

definition total_wrmsr_fmt :: string where
  "total_wrmsr_fmt = ''total_wrmsr = %ld''"

definition kp_vmx_set_msr :: "u64 \<Rightarrow> u32 \<Rightarrow> kwrmsr \<Rightarrow> kwrmsr res" where
  "kp_vmx_set_msr now idx k =
     (let k1 = k\<lparr>total_wrmsr := total_wrmsr k + 1\<rparr> in
      bindR (record_wrmsr idx (mstat k1)) (\<lambda>st.
        let k2 = k1\<lparr>mstat := st\<rparr> in
        if sint (now - wrmsr_ktime k2) > 1000 * 1000 * 1000 then
          if wrmsr_lock k2 then Inr k2
          else
            let k3 = k2\<lparr>wrmsr_lock := True,
                        wlog := wlog k2 @ [(total_wrmsr_fmt, [ALong (total_wrmsr k2)])],
                        total_wrmsr := 0\<rparr>
            in bindR (show_wrmsr k3) (\<lambda>k4.
               bindR (reset_wrmsr (mstat k4)) (\<lambda>st4.
               Inr (k4\<lparr>mstat := st4, wrmsr_ktime := now, wrmsr_lock := False\<rparr>)))
        else Inr k2))"

section \<open>Loading and unloading\<close>

definition wrmsr_probe_init :: "int \<Rightarrow> u64 \<Rightarrow> u64 \<Rightarrow> kwrmsr \<Rightarrow> (int \<times> kwrmsr) res" where
  "wrmsr_probe_init ret addr now k =
     (let k1 = k\<lparr>planted := planted k \<or> 0 \<le> ret\<rparr> in
      if ret < 0 then
        Inr (-1, k1\<lparr>wlog := wlog k1 @
          [(''kvmwrmsr : register_probe failed, returned %d'', [AInt ret])]\<rparr>)
      else
        bindR (init_wrmsr (mstat k1)) (\<lambda>st.
        Inr (0, k1\<lparr>wrmsr_lock := False, total_wrmsr := 0, mstat := st, wrmsr_ktime := now,
          wlog := wlog k1 @ [(''kvmwrmsr : planted probe at %p'', [ALong addr])]\<rparr>)))"

definition wrmsr_probe_exit :: "u64 \<Rightarrow> kwrmsr \<Rightarrow> kwrmsr" where
  "wrmsr_probe_exit addr k =
     k\<lparr>planted := False,
       wlog := wlog k @ [(''kvmwrmsr : probe at %p unregistered'', [ALong addr])]\<rparr>"

section \<open>What has been counted, printed or not yet\<close>

definition stat_fmt :: string where
  "stat_fmt = tab @ ''[%s] %ld''"

fun wline_value :: "string option \<Rightarrow> log_line \<Rightarrow> u64" where
  "wline_value None (f, [ALong v]) = (if f = total_wrmsr_fmt then v else 0)"
| "wline_value (Some l) (f, [AStr n, ALong v]) = (if f = stat_fmt \<and> n = l then v else 0)"
| "wline_value _ _ = 0"

definition wprinted :: "string option \<Rightarrow> log_line list \<Rightarrow> u64" where
  "wprinted k log = sum_list (map (wline_value k) log)"

lemma wprinted_append: "wprinted k (xs @ ys) = wprinted k xs + wprinted k ys"
  by (simp add: wprinted_def)

lemma wprinted_Cons: "wprinted k (x # xs) = wline_value k x + wprinted k xs"
  by (simp add: wprinted_def)

lemma shown_classes:
  "map wrmsr_class (shown_msrs @ shown_apic) =
    [wrmsr_exits_set_apic_base, wrmsr_exits_set_tscadjust, wrmsr_exits_set_tscdeadline,
     wrmsr_exits_set_misc_enable, wrmsr_exits_set_mcg_status, wrmsr_exits_set_mcg_ctl,
     wrmsr_exits_set_mcg_ext_ctl, wrmsr_exits_set_smbase, wrmsr_exits_set_platform_info,
     wrmsr_exits_set_misc_features_enables, wrmsr_exits_set_wall_clock,
     wrmsr_exits_set_system_time, wrmsr_exits_set_perf_fixed_ctr0,
     wrmsr_exits_set_perf_fixed_ctr1, wrmsr_exits_set_perf_fixed_ctr2,
     wrmsr_exits_set_perf_fixed_ctr_ctrl, wrmsr_exits_set_perf_global_status,
     wrmsr_exits_set_perf_global_ctrl, wrmsr_exits_set_perf_global_ovf_ctrl,
     wrmsr_exits_others, wrmsr_exits_set_lapic_tpr, wrmsr_exits_set_lapic_eoi,
     wrmsr_exits_set_lapic_ldr, wrmsr_exits_set_lapic_dfr, wrmsr_exits_set_lapic_spiv,
     wrmsr_exits_set_lapic_icr, wrmsr_exits_set_lapic_icr2, wrmsr_exits_set_lapic_lvt,
     wrmsr_exits_set_lapic_lvtt, wrmsr_exits_set_lapic_self_ipi, wrmsr_exits_set_lapic_others]"
  unfolding shown_msrs_def shown_apic_def switch_defs
  by (simp add: msr_consts in_apic_range_def apic_msr_def apic_reg_def)

lemma sum_list_map_single:
  "distinct (map f xs) \<Longrightarrow>
     sum_list (map (\<lambda>x. if f x = v then g (f x) else 0) xs) =
     (if v \<in> f ` set xs then g v else (0::'b::comm_monoid_add))"
  by (induction xs) auto

lemma class_of_misc: "wrmsr_class m = wrmsr_exits_set_misc_features_enables \<longleftrightarrow> m = MSR_MISC_FEATURES_ENABLES"
  unfolding switch_defs by (simp add: msr_consts in_apic_range_def)

lemma stat_lines_value:
  assumes "v \<noteq> wrmsr_exits_set_misc_features_enables"
  shows "wprinted (Some (class_label v)) (map (\<lambda>idx. stat_line idx s) (shown_msrs @ shown_apic)) = ctr s v"
proof -
  let ?xs = "shown_msrs @ shown_apic"
  have "wline_value (Some (class_label v)) (stat_line i s) =
      (if wrmsr_class i = v then ctr s (wrmsr_class i) else 0)" for i
    using assms class_of_misc [of i]
    by (auto simp: stat_line_def stat_fmt_def msr2str_class class_label_inj report_wrmsr_class)
  then have "wprinted (Some (class_label v)) (map (\<lambda>idx. stat_line idx s) ?xs) =
      sum_list (map (\<lambda>i. if wrmsr_class i = v then ctr s (wrmsr_class i) else 0) ?xs)"
    by (simp add: wprinted_def comp_def)
  also have "\<dots> = (if v \<in> wrmsr_class ` set ?xs then ctr s v else 0)"
    by (rule sum_list_map_single) (simp only: shown_classes, simp)
  also have "\<dots> = ctr s v"
    unfolding set_map [symmetric] shown_classes by (cases v) simp_all
  finally show ?thesis by simp
qed

lemma report_other_ok: "mstat_wf s \<Longrightarrow> i < OTHER_MSRS \<Longrightarrow> \<exists>r. report_other_wrmsr (int i) s = Inr r"
  by (simp add: report_other_wrmsr_def mstat_wf_def)

lemma show_others_ok:
  "mstat_wf s \<Longrightarrow> \<exists>ls. show_others idx s = Inr ls \<and> (\<forall>k. wprinted k ls = 0)"
proof (induction idx s rule: show_others.induct)
  case (1 idx s)
  show ?case
  proof (cases "idx < OTHER_MSRS")
    case False
    then show ?thesis by (simp add: show_others.simps [of idx s] wprinted_def)
  next
    case True
    with "1.prems" obtain r where r: "report_other_wrmsr (int idx) s = Inr r"
      using report_other_ok by blast
    show ?thesis
    proof (cases r)
      case None
      with True r show ?thesis by (simp add: show_others.simps [of idx s] wprinted_def)
    next
      case (Some p)
      obtain m c where p: "p = (m, c)" by (cases p)
      have z: "wline_value k (f, [AUInt m, AUInt c]) = 0" for k f
        by (cases k) simp_all
      from "1.IH" [OF True "1.prems"] True r Some p show ?thesis
        by (auto simp: show_others.simps [of idx s] wprinted_Cons z)
    qed
  qed
qed

lemma heading_value [simp]: "wline_value k (f, []) = 0"
  by (cases k) simp_all

lemma stat_line_total [simp]: "wline_value None (stat_line i s) = 0"
  by (simp add: stat_line_def)

lemma show_wrmsr_effect:
  assumes "mstat_wf (mstat k)"
  shows "\<exists>ls. show_wrmsr k = Inr (k\<lparr>wlog := wlog k @ ls\<rparr>) \<and> wprinted None ls = 0 \<and>
    (\<forall>v. v \<noteq> wrmsr_exits_set_misc_features_enables \<longrightarrow>
         wprinted (Some (class_label v)) ls = ctr (mstat k) v)"
proof -
  let ?s = "mstat k"
  let ?ls = "(''WRMSR STATISTIC'', []) # map (\<lambda>idx. stat_line idx ?s) shown_msrs @
             (''APIC STATISTIC'', []) # map (\<lambda>idx. stat_line idx ?s) shown_apic"
  have n: "wprinted None (map (\<lambda>idx. stat_line idx ?s) is) = 0" for "is"
    by (induction "is") (simp_all add: wprinted_def)
  have base: "wprinted None ?ls = 0"
    by (simp add: wprinted_Cons wprinted_append n)
  have named: "wprinted (Some (class_label v)) ?ls = ctr ?s v"
    if "v \<noteq> wrmsr_exits_set_misc_features_enables" for v
    using stat_lines_value [OF that, of ?s] by (simp add: wprinted_Cons wprinted_append)
  obtain r where r: "report_other_wrmsr 0 ?s = Inr r"
    using report_other_ok [OF assms, of 0] by (auto simp: OTHER_MSRS_def)
  obtain os where os: "show_others 0 ?s = Inr os" "\<forall>k. wprinted k os = 0"
    using show_others_ok [OF assms] by blast
  show ?thesis
  proof (cases r)
    case None
    with r base named show ?thesis
      by (intro exI [of _ ?ls]) (simp add: show_wrmsr_def Let_def)
  next
    case (Some p)
    let ?ls' = "?ls @ (''OTHER MSRS STATISTIC'', []) # os"
    have "wprinted key ?ls' = wprinted key ?ls" for key
      using os(2) by (simp add: wprinted_Cons wprinted_append)
    with Some r os(1) base named show ?thesis
      by (intro exI [of _ ?ls']) (simp add: show_wrmsr_def Let_def)
  qed
qed

section \<open>The handler as a tally\<close>

definition kw_wf :: "kwrmsr \<Rightarrow> bool" where
  "kw_wf k \<longleftrightarrow> mstat_wf (mstat k)"

text \<open>
  The accounts: \<open>None\<close> is the total, \<open>Some v\<close> the variable \<open>v\<close>. The variable of
  \<open>MSR_MISC_FEATURES_ENABLES\<close>, which no report shows, has no account.
\<close>

definition waccount :: "wrmsr_var option \<Rightarrow> kwrmsr \<Rightarrow> u64" where
  "waccount a k =
     (case a of
        None \<Rightarrow> wprinted None (wlog k) + total_wrmsr k
      | Some v \<Rightarrow>
          if v = wrmsr_exits_set_misc_features_enables then 0
          else wprinted (Some (class_label v)) (wlog k) + ctr (mstat k) v)"

definition whit :: "u64 \<times> u32 \<Rightarrow> wrmsr_var option \<Rightarrow> bool" where
  "whit e a \<longleftrightarrow>
     (case a of
        None \<Rightarrow> True
      | Some v \<Rightarrow> v \<noteq> wrmsr_exits_set_misc_features_enables \<and> wrmsr_class (snd e) = v)"

definition wrmsr_event :: "u64 \<times> u32 \<Rightarrow> kwrmsr \<Rightarrow> kwrmsr res" where
  "wrmsr_event e k = kp_vmx_set_msr (fst e) (snd e) k"

lemma wrmsr_event_accounts:
  assumes "kw_wf k"
  shows "\<exists>t. wrmsr_event e k = Inr t \<and> kw_wf t \<and>
    (\<forall>a. waccount a t = waccount a k + (if whit e a then 1 else 0))"
proof -
  obtain now idx where e: "e = (now, idx)" by (cases e)
  obtain st where st: "record_wrmsr idx (mstat k) = Inr st" "mstat_wf st"
    "ctr st = (ctr (mstat k))(wrmsr_class idx := ctr (mstat k) (wrmsr_class idx) + 1)"
    using record_wrmsr_effect [of "mstat k" idx] assms by (auto simp: kw_wf_def)
  let ?k2 = "k\<lparr>total_wrmsr := total_wrmsr k + 1, mstat := st\<rparr>"
  have acc2: "waccount a ?k2 = waccount a k + (if whit e a then 1 else 0)" for a
    by (auto simp: waccount_def whit_def e st(3) split: option.split)
  show ?thesis
  proof (cases "sint (now - wrmsr_ktime k) > 1000000000 \<and> \<not> wrmsr_lock k")
    case False
    then have "wrmsr_event e k = Inr ?k2"
      by (auto simp: wrmsr_event_def kp_vmx_set_msr_def e st(1) Let_def)
    with acc2 st(2) show ?thesis by (simp add: kw_wf_def)
  next
    case True
    let ?k3 = "?k2\<lparr>wrmsr_lock := True,
      wlog := wlog k @ [(total_wrmsr_fmt, [ALong (total_wrmsr k + 1)])], total_wrmsr := 0\<rparr>"
    obtain ls where ls: "show_wrmsr ?k3 = Inr (?k3\<lparr>wlog := wlog ?k3 @ ls\<rparr>)" "wprinted None ls = 0"
      "\<forall>v. v \<noteq> wrmsr_exits_set_misc_features_enables \<longrightarrow> wprinted (Some (class_label v)) ls = ctr st v"
      using show_wrmsr_effect [of ?k3] st(2) by auto
    let ?t = "?k3\<lparr>wlog := wlog ?k3 @ ls, mstat := reset_state st, wrmsr_ktime := now,
      wrmsr_lock := False\<rparr>"
    have "wrmsr_event e k = Inr ?t"
      using True ls(1)
      by (simp add: wrmsr_event_def kp_vmx_set_msr_def e st(1) Let_def reset_wrmsr_ok [OF st(2)]
          reset_state_def)
    moreover have "waccount a ?t = waccount a ?k2" for a
      using ls(2,3)
      by (cases a) (auto simp: waccount_def wprinted_append wprinted_Cons reset_state_def
          wprinted_def)
    moreover have "kw_wf ?t" using st(2) by (simp add: kw_wf_def mstat_wf_reset)
    ultimately show ?thesis using acc2 by auto
  qed
qed

interpretation kwrmsrs: tally kw_wf "\<lambda>_. True" wrmsr_event waccount whit
proof
  show "\<exists>t. wrmsr_event e s = Inr t \<and> kw_wf t" if "kw_wf s" for s e
    using wrmsr_event_accounts [OF that] by blast
  show "waccount a t = waccount a s + (if whit e a then 1 else 0)"
    if "kw_wf s" "wrmsr_event e s = Inr t" for s e t a
    using wrmsr_event_accounts [OF that(1), of e] that(2) by auto
qed

section \<open>Total and counters\<close>

definition kw_balanced :: "kwrmsr \<Rightarrow> bool" where
  "kw_balanced k \<longleftrightarrow> kw_wf k \<and> total_wrmsr k = sum (ctr (mstat k)) UNIV"

lemma sum_inc: "sum (c(w := c w + 1)) UNIV = sum c UNIV + (1::u64)" for w :: wrmsr_var
proof -
  have "sum (c(w := c w + 1)) UNIV = (\<Sum>v\<in>UNIV. c v + (if v = w then 1 else 0))"
    by (rule sum.cong) auto
  also have "\<dots> = (\<Sum>v\<in>UNIV. c v) + 1"
    by (simp add: sum.distrib)
  finally show ?thesis .
qed

lemma wrmsr_event_balanced:
  assumes "kw_balanced k" and "wrmsr_event e k = Inr t"
  shows "kw_balanced t"
proof -
  obtain now idx where e: "e = (now, idx)" by (cases e)
  have wf: "mstat_wf (mstat k)" using assms(1) by (simp add: kw_balanced_def kw_wf_def)
  obtain st where st: "record_wrmsr idx (mstat k) = Inr st" "mstat_wf st"
    "ctr st = (ctr (mstat k))(wrmsr_class idx := ctr (mstat k) (wrmsr_class idx) + 1)"
    using record_wrmsr_effect [OF wf, of idx] by blast
  let ?k2 = "k\<lparr>total_wrmsr := total_wrmsr k + 1, mstat := st\<rparr>"
  have b2: "kw_balanced ?k2"
    using assms(1) st(2) by (simp add: kw_balanced_def kw_wf_def st(3) sum_inc del: fun_upd_apply)
  show ?thesis
  proof (cases "sint (now - wrmsr_ktime k) > 1000000000 \<and> \<not> wrmsr_lock k")
    case False
    then have "wrmsr_event e k = Inr ?k2"
      by (auto simp: wrmsr_event_def kp_vmx_set_msr_def e st(1) Let_def)
    with b2 assms(2) show ?thesis by simp
  next
    case True
    let ?k3 = "?k2\<lparr>wrmsr_lock := True,
      wlog := wlog k @ [(total_wrmsr_fmt, [ALong (total_wrmsr k + 1)])], total_wrmsr := 0\<rparr>"
    obtain ls where "show_wrmsr ?k3 = Inr (?k3\<lparr>wlog := wlog ?k3 @ ls\<rparr>)"
      using show_wrmsr_effect [of ?k3] st(2) by auto
    with True assms(2) have "mstat t = reset_state st" "total_wrmsr t = 0"
      by (auto simp: wrmsr_event_def kp_vmx_set_msr_def e st(1) Let_def reset_wrmsr_ok [OF st(2)]
          reset_state_def)
    with st(2) show ?thesis
      by (simp add: kw_balanced_def kw_wf_def mstat_wf_reset) (simp add: reset_state_def)
  qed
qed

lemma show_others_table:
  assumes "mstat_wf s" and "\<forall>i<OTHER_MSRS. report_other_wrmsr (int i) s =
      Inr (if i < length ms then Some (ms ! i, f (ms ! i)) else None)"
  shows "show_others i s =
    Inr (map (\<lambda>m. (tab @ ''[OTHER MSR 0x%x] %d'', [AUInt m, AUInt (f m)])) (drop i (take OTHER_MSRS ms)))"
proof (induction "OTHER_MSRS - i" arbitrary: i)
  case 0
  then show ?case by (simp add: show_others.simps [of i s])
next
  case (Suc n)
  then have i: "i < OTHER_MSRS" by simp
  show ?case
  proof (cases "i < length ms")
    case False
    with i assms(2) show ?thesis by (simp add: show_others.simps [of i s])
  next
    case True
    from Suc have "n = OTHER_MSRS - Suc i" by simp
    from Suc.hyps(1) [OF this] True i assms(2)
    have "show_others i s = Inr ((tab @ ''[OTHER MSR 0x%x] %d'', [AUInt (ms ! i), AUInt (f (ms ! i))]) #
        map (\<lambda>m. (tab @ ''[OTHER MSR 0x%x] %d'', [AUInt m, AUInt (f m)])) (drop (Suc i) (take OTHER_MSRS ms)))"
      by (simp add: show_others.simps [of i s])
    also have "\<dots> = Inr (map (\<lambda>m. (tab @ ''[OTHER MSR 0x%x] %d'', [AUInt m, AUInt (f m)]))
        (drop i (take OTHER_MSRS ms)))"
      using True i Cons_nth_drop_Suc [of i "take OTHER_MSRS ms", symmetric] by simp
    finally show ?thesis .
  qed
qed

section \<open>Properties\<close>

text \<open>
  C10: handlers that run one after the other lose no MSR write and count none twice. Over any sequence of probe
  hits that do not overlap in time, for the total and for each name a report uses except that of
  \<open>MSR_MISC_FEATURES_ENABLES\<close> (whose report repeats another counter), what the log has printed plus what is still
  pending grows by exactly the number of writes with that name (modulo \<open>2 ^ 64\<close>).
\<close>

theorem wrmsr_conservation:
  assumes "kw_wf k"
  shows "\<exists>t. foldR wrmsr_event evs k = Inr t \<and>
    wprinted None (wlog t) + total_wrmsr t =
      wprinted None (wlog k) + total_wrmsr k + of_nat (length evs) \<and>
    (\<forall>m. m \<noteq> MSR_MISC_FEATURES_ENABLES \<longrightarrow>
      wprinted (Some (msr2str m)) (wlog t) + report_wrmsr m (mstat t) =
      wprinted (Some (msr2str m)) (wlog k) + report_wrmsr m (mstat k) +
      of_nat (length (filter (\<lambda>e. msr2str (snd e) = msr2str m) evs)))"
proof -
  from kwrmsrs.run_measure [OF assms, of evs] obtain t where
    t: "foldR wrmsr_event evs k = Inr t"
       "\<And>a. waccount a t = waccount a k + of_nat (kwrmsrs.hits a evs)"
    by auto
  have total: "wprinted None (wlog t) + total_wrmsr t =
      wprinted None (wlog k) + total_wrmsr k + of_nat (length evs)"
    using t(2) [of None] by (simp add: waccount_def kwrmsrs.hits_def whit_def)
  have named: "wprinted (Some (msr2str m)) (wlog t) + report_wrmsr m (mstat t) =
      wprinted (Some (msr2str m)) (wlog k) + report_wrmsr m (mstat k) +
      of_nat (length (filter (\<lambda>e. msr2str (snd e) = msr2str m) evs))"
    if "m \<noteq> MSR_MISC_FEATURES_ENABLES" for m
    using t(2) [of "Some (wrmsr_class m)"] that class_of_misc [of m]
    by (simp add: waccount_def kwrmsrs.hits_def whit_def report_wrmsr_class msr2str_class
        class_label_inj)
  from t(1) total named show ?thesis by blast
qed

lemma kw_wf_static: "kw_wf kwrmsr_static"
  by (simp add: kw_wf_def kwrmsr_static_def mstat_wf_static)

theorem wrmsr_conservation_witness:
  "\<exists>t. foldR wrmsr_event [(5, 0x6e0), (2000000000, 0x830), (2000000001, 0x6e0)] kwrmsr_static = Inr t \<and>
     wprinted None (wlog t) + total_wrmsr t = 3 \<and>
     wprinted (Some ''MSR_IA32_TSCDEADLINE'') (wlog t) + report_wrmsr 0x6e0 (mstat t) = 2"
proof -
  have n: "msr2str 0x6e0 = ''MSR_IA32_TSCDEADLINE''" "msr2str 0x830 = ''APIC_ICR''"
    by (simp_all add: msr2str_def msr_consts in_apic_range_def apic_reg_def)
  have z: "wprinted x (wlog kwrmsr_static) = 0" "total_wrmsr kwrmsr_static = 0"
    "report_wrmsr m (mstat kwrmsr_static) = 0" for x m
    by (simp_all add: kwrmsr_static_def wprinted_def report_wrmsr_class wrmsr_static_def)
  let ?evs = "[(5, 0x6e0), (2000000000, 0x830), (2000000001, 0x6e0)] :: (u64 \<times> u32) list"
  have c: "length (filter (\<lambda>e. msr2str (snd e) = msr2str 0x6e0) ?evs) = 2"
    by (simp add: n)
  from wrmsr_conservation [OF kw_wf_static, of ?evs] obtain t where
    t: "foldR wrmsr_event ?evs kwrmsr_static = Inr t"
       "wprinted None (wlog t) + total_wrmsr t = of_nat (length ?evs)"
       "\<forall>m. m \<noteq> MSR_MISC_FEATURES_ENABLES \<longrightarrow>
      wprinted (Some (msr2str m)) (wlog t) + report_wrmsr m (mstat t) =
      of_nat (length (filter (\<lambda>e. msr2str (snd e) = msr2str m) ?evs))"
    unfolding z by auto
  from spec [OF t(3), of "0x6e0"]
  have "wprinted (Some (msr2str 0x6e0)) (wlog t) + report_wrmsr 0x6e0 (mstat t) = 2"
    unfolding c by (simp add: MSR_MISC_FEATURES_ENABLES_def)
  with t(1,2) show ?thesis by (intro exI [of _ t]) (simp add: n)
qed

text \<open>
  the total the handler keeps is the sum of the thirty-one counters, in every state reached by
  probe hits from a balanced state.
\<close>

theorem wrmsr_total_sum:
  assumes "kw_balanced k" and "foldR wrmsr_event evs k = Inr t"
  shows "total_wrmsr t = (\<Sum>v\<in>UNIV. ctr (mstat t) v)"
proof -
  have "kw_balanced t"
    using assms(2,1) by (rule foldR_inv) (rule wrmsr_event_balanced)
  then show ?thesis by (simp add: kw_balanced_def)
qed

theorem wrmsr_total_sum_witness:
  "\<exists>t. foldR wrmsr_event [(5, 0x6e0), (7, 0x830)] kwrmsr_static = Inr t \<and>
     total_wrmsr t = (\<Sum>v\<in>UNIV. ctr (mstat t) v)"
proof -
  obtain t where t: "foldR wrmsr_event [(5, 0x6e0), (7, 0x830)] kwrmsr_static = Inr t"
    using kwrmsrs.run_measure [OF kw_wf_static, of "[(5, 0x6e0), (7, 0x830)]"] by auto
  have "kw_balanced kwrmsr_static"
    using kw_wf_static by (simp add: kw_balanced_def) (simp add: kwrmsr_static_def wrmsr_static_def)
  from wrmsr_total_sum [OF this t] t show ?thesis by blast
qed

text \<open>
  the list of other MSRs in the report. After a reset and fewer than \<open>2 ^ 32\<close> writes, none of
  them to MSR 0, \<open>show_wrmsr\<close>'s loop prints one line per distinct unclassified MSR, in the order of
  first occurrence and with its exact count, for at most 128 of them.
\<close>

theorem wrmsr_show_others:
  assumes "mstat_wf s" and "0 \<notin> set es" and "length es < 2 ^ 32"
  shows "\<exists>u. foldR record_wrmsr es (reset_state s) = Inr u \<and>
    show_others 0 u = Inr (map (\<lambda>m. (tab @ ''[OTHER MSR 0x%x] %d'',
        [AUInt m, AUInt (of_nat (count_list es m))]))
      (take 128 (firsts (filter (\<lambda>e. msr2str e = ''MSR_OTHERS'') es))))"
proof -
  have "\<exists>u. foldR record_wrmsr es (reset_state s) = Inr u \<and> mstat_wf u"
    using wrmsrs.run_from_reset [OF assms(1), of es] by auto
  then obtain u where u: "foldR record_wrmsr es (reset_state s) = Inr u" "mstat_wf u" by blast
  have "\<forall>i<OTHER_MSRS. report_other_wrmsr (int i) u =
      Inr (if i < length (firsts (filter is_other es))
           then Some (firsts (filter is_other es) ! i,
                      of_nat (count_list es (firsts (filter is_other es) ! i)))
           else None)"
    using other_reports_after_reset [OF assms u(1)] by blast
  from show_others_table [OF u(2) this, of 0] u(1) show ?thesis
    by (auto simp: OTHER_MSRS_def is_other_label)
qed

theorem wrmsr_show_others_witness:
  "\<exists>u. foldR record_wrmsr [0x10, 0x6e0, 0xc0000080, 0x10] (reset_state wrmsr_static) = Inr u \<and>
     show_others 0 u = Inr [(tab @ ''[OTHER MSR 0x%x] %d'', [AUInt 0x10, AUInt 2]),
                            (tab @ ''[OTHER MSR 0x%x] %d'', [AUInt 0xc0000080, AUInt 1])]"
proof -
  have n: "filter (\<lambda>e. msr2str e = ''MSR_OTHERS'') [0x10, 0x6e0, 0xc0000080, 0x10] =
      [0x10, 0xc0000080, 0x10]"
    by (simp add: msr2str_def msr_consts in_apic_range_def apic_reg_def)
  have f: "firsts [0x10, 0xc0000080, 0x10 :: u32] = [0x10, 0xc0000080]"
    by (simp add: firsts_def)
  from wrmsr_show_others [OF mstat_wf_static, of "[0x10, 0x6e0, 0xc0000080, 0x10]"]
  show ?thesis unfolding n f by simp
qed

text \<open>
  loading and unloading. A failed registration returns -1 and leaves the statistics untouched; a
  successful one plants the probe, clears the total and the other-MSR table and starts the clock;
  unloading removes the probe.
\<close>

theorem wrmsr_load_unload:
  assumes "\<not> planted k"
  shows "\<exists>rc t. wrmsr_probe_init ret addr now k = Inr (rc, t) \<and>
    (if ret < 0 then rc = -1 \<and> \<not> planted t \<and> mstat t = mstat k \<and> total_wrmsr t = total_wrmsr k
     else rc = 0 \<and> planted t \<and> total_wrmsr t = 0 \<and> wrmsr_ktime t = now \<and> \<not> wrmsr_lock t \<and>
          mstat_wf (mstat t) \<and> ctr (mstat t) = ctr (mstat k) \<and>
          (\<forall>i<OTHER_MSRS. report_other_wrmsr (int i) (mstat t) = Inr None)) \<and>
    \<not> planted (wrmsr_probe_exit addr t)"
  using assms
  by (auto simp: wrmsr_probe_init_def wrmsr_probe_exit_def init_wrmsr_def reset_other_ok Let_def
      mstat_wf_def report_other_wrmsr_def zero_slot_def)

theorem wrmsr_load_unload_witness:
  "\<exists>t. wrmsr_probe_init (-22) 0 7 kwrmsr_static = Inr (-1, t) \<and> \<not> planted t"
  using wrmsr_load_unload [of kwrmsr_static "-22" 0 7] by (auto simp: kwrmsr_static_def)

end
