(* ===== verification/Ranked_Steps.thy ===== *)
theory Ranked_Steps
  imports Kvm_Prelude
begin

text \<open>
  Runs that end: the contract, as two locales, of a system of processors or threads that take steps. An invariant is
  kept by every step, and a rank falls with it, unless the step leads to where the rank no longer counts
  (\<open>stop\<close>). Then runs are bounded; and when only a final state has no step, every run can be completed. Before it,
  sums of ranks over the members of a list, of which a step moves one.
\<close>

lemma sum_map_update:
  "j < length xs \<Longrightarrow> sum_list (map f (xs[j := x])) + f (xs ! j) = sum_list (map f xs) + (f x :: nat)"
  by (induction xs arbitrary: j) (auto split: nat.splits)

lemma sum_map_less:
  assumes "j < length xs" and "f x < f (xs ! j)"
  shows "sum_list (map f (xs[j := x])) < (sum_list (map f xs) :: nat)"
  using sum_map_update [OF assms(1), of f x] assms(2) by linarith

lemma sum_map_le: "(\<And>x. f x \<le> (m::nat)) \<Longrightarrow> sum_list (map f xs) \<le> m * length xs"
  by (induction xs) (auto intro: add_mono)

locale ranked_steps =
  fixes step :: "'s \<Rightarrow> 's \<Rightarrow> bool"
    and inv :: "'s \<Rightarrow> bool"
    and rank_of :: "'s \<Rightarrow> nat"
    and stop :: "'s \<Rightarrow> bool"
  assumes inv_step: "step b b' \<Longrightarrow> inv b \<Longrightarrow> inv b'"
    and rank_step: "step b b' \<Longrightarrow> inv b \<Longrightarrow> \<not> stop b' \<Longrightarrow> rank_of b' < rank_of b"
    and stop_step: "step b b' \<Longrightarrow> stop b \<Longrightarrow> stop b'"
begin

lemma inv_run: "step\<^sup>*\<^sup>* b b' \<Longrightarrow> inv b \<Longrightarrow> inv b'"
  by (induction rule: rtranclp_induct) (simp_all add: inv_step)

lemma run_bounded: "(step ^^ k) b b' \<Longrightarrow> inv b \<Longrightarrow> \<not> stop b' \<Longrightarrow> k + rank_of b' \<le> rank_of b"
proof (induction k arbitrary: b')
  case (Suc k)
  then obtain c where c: "(step ^^ k) b c" "step c b'" by auto
  then have "inv c" using Suc.prems(2) by (blast intro: inv_run relpowp_imp_rtranclp)
  moreover have "\<not> stop c" using stop_step [OF c(2)] Suc.prems(3) by blast
  ultimately show ?case using Suc.IH [OF c(1) Suc.prems(2)] rank_step [OF c(2) _ Suc.prems(3)] by fastforce
qed simp

end

locale ending_steps = ranked_steps +
  fixes final :: "'a \<Rightarrow> bool"
  assumes step_on: "inv b \<Longrightarrow> \<not> stop b \<Longrightarrow> \<not> final b \<Longrightarrow> \<exists>b'. step b b'"
begin

lemma run_ends: "inv b \<Longrightarrow> \<exists>b'. step\<^sup>*\<^sup>* b b' \<and> inv b' \<and> (stop b' \<or> final b')"
proof (induction "rank_of b" arbitrary: b rule: less_induct)
  case less
  show ?case
  proof (cases "stop b \<or> final b")
    case False
    with step_on less.prems obtain c where c: "step b c" by blast
    show ?thesis
    proof (cases "stop c")
      case True
      with c inv_step less.prems show ?thesis by blast
    next
      case False
      from less.hyps [OF rank_step [OF c less.prems False] inv_step [OF c less.prems]] c show ?thesis
        by (meson converse_rtranclp_into_rtranclp)
    qed
  qed (use less.prems in blast)
qed

end

end
