(* ===== verification/Wrmsr_Race.thy ===== *)
theory Wrmsr_Race
  imports Kvm_Wrmsr Spin_Section Ranked_Steps
begin

text \<open>
  \<open>debug/kvmwrmsr\<close> on several CPUs: the handler of \<open>Kvm_Wrmsr\<close> with \<open>record_wrmsr\<close>, the report and the reset in
  single steps, interleaved by a step relation. Two locks are at work: \<open>showing_lock\<close>, which is only tried, and
  \<open>other_msrs_lock\<close>, for which a CPU spins. The table of other MSRs, which is only touched under the latter,
  stays exact in every interleaving; the plain counters do not; and the table does not survive its initialisation
  while a handler is at work in it.
\<close>

section \<open>The handler in steps\<close>

text \<open>The first argument is \<open>now\<close>; \<open>u32\<close> arguments are the MSR; positions are those of the loops.\<close>

datatype wpc =
    Idle                          \<comment> \<open>no MSR write being handled\<close>
  | Count u64 u32                 \<comment> \<open>before \<open>atomic_long_inc\<close>\<close>
  | Enter u64 u32                 \<comment> \<open>\<open>record_wrmsr\<close> entered\<close>
  | Add u64 u32 u64               \<comment> \<open>the counter has been read, the sum not written yet\<close>
  | Lock u64 u32                  \<comment> \<open>\<open>record_other_wrmsr\<close>: before \<open>spin_lock\<close>\<close>
  | Scan u64 u32 nat              \<comment> \<open>in its loop, at an index\<close>
  | Fill u64 u32 nat              \<comment> \<open>the condition holds at the index\<close>
  | Unlock u64                    \<comment> \<open>before \<open>spin_unlock\<close>\<close>
  | Compare u64                   \<comment> \<open>before the comparison of the times\<close>
  | Try u64                       \<comment> \<open>before \<open>spin_trylock\<close>\<close>
  | Head u64                      \<comment> \<open>before the line of the total\<close>
  | Clear u64                     \<comment> \<open>before \<open>atomic_long_set\<close>\<close>
  | Line u64 nat                  \<comment> \<open>in \<open>show_wrmsr\<close>, before a line of the known MSRs\<close>
  | Ask u64 bool nat              \<comment> \<open>\<open>report_other_wrmsr\<close>: before \<open>spin_lock\<close>; whether it is the first call\<close>
  | Read u64 bool nat             \<comment> \<open>the lock is held\<close>
  | Tell u64 bool nat "(u32 \<times> u32) option"  \<comment> \<open>before \<open>spin_unlock\<close> and the return\<close>
  | OtherHead u64                 \<comment> \<open>the first call found an entry\<close>
  | Other u64 nat                 \<comment> \<open>at the head of the loop over the other MSRs\<close>
  | OtherLine u64 nat "u32 \<times> u32" \<comment> \<open>before the line of an entry\<close>
  | Zero u64 nat                  \<comment> \<open>in \<open>reset_wrmsr\<close>, before an assignment\<close>
  | ResetLock u64                 \<comment> \<open>\<open>reset_other_wrmsr\<close>: before \<open>spin_lock\<close>\<close>
  | Wipe u64                      \<comment> \<open>before \<open>memset\<close>\<close>
  | ResetFree u64                 \<comment> \<open>before \<open>spin_unlock\<close>\<close>
  | Stamp u64                     \<comment> \<open>before the assignment of \<open>__ktime\<close>\<close>
  | Leave                         \<comment> \<open>before \<open>spin_unlock\<close> of \<open>showing_lock\<close>\<close>

text \<open>
  The last two fields are for the specification only: how many writes have been counted, and the MSRs that
  \<open>record_other_wrmsr\<close> has dealt with since the table was last cleared, in the order of its critical sections.
\<close>

record wsys =
  wshared :: kwrmsr
  wcpus :: "wpc list"
  writes :: nat
  tabled :: "u32 list"

text \<open>The lines that \<open>show_wrmsr\<close> prints before it comes to the other MSRs.\<close>

definition stat_report :: "wrmsr_stat \<Rightarrow> log_line list" where
  "stat_report s =
     (''WRMSR STATISTIC'', []) # map (\<lambda>idx. stat_line idx s) shown_msrs @
     (''APIC STATISTIC'', []) # map (\<lambda>idx. stat_line idx s) shown_apic"

definition hits :: "u32 \<Rightarrow> msr_index_count \<Rightarrow> bool" where
  "hits msr e \<longleftrightarrow> msr = index e \<or> index e = 0"

text \<open>
  The next step of CPU \<open>c\<close>. A CPU without a write takes one of the MSR \<open>i\<close>, at the time \<open>now\<close>. \<open>None\<close>: no such
  CPU, a CPU that spins, or a fault.
\<close>

definition wcpu_step :: "nat \<Rightarrow> u32 \<Rightarrow> u64 \<Rightarrow> wsys \<Rightarrow> wsys option" where
  "wcpu_step c i now b =
     (let k = wshared b; s = mstat k;
          goes = (\<lambda>q k'. Some (b\<lparr>wshared := k', wcpus := (wcpus b)[c := q]\<rparr>));
          logs = (\<lambda>q l. Some (b\<lparr>wshared := k\<lparr>wlog := wlog k @ [l]\<rparr>, wcpus := (wcpus b)[c := q]\<rparr>));
          locks = (\<lambda>q. if other_msrs_lock s then None else
            Some (b\<lparr>wshared := k\<lparr>mstat := s\<lparr>other_msrs_lock := True\<rparr>\<rparr>, wcpus := (wcpus b)[c := q]\<rparr>));
          frees = (\<lambda>q. Some (b\<lparr>wshared := k\<lparr>mstat := s\<lparr>other_msrs_lock := False\<rparr>\<rparr>, wcpus := (wcpus b)[c := q]\<rparr>))
      in if length (wcpus b) \<le> c then None
         else case wcpus b ! c of
           Idle \<Rightarrow> goes (Count now i) k
         | Count t m \<Rightarrow> Some (b\<lparr>wshared := k\<lparr>total_wrmsr := total_wrmsr k + 1\<rparr>, wcpus := (wcpus b)[c := Enter t m],
             writes := writes b + 1\<rparr>)
         | Enter t m \<Rightarrow> goes (Add t m (ctr s (wrmsr_class m))) k
         | Add t m v \<Rightarrow> goes (if wrmsr_class m = wrmsr_exits_others then Lock t m else Compare t)
             (k\<lparr>mstat := s\<lparr>ctr := (ctr s)(wrmsr_class m := v + 1)\<rparr>\<rparr>)
         | Lock t m \<Rightarrow> locks (Scan t m 0)
         | Scan t m p \<Rightarrow>
             if p < OTHER_MSRS then
               (case arr_get (other_msrs s) (int p) of
                  Inl e \<Rightarrow> None
                | Inr e \<Rightarrow> if hits m e then goes (Fill t m p) k else goes (Scan t m (Suc p)) k)
             else Some (b\<lparr>wcpus := (wcpus b)[c := Unlock t], tabled := tabled b @ [m]\<rparr>)
         | Fill t m p \<Rightarrow> Some (b\<lparr>wshared := k\<lparr>mstat := s\<lparr>other_msrs := (other_msrs s)
             [p := (other_msrs s ! p)\<lparr>index := m, count := count (other_msrs s ! p) + 1\<rparr>]\<rparr>\<rparr>,
             wcpus := (wcpus b)[c := Unlock t], tabled := tabled b @ [m]\<rparr>)
         | Unlock t \<Rightarrow> frees (Compare t)
         | Compare t \<Rightarrow> if sint (t - wrmsr_ktime k) > 1000 * 1000 * 1000 then goes (Try t) k else goes Idle k
         | Try t \<Rightarrow> if wrmsr_lock k then goes Idle k else goes (Head t) (k\<lparr>wrmsr_lock := True\<rparr>)
         | Head t \<Rightarrow> logs (Clear t) (total_wrmsr_fmt, [ALong (total_wrmsr k)])
         | Clear t \<Rightarrow> goes (Line t 0) (k\<lparr>total_wrmsr := 0\<rparr>)
         | Line t j \<Rightarrow> if j < length (stat_report s) then logs (Line t (Suc j)) (stat_report s ! j)
             else goes (Ask t True 0) k
         | Ask t f j \<Rightarrow> locks (Read t f j)
         | Read t f j \<Rightarrow>
             (case arr_get (other_msrs s) (int j) of
                Inl e \<Rightarrow> None
              | Inr e \<Rightarrow> goes (Tell t f j (if index e \<noteq> 0 \<and> count e \<noteq> 0 then Some (index e, count e) else None)) k)
         | Tell t f j r \<Rightarrow> frees (case r of None \<Rightarrow> Zero t 0 | Some e \<Rightarrow> if f then OtherHead t else OtherLine t j e)
         | OtherHead t \<Rightarrow> logs (Other t 0) (''OTHER MSRS STATISTIC'', [])
         | Other t j \<Rightarrow> goes (if j < OTHER_MSRS then Ask t False j else Zero t 0) k
         | OtherLine t j e \<Rightarrow> logs (Other t (Suc j)) (tab @ ''[OTHER MSR 0x%x] %d'', [AUInt (fst e), AUInt (snd e)])
         | Zero t j \<Rightarrow> if j < length reset_vars
             then goes (Zero t (Suc j)) (k\<lparr>mstat := s\<lparr>ctr := (ctr s)(reset_vars ! j := 0)\<rparr>\<rparr>)
             else goes (ResetLock t) k
         | ResetLock t \<Rightarrow> locks (Wipe t)
         | Wipe t \<Rightarrow> Some (b\<lparr>wshared := k\<lparr>mstat := s\<lparr>other_msrs := replicate OTHER_MSRS zero_slot\<rparr>\<rparr>,
             wcpus := (wcpus b)[c := ResetFree t], tabled := []\<rparr>)
         | ResetFree t \<Rightarrow> frees (Stamp t)
         | Stamp t \<Rightarrow> goes Leave (k\<lparr>wrmsr_ktime := t\<rparr>)
         | Leave \<Rightarrow> goes Idle (k\<lparr>wrmsr_lock := False\<rparr>))"

inductive wstep :: "wsys \<Rightarrow> wsys \<Rightarrow> bool" where
  cpu: "wcpu_step c i now b = Some b' \<Longrightarrow> wstep b b'"

inductive_cases wstepE: "wstep b b'"

abbreviation wruns :: "wsys \<Rightarrow> wsys \<Rightarrow> bool" where
  "wruns \<equiv> wstep\<^sup>*\<^sup>*"

section \<open>The two locks\<close>

definition in_table :: "wpc \<Rightarrow> bool" where
  "in_table q \<longleftrightarrow> (case q of Scan t m p \<Rightarrow> True | Fill t m p \<Rightarrow> True | Unlock t \<Rightarrow> True | Read t f j \<Rightarrow> True
     | Tell t f j r \<Rightarrow> True | Wipe t \<Rightarrow> True | ResetFree t \<Rightarrow> True | _ \<Rightarrow> False)"

definition in_wreport :: "wpc \<Rightarrow> bool" where
  "in_wreport q \<longleftrightarrow> (case q of Idle \<Rightarrow> False | Count t m \<Rightarrow> False | Enter t m \<Rightarrow> False | Add t m v \<Rightarrow> False
     | Lock t m \<Rightarrow> False | Scan t m p \<Rightarrow> False | Fill t m p \<Rightarrow> False | Unlock t \<Rightarrow> False | Compare t \<Rightarrow> False
     | Try t \<Rightarrow> False | _ \<Rightarrow> True)"

lemma wstep_moves:
  assumes "wcpu_step c i now b = Some b'"
  shows "c < length (wcpus b)" and "wcpus b' = (wcpus b)[c := wcpus b' ! c]"
proof -
  show c: "c < length (wcpus b)" using assms by (simp add: wcpu_step_def Let_def split: if_splits)
  obtain q where "wcpus b' = (wcpus b)[c := q]"
    using assms by (cases "wcpus b ! c") (auto simp: wcpu_step_def Let_def split: if_splits sum.splits)
  with c show "wcpus b' = (wcpus b)[c := wcpus b' ! c]" by simp
qed

lemma table_section:
  assumes "wcpu_step c i now b = Some b'"
  shows "if in_table (wcpus b ! c)
    then other_msrs_lock (mstat (wshared b')) = (other_msrs_lock (mstat (wshared b)) \<and> in_table (wcpus b' ! c))
    else if in_table (wcpus b' ! c)
    then \<not> other_msrs_lock (mstat (wshared b)) \<and> other_msrs_lock (mstat (wshared b'))
    else other_msrs_lock (mstat (wshared b')) = other_msrs_lock (mstat (wshared b))"
  using assms wstep_moves(1) [OF assms]
  by (cases "wcpus b ! c")
     (auto simp: wcpu_step_def Let_def in_table_def split: if_splits sum.splits option.splits)

lemma report_section:
  assumes "wcpu_step c i now b = Some b'"
  shows "if in_wreport (wcpus b ! c)
    then wrmsr_lock (wshared b') = (wrmsr_lock (wshared b) \<and> in_wreport (wcpus b' ! c))
    else if in_wreport (wcpus b' ! c) then \<not> wrmsr_lock (wshared b) \<and> wrmsr_lock (wshared b')
    else wrmsr_lock (wshared b') = wrmsr_lock (wshared b)"
  using assms wstep_moves(1) [OF assms]
  by (cases "wcpus b ! c")
     (auto simp: wcpu_step_def Let_def in_wreport_def split: if_splits sum.splits option.splits)

interpretation table: spin_section wstep wcpus "\<lambda>b. other_msrs_lock (mstat (wshared b))" in_table
  by unfold_locales (metis wstepE wstep_moves table_section)

interpretation wreport: spin_section wstep wcpus "\<lambda>b. wrmsr_lock (wshared b)" in_wreport
  by unfold_locales (metis wstepE wstep_moves report_section)

section \<open>The table of other MSRs\<close>

lemma record_slot_none: "\<forall>j < length es. \<not> hits m (es ! j) \<Longrightarrow> record_slot m es = es"
  by (induction es) (auto simp: hits_def All_less_Suc2)

lemma record_slot_at:
  "p < length es \<Longrightarrow> hits m (es ! p) \<Longrightarrow> \<forall>j < p. \<not> hits m (es ! j) \<Longrightarrow>
     record_slot m es = es[p := (es ! p)\<lparr>index := m, count := count (es ! p) + 1\<rparr>]"
proof (induction es arbitrary: p)
  case (Cons e es)
  then show ?case by (cases p) (auto simp: hits_def All_less_Suc2)
qed simp

text \<open>What a CPU in the loop of \<open>record_other_wrmsr\<close> knows of the table.\<close>

definition scanned :: "msr_index_count list \<Rightarrow> wpc \<Rightarrow> bool" where
  "scanned es q \<longleftrightarrow>
     (case q of
        Scan t m p \<Rightarrow> p \<le> OTHER_MSRS \<and> (\<forall>j<p. \<not> hits m (es ! j))
      | Fill t m p \<Rightarrow> p < OTHER_MSRS \<and> hits m (es ! p) \<and> (\<forall>j<p. \<not> hits m (es ! j))
      | _ \<Rightarrow> True)"

definition table_inv :: "wsys \<Rightarrow> bool" where
  "table_inv b \<longleftrightarrow>
     occupants in_table (wcpus b) = (if other_msrs_lock (mstat (wshared b)) then 1 else 0) \<and>
     length (other_msrs (mstat (wshared b))) = OTHER_MSRS \<and>
     (0 \<notin> set (tabled b) \<longrightarrow> other_msrs (mstat (wshared b)) = other_table OTHER_MSRS (tabled b)) \<and>
     (\<forall>c < length (wcpus b). scanned (other_msrs (mstat (wshared b))) (wcpus b ! c))"

lemma scanned_outside: "\<not> in_table q \<Longrightarrow> scanned es q"
  by (cases q) (simp_all add: scanned_def in_table_def)

text \<open>Outside the loop's end and the two stores a step leaves the table and its history alone.\<close>

lemma table_frame:
  assumes "wcpu_step c i now b = Some b'" and "\<forall>t m p. wcpus b ! c \<noteq> Fill t m p" and "\<forall>t. wcpus b ! c \<noteq> Wipe t"
    and "\<forall>t m p. wcpus b ! c \<noteq> Scan t m p"
  shows "other_msrs (mstat (wshared b')) = other_msrs (mstat (wshared b)) \<and> tabled b' = tabled b \<and>
    scanned (other_msrs (mstat (wshared b'))) (wcpus b' ! c)"
  using assms wstep_moves(1) [OF assms(1)]
  by (cases "wcpus b ! c")
     (auto simp: wcpu_step_def Let_def scanned_def split: if_splits sum.splits option.splits)

lemma table_inv_others:
  assumes st: "wcpu_step c i now b = Some b'" and inv: "table_inv b"
    and len: "length (other_msrs (mstat (wshared b'))) = OTHER_MSRS"
    and tab: "0 \<notin> set (tabled b') \<longrightarrow> other_msrs (mstat (wshared b')) = other_table OTHER_MSRS (tabled b')"
    and own: "scanned (other_msrs (mstat (wshared b'))) (wcpus b' ! c)"
    and same: "\<not> in_table (wcpus b ! c) \<Longrightarrow> other_msrs (mstat (wshared b')) = other_msrs (mstat (wshared b))"
  shows "table_inv b'"
proof -
  note c = wstep_moves(1) [OF st] and mv = wstep_moves(2) [OF st]
  have occ: "occupants in_table (wcpus b) = (if other_msrs_lock (mstat (wshared b)) then 1 else 0)"
    using inv by (simp add: table_inv_def)
  have "scanned (other_msrs (mstat (wshared b'))) (wcpus b' ! d)" if d: "d < length (wcpus b')" for d
  proof (cases "d = c")
    case True
    then show ?thesis using own by simp
  next
    case False
    then have q: "wcpus b' ! d = wcpus b ! d" by (subst mv) simp
    have dl: "d < length (wcpus b)" using d by (subst (asm) mv) simp
    show ?thesis
    proof (cases "in_table (wcpus b ! c)")
      case True
      then have "\<not> in_table (wcpus b ! d)"
        using table.alone(2) [OF rtranclp.rtrancl_refl occ c True dl] False by blast
      then show ?thesis unfolding q by (rule scanned_outside)
    next
      case False
      then show ?thesis unfolding same [OF False] q using inv dl by (simp add: table_inv_def)
    qed
  qed
  moreover have "occupants in_table (wcpus b') = (if other_msrs_lock (mstat (wshared b')) then 1 else 0)"
    using table.exclusive_step [OF wstep.cpu [OF st] occ] .
  ultimately show ?thesis using len tab by (simp add: table_inv_def)
qed

lemma table_inv_step:
  assumes st: "wcpu_step c i now b = Some b'" and inv: "table_inv b"
  shows "table_inv b'"
proof -
  let ?es = "other_msrs (mstat (wshared b))"
  note c = wstep_moves(1) [OF st]
  have len: "length ?es = OTHER_MSRS" and tab: "0 \<notin> set (tabled b) \<Longrightarrow> ?es = other_table OTHER_MSRS (tabled b)"
    and sc: "scanned ?es (wcpus b ! c)"
    using inv c by (simp_all add: table_inv_def)
  note rule = table_inv_others [OF st inv]
  consider (scan) t m p where "wcpus b ! c = Scan t m p" | (fill) t m p where "wcpus b ! c = Fill t m p"
    | (wipe) t where "wcpus b ! c = Wipe t"
    | (rest) "\<forall>t m p. wcpus b ! c \<noteq> Fill t m p" "\<forall>t. wcpus b ! c \<noteq> Wipe t" "\<forall>t m p. wcpus b ! c \<noteq> Scan t m p"
    by blast
  then show ?thesis
  proof cases
    case scan
    show ?thesis
    proof (cases "p < OTHER_MSRS")
      case True
      have "other_msrs (mstat (wshared b')) = ?es" "tabled b' = tabled b"
        "wcpus b' ! c = (if hits m (?es ! p) then Fill t m p else Scan t m (Suc p))"
        using st c scan True len by (auto simp: wcpu_step_def Let_def split: if_splits)
      with len tab sc scan True show ?thesis
        by (intro rule) (auto simp: scanned_def less_Suc_eq)
    next
      case False
      then have p: "p = length ?es" using sc scan len by (simp add: scanned_def)
      have full: "record_slot m ?es = ?es"
        using sc scan by (intro record_slot_none) (simp add: scanned_def p)
      have "other_msrs (mstat (wshared b')) = ?es" "tabled b' = tabled b @ [m]" "wcpus b' ! c = Unlock t"
        using st c scan False by (auto simp: wcpu_step_def Let_def)
      with len tab full other_table_snoc [of "tabled b" m OTHER_MSRS] show ?thesis
        by (intro rule) (auto simp: scanned_def)
    qed
  next
    case fill
    have at: "record_slot m ?es = ?es[p := (?es ! p)\<lparr>index := m, count := count (?es ! p) + 1\<rparr>]"
      using sc fill len by (intro record_slot_at) (auto simp: scanned_def)
    have "other_msrs (mstat (wshared b')) = record_slot m ?es" "tabled b' = tabled b @ [m]" "wcpus b' ! c = Unlock t"
      using st c fill by (auto simp: wcpu_step_def Let_def at)
    with len tab fill other_table_snoc [of "tabled b" m OTHER_MSRS] show ?thesis
      by (intro rule) (auto simp: scanned_def in_table_def)
  next
    case wipe
    have "other_msrs (mstat (wshared b')) = replicate OTHER_MSRS zero_slot" "tabled b' = []" "wcpus b' ! c = ResetFree t"
      using st c wipe by (auto simp: wcpu_step_def Let_def)
    with wipe show ?thesis
      by (intro rule) (auto simp: scanned_def in_table_def other_table_def firsts_def)
  next
    case rest
    from table_frame [OF st rest] len tab show ?thesis
      by (intro rule) auto
  qed
qed

lemma table_inv_runs: "wruns b b' \<Longrightarrow> table_inv b \<Longrightarrow> table_inv b'"
  by (induction rule: rtranclp_induct) (auto elim: wstepE intro: table_inv_step)

text \<open>
  C14: the table of other MSRs is exact on every number of CPUs. In every interleaving of handlers, reports and
  resets from an empty table with no handler at work, whenever nobody holds its lock, MSR 0 is not among the
  MSRs recorded since the last reset and these are fewer than \<open>2 ^ 32\<close>, the entries reported are the first 128
  distinct ones of them, in the order of their first critical sections, each with its exact count: while the plain
  counters can lose writes, the locked table cannot.
\<close>

theorem others_exact:
  assumes "wruns b b'" and "wcpus b = replicate n Idle" and "mstat_wf (mstat (wshared b))"
    and "other_msrs (mstat (wshared b)) = replicate OTHER_MSRS zero_slot" and "tabled b = []"
    and "\<not> other_msrs_lock (mstat (wshared b'))" and "0 \<notin> set (tabled b')" and "length (tabled b') < 2 ^ 32"
    and "i < OTHER_MSRS"
  shows "report_other_wrmsr (int i) (mstat (wshared b')) =
    Inr (if i < length (firsts (tabled b'))
         then Some (firsts (tabled b') ! i, of_nat (count_list (tabled b') (firsts (tabled b') ! i))) else None)"
proof -
  have "table_inv b"
    using assms(2-5)
    by (auto simp: table_inv_def mstat_wf_def occupants_replicate in_table_def scanned_def other_table_def firsts_def)
  then have inv: "table_inv b'" by (rule table_inv_runs [OF assms(1)])
  then have "other_msrs (mstat (wshared b')) = other_table OTHER_MSRS (tabled b')"
    using assms(7) by (simp add: table_inv_def)
  moreover have "mstat_wf (mstat (wshared b'))"
    using inv assms(6) by (simp add: table_inv_def mstat_wf_def)
  ultimately show ?thesis using assms(7-9) by (intro report_other_table)
qed

section \<open>A handler without interference\<close>

text \<open>System \<open>b\<close> with CPU \<open>c\<close> at \<open>q\<close>, shared state \<open>k\<close>, \<open>w\<close> writes counted and \<open>h\<close> as the history of the table.\<close>

definition wat :: "wsys \<Rightarrow> nat \<Rightarrow> kwrmsr \<Rightarrow> wpc \<Rightarrow> nat \<Rightarrow> u32 list \<Rightarrow> wsys" where
  "wat b c k q w h = b\<lparr>wshared := k, wcpus := (wcpus b)[c := q], writes := w, tabled := h\<rparr>"

lemma wat_fields [simp]:
  "wshared (wat b c k q w h) = k" "writes (wat b c k q w h) = w" "tabled (wat b c k q w h) = h"
  "wcpus (wat b c k q w h) = (wcpus b)[c := q]"
  "(wat b c k q w h)\<lparr>wshared := k', wcpus := (wcpus b)[c := q']\<rparr> = wat b c k' q' w h"
  "(wat b c k q w h)\<lparr>wshared := k', wcpus := (wcpus b)[c := q'], writes := w'\<rparr> = wat b c k' q' w' h"
  "(wat b c k q w h)\<lparr>wshared := k', wcpus := (wcpus b)[c := q'], tabled := h'\<rparr> = wat b c k' q' w h'"
  "(wat b c k q w h)\<lparr>wcpus := (wcpus b)[c := q'], tabled := h'\<rparr> = wat b c k q' w h'"
  by (simp_all add: wat_def)

lemma wat_step:
  assumes "wcpu_step c i now (wat b c k q w h) = Some (wat b c k' q' w' h')" and "wruns (wat b c k' q' w' h') b'"
  shows "wruns (wat b c k q w h) b'"
  using wstep.cpu [OF assms(1)] assms(2) by (rule converse_rtranclp_into_rtranclp)

lemmas wat_one = wat_step [OF _ rtranclp.rtrancl_refl]

text \<open>The loop passes the entries that do not match.\<close>

lemma solo_find:
  assumes c: "c < length (wcpus b)" and len: "length (other_msrs (mstat k)) = OTHER_MSRS"
  shows "p \<le> OTHER_MSRS \<Longrightarrow> \<forall>j<p. \<not> hits m (other_msrs (mstat k) ! j) \<Longrightarrow>
    wruns (wat b c k (Scan t m 0) w h) (wat b c k (Scan t m p) w h)"
proof (induction p)
  case (Suc p)
  have "wcpu_step c m 0 (wat b c k (Scan t m p) w h) = Some (wat b c k (Scan t m (Suc p)) w h)"
    using c len Suc.prems by (simp add: wcpu_step_def Let_def)
  with Suc show ?case by (auto intro: rtranclp_trans wat_one)
qed simp

lemma solo_scan:
  assumes c: "c < length (wcpus b)" and len: "length (other_msrs (mstat k)) = OTHER_MSRS"
  shows "wruns (wat b c k (Scan t m 0) w h)
      (wat b c (k\<lparr>mstat := (mstat k)\<lparr>other_msrs := record_slot m (other_msrs (mstat k))\<rparr>\<rparr>) (Unlock t) w (h @ [m]))"
proof (cases "\<exists>p<OTHER_MSRS. hits m (other_msrs (mstat k) ! p)")
  case False
  then have "record_slot m (other_msrs (mstat k)) = other_msrs (mstat k)"
    using len by (intro record_slot_none) auto
  moreover have "wcpu_step c m 0 (wat b c k (Scan t m OTHER_MSRS) w h) = Some (wat b c k (Unlock t) w (h @ [m]))"
    using c by (simp add: wcpu_step_def Let_def)
  ultimately show ?thesis
    using rtranclp_trans [OF solo_find [OF c len order_refl] wat_one] False by auto
next
  case True
  then obtain p where p: "p < OTHER_MSRS" "hits m (other_msrs (mstat k) ! p)" "\<forall>j<p. \<not> hits m (other_msrs (mstat k) ! j)"
    using exists_least_iff [of "\<lambda>p. p < OTHER_MSRS \<and> hits m (other_msrs (mstat k) ! p)"] by (meson order.strict_trans)
  let ?e = "other_msrs (mstat k) ! p"
  have "record_slot m (other_msrs (mstat k)) = (other_msrs (mstat k))[p := ?e\<lparr>index := m, count := count ?e + 1\<rparr>]"
    using p len by (intro record_slot_at) simp_all
  moreover have "wcpu_step c m 0 (wat b c k (Scan t m p) w h) = Some (wat b c k (Fill t m p) w h)"
    "wcpu_step c m 0 (wat b c k (Fill t m p) w h) = Some (wat b c (k\<lparr>mstat := (mstat k)\<lparr>other_msrs :=
      (other_msrs (mstat k))[p := ?e\<lparr>index := m, count := count ?e + 1\<rparr>]\<rparr>\<rparr>) (Unlock t) w (h @ [m]))"
    using c p len by (simp_all add: wcpu_step_def Let_def)
  ultimately show ?thesis
    using rtranclp_trans [OF solo_find [OF c len less_imp_le [OF p(1)] p(3)] wat_step [OF _ wat_one]] by metis
qed

lemma solo_add:
  assumes c: "c < length (wcpus b)" and wf: "mstat_wf (mstat k)" and m: "wrmsr_class m = wrmsr_exits_others"
  shows "wruns (wat b c k (Add t m v) w h)
    (wat b c (k\<lparr>mstat := (mstat k)\<lparr>ctr := (ctr (mstat k))(wrmsr_exits_others := v + 1),
      other_msrs := record_slot m (other_msrs (mstat k))\<rparr>\<rparr>) (Compare t) w (h @ [m]))"
proof -
  let ?s = "(mstat k)\<lparr>ctr := (ctr (mstat k))(wrmsr_exits_others := v + 1)\<rparr>"
  let ?k1 = "k\<lparr>mstat := ?s\<rparr>" and ?l = "k\<lparr>mstat := ?s\<lparr>other_msrs_lock := True\<rparr>\<rparr>"
  let ?m = "?l\<lparr>mstat := (mstat ?l)\<lparr>other_msrs := record_slot m (other_msrs (mstat ?l))\<rparr>\<rparr>"
  have s1: "wcpu_step c m 0 (wat b c k (Add t m v) w h) = Some (wat b c ?k1 (Lock t m) w h)"
    using c m by (simp add: wcpu_step_def Let_def)
  have s2: "wcpu_step c m 0 (wat b c ?k1 (Lock t m) w h) = Some (wat b c ?l (Scan t m 0) w h)"
    using c wf by (simp add: wcpu_step_def Let_def mstat_wf_def)
  have r: "wruns (wat b c ?l (Scan t m 0) w h) (wat b c ?m (Unlock t) w (h @ [m]))"
    by (rule solo_scan [OF c]) (use wf in \<open>simp add: mstat_wf_def\<close>)
  have s3: "wcpu_step c m 0 (wat b c ?m (Unlock t) w (h @ [m])) = Some (wat b c (k\<lparr>mstat := ?s\<lparr>other_msrs :=
      record_slot m (other_msrs (mstat k))\<rparr>\<rparr>) (Compare t) w (h @ [m]))"
    using c wf by (simp add: wcpu_step_def Let_def mstat_wf_def)
  show ?thesis using wat_step [OF s1 wat_step [OF s2 rtranclp_trans [OF r wat_one [OF s3]]]] by simp
qed

lemma solo_record:
  assumes c: "c < length (wcpus b)" and wf: "mstat_wf (mstat k)" and rec: "record_wrmsr m (mstat k) = Inr st"
  shows "\<exists>h'. wruns (wat b c k (Enter t m) w h) (wat b c (k\<lparr>mstat := st\<rparr>) (Compare t) w h')"
proof -
  let ?v = "ctr (mstat k) (wrmsr_class m)"
  have s1: "wcpu_step c m 0 (wat b c k (Enter t m) w h) = Some (wat b c k (Add t m ?v) w h)"
    using c by (simp add: wcpu_step_def Let_def)
  show ?thesis
  proof (cases "wrmsr_class m = wrmsr_exits_others")
    case False
    have "wcpu_step c m 0 (wat b c k (Add t m ?v) w h) = Some (wat b c (k\<lparr>mstat := st\<rparr>) (Compare t) w h)"
      using c False rec by (simp add: wcpu_step_def Let_def record_wrmsr_class inc_def)
    with s1 show ?thesis by (meson wat_step wat_one)
  next
    case True
    have "st = (mstat k)\<lparr>ctr := (ctr (mstat k))(wrmsr_exits_others := ?v + 1),
        other_msrs := record_slot m (other_msrs (mstat k))\<rparr>"
      using rec True wf by (simp add: record_wrmsr_class record_other_ok mstat_wf_def inc_def)
    with wat_step [OF s1 solo_add [OF c wf True]] show ?thesis by auto
  qed
qed

lemma solo_lines:
  assumes c: "c < length (wcpus b)"
  shows "j \<le> length (stat_report (mstat k)) \<Longrightarrow>
    wruns (wat b c k (Line t j) w h)
      (wat b c (k\<lparr>wlog := wlog k @ drop j (stat_report (mstat k))\<rparr>) (Ask t True 0) w h)"
proof (induction "length (stat_report (mstat k)) - j" arbitrary: j k)
  case 0
  then have "wcpu_step c 0 0 (wat b c k (Line t j) w h) = Some (wat b c k (Ask t True 0) w h)"
    using c by (simp add: wcpu_step_def Let_def)
  with 0 show ?case by (auto intro: wat_one)
next
  case (Suc n)
  let ?ls = "stat_report (mstat k)" and ?k = "k\<lparr>wlog := wlog k @ [stat_report (mstat k) ! j]\<rparr>"
  have j: "j < length ?ls" using Suc.hyps(2) by simp
  have "wcpu_step c 0 0 (wat b c k (Line t j) w h) = Some (wat b c ?k (Line t (Suc j)) w h)"
    using c j by (simp add: wcpu_step_def Let_def)
  moreover have "wruns (wat b c ?k (Line t (Suc j)) w h)
      (wat b c (?k\<lparr>wlog := wlog ?k @ drop (Suc j) (stat_report (mstat ?k))\<rparr>) (Ask t True 0) w h)"
    using Suc.hyps(2) j by (intro Suc.hyps(1)) simp_all
  ultimately show ?case using j by (simp add: Cons_nth_drop_Suc wat_step)
qed

text \<open>One call of \<open>report_other_wrmsr\<close> and its return.\<close>

definition after_tell :: "u64 \<Rightarrow> bool \<Rightarrow> nat \<Rightarrow> (u32 \<times> u32) option \<Rightarrow> wpc" where
  "after_tell t f j r = (case r of None \<Rightarrow> Zero t 0 | Some e \<Rightarrow> if f then OtherHead t else OtherLine t j e)"

lemma solo_ask:
  assumes c: "c < length (wcpus b)" and r: "report_other_wrmsr (int j) (mstat k) = Inr r"
  shows "wruns (wat b c k (Ask t f j) w h) (wat b c k (after_tell t f j r) w h)"
proof -
  let ?l = "k\<lparr>mstat := (mstat k)\<lparr>other_msrs_lock := True\<rparr>\<rparr>"
  have free: "\<not> other_msrs_lock (mstat k)" using r by (auto simp: report_other_wrmsr_def spin_lock_def)
  obtain e where e: "arr_get (other_msrs (mstat k)) (int j) = Inr e"
    and re: "r = (if index e \<noteq> 0 \<and> count e \<noteq> 0 then Some (index e, count e) else None)"
    using r free by (auto simp: report_other_wrmsr_def bindR_Inr_iff split: if_splits)
  have s1: "wcpu_step c 0 0 (wat b c k (Ask t f j) w h) = Some (wat b c ?l (Read t f j) w h)"
    using c free by (simp add: wcpu_step_def Let_def)
  have s2: "wcpu_step c 0 0 (wat b c ?l (Read t f j) w h) = Some (wat b c ?l (Tell t f j r) w h)"
    using c by (simp add: wcpu_step_def Let_def e re)
  have "k\<lparr>mstat := (mstat k)\<lparr>other_msrs_lock := False\<rparr>\<rparr> = k" using free by simp
  then have s3: "wcpu_step c 0 0 (wat b c ?l (Tell t f j r) w h) = Some (wat b c k (after_tell t f j r) w h)"
    using c by (simp add: wcpu_step_def Let_def after_tell_def)
  show ?thesis by (rule wat_step [OF s1 wat_step [OF s2 wat_one [OF s3]]])
qed

lemma solo_others:
  assumes c: "c < length (wcpus b)"
  shows "show_others j (mstat k) = Inr ls \<Longrightarrow>
    wruns (wat b c k (Other t j) w h) (wat b c (k\<lparr>wlog := wlog k @ ls\<rparr>) (Zero t 0) w h)"
proof (induction "OTHER_MSRS - j" arbitrary: j k ls)
  case 0
  then have "wcpu_step c 0 0 (wat b c k (Other t j) w h) = Some (wat b c k (Zero t 0) w h)" "ls = []"
    using c by (simp_all add: wcpu_step_def Let_def show_others.simps [of j])
  then show ?case by (auto intro: wat_one)
next
  case (Suc n)
  then have j: "j < OTHER_MSRS" "n = OTHER_MSRS - Suc j" by simp_all
  obtain r where r: "report_other_wrmsr (int j) (mstat k) = Inr r"
    using Suc.prems j by (auto simp: show_others.simps [of j] bindR_Inr_iff)
  have s1: "wcpu_step c 0 0 (wat b c k (Other t j) w h) = Some (wat b c k (Ask t False j) w h)"
    using c j by (simp add: wcpu_step_def Let_def)
  note ask = wat_step [OF s1 solo_ask [OF c r]]
  show ?case
  proof (cases r)
    case None
    then have "ls = []" using Suc.prems j r by (simp add: show_others.simps [of j])
    with ask None show ?thesis by (simp add: after_tell_def)
  next
    case (Some e)
    let ?l = "(tab @ ''[OTHER MSR 0x%x] %d'', [AUInt (fst e), AUInt (snd e)])"
    let ?k = "k\<lparr>wlog := wlog k @ [?l]\<rparr>"
    obtain rest where rest: "show_others (Suc j) (mstat ?k) = Inr rest" "ls = ?l # rest"
      using Suc.prems j r Some by (auto simp: show_others.simps [of j] bindR_Inr_iff split: prod.splits)
    have s2: "wcpu_step c 0 0 (wat b c k (OtherLine t j e) w h) = Some (wat b c ?k (Other t (Suc j)) w h)"
      using c by (simp add: wcpu_step_def Let_def)
    have "wruns (wat b c k (Other t j) w h) (wat b c k (OtherLine t j e) w h)"
      using ask Some by (simp add: after_tell_def)
    from rtranclp_trans [OF this wat_step [OF s2 Suc.hyps(1) [OF j(2) rest(1)]]] rest(2) show ?thesis by simp
  qed
qed

lemma solo_zero:
  assumes c: "c < length (wcpus b)"
  shows "j \<le> length reset_vars \<Longrightarrow> wruns (wat b c k (Zero t j) w h)
    (wat b c (k\<lparr>mstat := (mstat k)\<lparr>ctr := foldl (\<lambda>c v. c(v := 0)) (ctr (mstat k)) (drop j reset_vars)\<rparr>\<rparr>)
      (ResetLock t) w h)"
proof (induction "length reset_vars - j" arbitrary: j k)
  case 0
  then have "wcpu_step c 0 0 (wat b c k (Zero t j) w h) = Some (wat b c k (ResetLock t) w h)"
    using c by (simp add: wcpu_step_def Let_def)
  with 0 show ?case by (auto intro: wat_one)
next
  case (Suc n)
  let ?k = "k\<lparr>mstat := (mstat k)\<lparr>ctr := (ctr (mstat k))(reset_vars ! j := 0)\<rparr>\<rparr>"
  have j: "j < length reset_vars" using Suc.hyps(2) by simp
  have "wcpu_step c 0 0 (wat b c k (Zero t j) w h) = Some (wat b c ?k (Zero t (Suc j)) w h)"
    using c j by (simp add: wcpu_step_def Let_def)
  moreover have "wruns (wat b c ?k (Zero t (Suc j)) w h)
      (wat b c (?k\<lparr>mstat := (mstat ?k)\<lparr>ctr := foldl (\<lambda>c v. c(v := 0)) (ctr (mstat ?k)) (drop (Suc j) reset_vars)\<rparr>\<rparr>)
        (ResetLock t) w h)"
    using Suc.hyps(2) j by (intro Suc.hyps(1)) simp_all
  ultimately show ?case using j by (simp add: Cons_nth_drop_Suc [symmetric] wat_step del: fun_upd_apply)
qed

lemma solo_show_wrmsr:
  assumes c: "c < length (wcpus b)" and sh: "show_wrmsr k = Inr k'"
  shows "wruns (wat b c k (Line t 0) w h) (wat b c k' (Zero t 0) w h)"
proof -
  let ?k1 = "k\<lparr>wlog := wlog k @ stat_report (mstat k)\<rparr>"
  obtain r where r: "report_other_wrmsr (int 0) (mstat ?k1) = Inr r"
    using sh by (auto simp: show_wrmsr_def Let_def bindR_Inr_iff)
  have lines: "wruns (wat b c k (Line t 0) w h) (wat b c ?k1 (Ask t True 0) w h)"
    using solo_lines [OF c, of 0 k t w h] by simp
  note asked = rtranclp_trans [OF lines solo_ask [OF c r]]
  show ?thesis
  proof (cases r)
    case None
    then have "k' = ?k1" using sh r by (simp add: show_wrmsr_def Let_def stat_report_def)
    with asked None show ?thesis by (simp add: after_tell_def)
  next
    case (Some e)
    let ?k2 = "?k1\<lparr>wlog := wlog ?k1 @ [(''OTHER MSRS STATISTIC'', [])]\<rparr>"
    obtain os where os: "show_others 0 (mstat ?k2) = Inr os"
      and k': "k' = ?k2\<lparr>wlog := wlog ?k2 @ os\<rparr>"
      using sh r Some by (auto simp: show_wrmsr_def Let_def bindR_Inr_iff stat_report_def)
    have s: "wcpu_step c 0 0 (wat b c ?k1 (OtherHead t) w h) = Some (wat b c ?k2 (Other t 0) w h)"
      using c by (simp add: wcpu_step_def Let_def)
    have "wruns (wat b c k (Line t 0) w h) (wat b c ?k1 (OtherHead t) w h)"
      using asked Some by (simp add: after_tell_def)
    from rtranclp_trans [OF this wat_step [OF s solo_others [OF c os]]] show ?thesis by (simp only: k')
  qed
qed

lemma solo_reset:
  assumes c: "c < length (wcpus b)" and rs: "reset_wrmsr (mstat k) = Inr st"
  shows "wruns (wat b c k (Zero t 0) w h)
    (wat b c (k\<lparr>mstat := st, wrmsr_ktime := t, wrmsr_lock := False\<rparr>) Idle w [])"
proof -
  let ?s = "(mstat k)\<lparr>ctr := foldl (\<lambda>c v. c(v := 0)) (ctr (mstat k)) reset_vars\<rparr>"
  let ?k1 = "k\<lparr>mstat := ?s\<rparr>" and ?k2 = "k\<lparr>mstat := ?s\<lparr>other_msrs_lock := True\<rparr>\<rparr>"
  let ?k3 = "k\<lparr>mstat := ?s\<lparr>other_msrs := replicate OTHER_MSRS zero_slot, other_msrs_lock := True\<rparr>\<rparr>"
  have free: "\<not> other_msrs_lock (mstat k)"
    using rs by (auto simp: reset_wrmsr_def reset_other_wrmsr_def spin_lock_def)
  then have st: "st = ?s\<lparr>other_msrs := replicate OTHER_MSRS zero_slot, other_msrs_lock := False\<rparr>"
    using rs by (simp add: reset_wrmsr_def reset_other_wrmsr_def)
  have s0: "wruns (wat b c k (Zero t 0) w h) (wat b c ?k1 (ResetLock t) w h)"
    using solo_zero [OF c, of 0 k t w h] by simp
  have s1: "wcpu_step c 0 0 (wat b c ?k1 (ResetLock t) w h) = Some (wat b c ?k2 (Wipe t) w h)"
    using c free by (simp add: wcpu_step_def Let_def)
  have s2: "wcpu_step c 0 0 (wat b c ?k2 (Wipe t) w h) = Some (wat b c ?k3 (ResetFree t) w [])"
    using c by (simp add: wcpu_step_def Let_def)
  have s3: "wcpu_step c 0 0 (wat b c ?k3 (ResetFree t) w []) = Some (wat b c (k\<lparr>mstat := st\<rparr>) (Stamp t) w [])"
    using c by (simp add: wcpu_step_def Let_def st)
  have s4: "wcpu_step c 0 0 (wat b c (k\<lparr>mstat := st\<rparr>) (Stamp t) w []) =
      Some (wat b c (k\<lparr>mstat := st, wrmsr_ktime := t\<rparr>) Leave w [])"
    using c by (simp add: wcpu_step_def Let_def)
  have s5: "wcpu_step c 0 0 (wat b c (k\<lparr>mstat := st, wrmsr_ktime := t\<rparr>) Leave w []) =
      Some (wat b c (k\<lparr>mstat := st, wrmsr_ktime := t, wrmsr_lock := False\<rparr>) Idle w [])"
    using c by (simp add: wcpu_step_def Let_def)
  show ?thesis
    by (rule rtranclp_trans [OF s0 wat_step [OF s1 wat_step [OF s2 wat_step [OF s3 wat_step [OF s4 wat_one [OF s5]]]]]])
qed

lemma solo_write:
  assumes c: "c < length (wcpus b)" and wf: "kw_wf k" and kp: "kp_vmx_set_msr now i k = Inr k'"
  shows "\<exists>h'. wruns (wat b c k Idle w h) (wat b c k' Idle (Suc w) h')"
proof -
  let ?k1 = "k\<lparr>total_wrmsr := total_wrmsr k + 1\<rparr>"
  obtain st where st: "record_wrmsr i (mstat ?k1) = Inr st"
    using kp by (auto simp: kp_vmx_set_msr_def Let_def bindR_Inr_iff)
  let ?k2 = "?k1\<lparr>mstat := st\<rparr>"
  have s1: "wcpu_step c i now (wat b c k Idle w h) = Some (wat b c k (Count now i) w h)"
    and s2: "wcpu_step c i now (wat b c k (Count now i) w h) = Some (wat b c ?k1 (Enter now i) (Suc w) h)"
    using c by (simp_all add: wcpu_step_def Let_def)
  obtain h2 where rec: "wruns (wat b c ?k1 (Enter now i) (Suc w) h) (wat b c ?k2 (Compare now) (Suc w) h2)"
    using solo_record [OF c _ st, of now "Suc w" h] wf by (auto simp: kw_wf_def)
  note start = wat_step [OF s1 wat_step [OF s2 rec]]
  consider (early) "\<not> sint (now - wrmsr_ktime k) > 1000 * 1000 * 1000"
    | (busy) "sint (now - wrmsr_ktime k) > 1000 * 1000 * 1000" "wrmsr_lock k"
    | (due) "sint (now - wrmsr_ktime k) > 1000 * 1000 * 1000" "\<not> wrmsr_lock k" by blast
  then show ?thesis
  proof cases
    case early
    then have "k' = ?k2" using kp st by (simp add: kp_vmx_set_msr_def Let_def)
    moreover have "wcpu_step c i now (wat b c ?k2 (Compare now) (Suc w) h2) = Some (wat b c ?k2 Idle (Suc w) h2)"
      using c early by (simp add: wcpu_step_def Let_def)
    ultimately show ?thesis using start by (meson rtranclp_trans wat_one)
  next
    case busy
    then have "k' = ?k2" using kp st by (simp add: kp_vmx_set_msr_def Let_def)
    moreover have "wcpu_step c i now (wat b c ?k2 (Compare now) (Suc w) h2) = Some (wat b c ?k2 (Try now) (Suc w) h2)"
      "wcpu_step c i now (wat b c ?k2 (Try now) (Suc w) h2) = Some (wat b c ?k2 Idle (Suc w) h2)"
      using c busy by (simp_all add: wcpu_step_def Let_def)
    ultimately show ?thesis using start by (meson rtranclp_trans wat_step wat_one)
  next
    case due
    let ?k3 = "?k2\<lparr>wrmsr_lock := True\<rparr>"
    let ?k4 = "?k3\<lparr>wlog := wlog ?k3 @ [(total_wrmsr_fmt, [ALong (total_wrmsr ?k3)])]\<rparr>"
    let ?k5 = "?k4\<lparr>total_wrmsr := 0\<rparr>"
    obtain k6 st6 where k6: "show_wrmsr ?k5 = Inr k6" and st6: "reset_wrmsr (mstat k6) = Inr st6"
      and k': "k' = k6\<lparr>mstat := st6, wrmsr_ktime := now, wrmsr_lock := False\<rparr>"
      using kp st due by (auto simp: kp_vmx_set_msr_def Let_def bindR_Inr_iff)
    have "wcpu_step c i now (wat b c ?k2 (Compare now) (Suc w) h2) = Some (wat b c ?k2 (Try now) (Suc w) h2)"
      "wcpu_step c i now (wat b c ?k2 (Try now) (Suc w) h2) = Some (wat b c ?k3 (Head now) (Suc w) h2)"
      "wcpu_step c i now (wat b c ?k3 (Head now) (Suc w) h2) = Some (wat b c ?k4 (Clear now) (Suc w) h2)"
      "wcpu_step c i now (wat b c ?k4 (Clear now) (Suc w) h2) = Some (wat b c ?k5 (Line now 0) (Suc w) h2)"
      using c due by (simp_all add: wcpu_step_def Let_def)
    note steps = this
    have "wruns (wat b c ?k5 (Line now 0) (Suc w) h2) (wat b c k' Idle (Suc w) [])"
      unfolding k' by (rule rtranclp_trans [OF solo_show_wrmsr [OF c k6] solo_reset [OF c st6]])
    from rtranclp_trans [OF start wat_step [OF steps(1) wat_step [OF steps(2) wat_step [OF steps(3) wat_step [OF steps(4) this]]]]]
    show ?thesis by blast
  qed
qed

text \<open>
  C13: the handler as one operation is a correct abstraction of its steps on runs without interference: the state
  that a sequence of whole handlers leads to is the one the same handlers reach step by step on any CPUs, with
  the search of the table, the two locks, the lines of the report and the assignments of the reset one by one.
\<close>

theorem wrmsr_handlers_refine:
  assumes "kw_wf k" and "foldR (\<lambda>(c, e). wrmsr_event e) ces k = Inr k'" and "\<forall>ce \<in> set ces. fst ce < n"
  shows "\<exists>h'. wruns \<lparr>wshared = k, wcpus = replicate n Idle, writes = w, tabled = h\<rparr>
    \<lparr>wshared = k', wcpus = replicate n Idle, writes = w + length ces, tabled = h'\<rparr>"
  using assms
proof (induction ces arbitrary: k w h)
  case Nil
  then show ?case by auto
next
  case (Cons ce ces)
  obtain c e where ce: "ce = (c, e)" by (cases ce)
  obtain k1 where k1: "kp_vmx_set_msr (fst e) (snd e) k = Inr k1"
    and rest: "foldR (\<lambda>(c, e). wrmsr_event e) ces k1 = Inr k'"
    using Cons.prems(2) by (simp add: ce bindR_Inr_iff) (auto simp: wrmsr_event_def)
  have wf: "kw_wf k1"
    using wrmsr_event_accounts [OF Cons.prems(1), of e] k1 by (auto simp: wrmsr_event_def)
  let ?b = "\<lparr>wshared = k, wcpus = replicate n Idle, writes = w, tabled = h\<rparr>"
  have c: "c < length (wcpus ?b)" using Cons.prems(3) by (simp add: ce)
  then have id: "(replicate n Idle)[c := Idle] = replicate n Idle"
    by (metis list_update_id nth_replicate wsys.select_convs(2) length_replicate)
  obtain h1 where "wruns (wat ?b c k Idle w h) (wat ?b c k1 Idle (Suc w) h1)"
    using solo_write [OF c Cons.prems(1) k1] by blast
  moreover obtain h2 where "wruns \<lparr>wshared = k1, wcpus = replicate n Idle, writes = Suc w, tabled = h1\<rparr>
      \<lparr>wshared = k', wcpus = replicate n Idle, writes = Suc w + length ces, tabled = h2\<rparr>"
    using Cons.IH [OF wf rest, of "Suc w" h1] Cons.prems(3) by auto
  ultimately show ?case by (intro exI [of _ h2]) (simp add: wat_def id)
qed

section \<open>A handler ends\<close>

text \<open>An upper bound of the steps a CPU still makes before it is idle again.\<close>

definition wrank :: "wpc \<Rightarrow> nat" where
  "wrank q =
     (case q of
        Idle \<Rightarrow> 0 | Leave \<Rightarrow> 1 | Stamp t \<Rightarrow> 2 | ResetFree t \<Rightarrow> 3 | Wipe t \<Rightarrow> 4 | ResetLock t \<Rightarrow> 5
      | Zero t j \<Rightarrow> 6 + (31 - j)
      | Other t j \<Rightarrow> 40 + 5 * (128 - j) | Ask t f j \<Rightarrow> (if f then 684 else 39 + 5 * (128 - j))
      | Read t f j \<Rightarrow> (if f then 683 else 38 + 5 * (128 - j)) | Tell t f j r \<Rightarrow> (if f then 682 else 37 + 5 * (128 - j))
      | OtherLine t j e \<Rightarrow> 36 + 5 * (128 - j)
      | OtherHead t \<Rightarrow> 681 | Line t j \<Rightarrow> 685 + (33 - j) | Clear t \<Rightarrow> 719 | Head t \<Rightarrow> 720 | Try t \<Rightarrow> 721
      | Compare t \<Rightarrow> 722 | Unlock t \<Rightarrow> 723 | Fill t m p \<Rightarrow> 724 | Scan t m p \<Rightarrow> 725 + (128 - p)
      | Lock t m \<Rightarrow> 854 | Add t m v \<Rightarrow> 855 | Enter t m \<Rightarrow> 856 | Count t m \<Rightarrow> 857)"

definition wpc_wf :: "wpc \<Rightarrow> bool" where
  "wpc_wf q \<longleftrightarrow> (case q of Ask t f j \<Rightarrow> j < OTHER_MSRS | Read t f j \<Rightarrow> j < OTHER_MSRS | Tell t f j r \<Rightarrow> j < OTHER_MSRS
     | OtherLine t j e \<Rightarrow> j < OTHER_MSRS | _ \<Rightarrow> True)"

lemma length_stat_report: "length (stat_report s) = 33"
  by (simp add: stat_report_def shown_msrs_def shown_apic_def)

lemma length_reset_vars: "length reset_vars = 31"
  by (simp add: reset_vars_def)

lemma wrank_step:
  assumes "wcpu_step c i now b = Some b'" and "wpc_wf (wcpus b ! c)"
  shows "wpc_wf (wcpus b' ! c) \<and> (wcpus b ! c \<noteq> Idle \<longrightarrow> wrank (wcpus b' ! c) < wrank (wcpus b ! c)) \<and>
    length (other_msrs (mstat (wshared b'))) = (if \<exists>t. wcpus b ! c = Wipe t then OTHER_MSRS
      else length (other_msrs (mstat (wshared b))))"
  using assms wstep_moves(1) [OF assms(1)]
  by (cases "wcpus b ! c")
     (auto simp: wcpu_step_def Let_def wrank_def wpc_wf_def OTHER_MSRS_def length_stat_report length_reset_vars
       split: if_splits sum.splits option.splits)

text \<open>A CPU that does not step is at one of the three places where it spins, with the lock held.\<close>

lemma wcpu_progress:
  assumes "c < length (wcpus b)" and "wpc_wf (wcpus b ! c)" and "length (other_msrs (mstat (wshared b))) = OTHER_MSRS"
    and "\<not> other_msrs_lock (mstat (wshared b)) \<or> in_table (wcpus b ! c)"
  shows "\<exists>b'. wcpu_step c i now b = Some b'"
  using assms
  by (cases "wcpus b ! c")
     (auto simp: wcpu_step_def Let_def wpc_wf_def in_table_def OTHER_MSRS_def split: if_splits option.splits)

definition wsys_wf :: "wsys \<Rightarrow> bool" where
  "wsys_wf b \<longleftrightarrow> length (other_msrs (mstat (wshared b))) = OTHER_MSRS \<and> (\<forall>q \<in> set (wcpus b). wpc_wf q) \<and>
     occupants in_table (wcpus b) = (if other_msrs_lock (mstat (wshared b)) then 1 else 0)"

lemma wsys_wf_step:
  assumes "wcpu_step c i now b = Some b'" and "wsys_wf b"
  shows "wsys_wf b'"
proof -
  note c = wstep_moves(1) [OF assms(1)]
  have "wpc_wf (wcpus b ! c)" using assms(2) c by (simp add: wsys_wf_def)
  note s = wrank_step [OF assms(1) this]
  have "set (wcpus b') \<subseteq> insert (wcpus b' ! c) (set (wcpus b))"
    using set_update_subset_insert [of "wcpus b" c "wcpus b' ! c"] unfolding wstep_moves(2) [OF assms(1), symmetric] .
  with s assms(2) table.exclusive_step [OF wstep.cpu [OF assms(1)]] show ?thesis
    unfolding wsys_wf_def by (metis insert_iff subset_iff)
qed

lemma wsys_wf_runs: "wruns b b' \<Longrightarrow> wsys_wf b \<Longrightarrow> wsys_wf b'"
  by (induction rule: rtranclp_induct) (auto elim: wstepE intro: wsys_wf_step)

text \<open>The work left on all CPUs together.\<close>

definition wwork :: "wsys \<Rightarrow> nat" where
  "wwork b = sum_list (map wrank (wcpus b))"

lemma wwork_step:
  assumes "wcpu_step c i now b = Some b'" and "wsys_wf b" and "wcpus b ! c \<noteq> Idle"
  shows "wwork b' < wwork b"
proof -
  note c = wstep_moves(1) [OF assms(1)]
  have "wpc_wf (wcpus b ! c)" using assms(2) c by (simp add: wsys_wf_def)
  with wrank_step [OF assms(1)] assms(3) have "wrank (wcpus b' ! c) < wrank (wcpus b ! c)" by blast
  from sum_map_less [of c "wcpus b" wrank, OF c this] show ?thesis
    unfolding wwork_def wstep_moves(2) [OF assms(1), symmetric] .
qed

lemma busy_steps:
  assumes "wsys_wf b" and "c < length (wcpus b)" and "wcpus b ! c \<noteq> Idle"
  shows "\<exists>d b'. wcpu_step d 0 0 b = Some b' \<and> wcpus b ! d \<noteq> Idle"
proof (cases "other_msrs_lock (mstat (wshared b))")
  case False
  then show ?thesis using wcpu_progress [of c b 0 0] assms by (auto simp: wsys_wf_def)
next
  case True
  then have "occupants in_table (wcpus b) \<noteq> 0" using assms(1) by (simp add: wsys_wf_def)
  then obtain d where d: "d < length (wcpus b)" "in_table (wcpus b ! d)" by (auto simp: occupants_none)
  then have "wcpus b ! d \<noteq> Idle" by (auto simp: in_table_def)
  then show ?thesis using wcpu_progress [of d b 0 0] d assms(1) by (auto simp: wsys_wf_def)
qed

inductive busy_step :: "wsys \<Rightarrow> wsys \<Rightarrow> bool" where   \<comment> \<open>no CPU begins a handler\<close>
  busy: "wcpu_step c i now b = Some b' \<Longrightarrow> wcpus b ! c \<noteq> Idle \<Longrightarrow> busy_step b b'"

interpretation handlers: ending_steps busy_step wsys_wf wwork "\<lambda>_. False" "\<lambda>b. \<forall>q \<in> set (wcpus b). q = Idle"
proof
  fix b assume "wsys_wf b" and "\<not> (\<forall>q \<in> set (wcpus b). q = Idle)"
  then show "\<exists>b'. busy_step b b'" using busy_steps [of b] by (metis busy in_set_conv_nth)
qed (auto elim!: busy_step.cases intro: wsys_wf_step wwork_step)

lemma quiesces:
  assumes "wsys_wf b"
  shows "\<exists>b'. wruns b b' \<and> (\<forall>q \<in> set (wcpus b'). q = Idle)"
proof -
  have "busy_step\<^sup>*\<^sup>* c d \<Longrightarrow> wruns c d" for c d
    by (erule rtranclp_mono [THEN predicate2D, rotated]) (auto elim: busy_step.cases intro: wstep.cpu)
  with handlers.run_ends [OF assms] show ?thesis by blast
qed

text \<open>
  C15: no handler spins for ever. However the handlers, reports and resets of the CPUs have interleaved, as long
  as one CPU is busy some busy CPU has a step, every step of a busy CPU reduces the work that is left, and all CPUs
  can come to the end of their handlers.
\<close>

theorem wrmsr_no_deadlock:
  assumes "wruns b b'" and "wcpus b = replicate n Idle" and "mstat_wf (mstat (wshared b))"
  shows "((\<exists>q \<in> set (wcpus b'). q \<noteq> Idle) \<longrightarrow>
      (\<exists>c i now b''. wcpu_step c i now b' = Some b'' \<and> wcpus b' ! c \<noteq> Idle \<and> wwork b'' < wwork b')) \<and>
    (\<forall>c i now b''. wcpu_step c i now b' = Some b'' \<and> wcpus b' ! c \<noteq> Idle \<longrightarrow> wwork b'' < wwork b') \<and>
    (\<exists>b''. wruns b' b'' \<and> wcpus b'' = replicate n Idle)"
proof -
  have "wsys_wf b"
    using assms(2,3) by (simp add: wsys_wf_def mstat_wf_def wpc_wf_def occupants_replicate in_table_def)
  then have wf: "wsys_wf b'" by (rule wsys_wf_runs [OF assms(1)])
  obtain b'' where r: "wruns b' b''" "\<forall>q \<in> set (wcpus b''). q = Idle" using quiesces [OF wf] by blast
  have "length (wcpus b'') = n"
    using table.length_pcs [OF rtranclp_trans [OF assms(1) r(1)]] assms(2) by simp
  with r have "\<exists>b''. wruns b' b'' \<and> wcpus b'' = replicate n Idle" by (metis replicate_length_same)
  moreover have "\<exists>c i now b''. wcpu_step c i now b' = Some b'' \<and> wcpus b' ! c \<noteq> Idle \<and> wwork b'' < wwork b'"
    if "q \<in> set (wcpus b')" "q \<noteq> Idle" for q
    using busy_steps [OF wf] wwork_step [OF _ wf] that by (metis in_set_conv_nth)
  ultimately show ?thesis using wwork_step [OF _ wf] by blast
qed

section \<open>What is lost\<close>

lemma wat_self: "c < length (wcpus b) \<Longrightarrow> wat b c (wshared b) (wcpus b ! c) (writes b) (tabled b) = b"
  by (simp add: wat_def)

text \<open>A CPU that has read the counter of the unknown MSRs finishes, when no second has passed.\<close>

lemma finish_other:
  assumes c: "c < length (wcpus b)" and q: "wcpus b ! c = Add (wrmsr_ktime (wshared b)) m v"
    and wf: "mstat_wf (mstat (wshared b))" and m: "wrmsr_class m = wrmsr_exits_others"
  shows "wruns b (b\<lparr>wshared := (wshared b)\<lparr>mstat := (mstat (wshared b))\<lparr>ctr := (ctr (mstat (wshared b)))
      (wrmsr_exits_others := v + 1), other_msrs := record_slot m (other_msrs (mstat (wshared b)))\<rparr>\<rparr>,
      wcpus := (wcpus b)[c := Idle], tabled := tabled b @ [m]\<rparr>)"
proof -
  let ?k = "(wshared b)\<lparr>mstat := (mstat (wshared b))\<lparr>ctr := (ctr (mstat (wshared b)))
      (wrmsr_exits_others := v + 1), other_msrs := record_slot m (other_msrs (mstat (wshared b)))\<rparr>\<rparr>"
  let ?t = "wrmsr_ktime (wshared b)"
  have "wcpu_step c 0 0 (wat b c ?k (Compare ?t) (writes b) (tabled b @ [m])) =
      Some (wat b c ?k Idle (writes b) (tabled b @ [m]))"
    using c by (simp add: wcpu_step_def Let_def)
  from rtranclp_trans [OF solo_add [OF c wf m, of ?t v "writes b" "tabled b"] wat_one [OF this]]
  show ?thesis using wat_self [OF c] q by (simp add: wat_def)
qed

lemma start_write:
  assumes c: "c < length (wcpus b)" and q: "wcpus b ! c = Idle"
  shows "wruns b (b\<lparr>wshared := (wshared b)\<lparr>total_wrmsr := total_wrmsr (wshared b) + 1\<rparr>,
    wcpus := (wcpus b)[c := Add t m (ctr (mstat (wshared b)) (wrmsr_class m))], writes := Suc (writes b)\<rparr>)"
proof -
  let ?k = "wshared b"
  let ?k1 = "?k\<lparr>total_wrmsr := total_wrmsr ?k + 1\<rparr>"
  have "wcpu_step c m t (wat b c ?k Idle (writes b) (tabled b)) = Some (wat b c ?k (Count t m) (writes b) (tabled b))"
    "wcpu_step c m t (wat b c ?k (Count t m) (writes b) (tabled b)) =
      Some (wat b c ?k1 (Enter t m) (Suc (writes b)) (tabled b))"
    "wcpu_step c m t (wat b c ?k1 (Enter t m) (Suc (writes b)) (tabled b)) =
      Some (wat b c ?k1 (Add t m (ctr (mstat ?k) (wrmsr_class m))) (Suc (writes b)) (tabled b))"
    using c by (simp_all add: wcpu_step_def Let_def)
  from wat_step [OF this(1) wat_step [OF this(2) wat_one [OF this(3)]]]
  show ?thesis using wat_self [OF c] q by (simp add: wat_def)
qed

text \<open>
  the counter of the unknown MSRs and the table disagree. From any state in which two CPUs are idle and the
  table is free, both can write an unknown MSR so that the table records both writes and the total grows by two,
  while \<open>wrmsr_exits_others\<close>, a plain counter, grows by one only.
\<close>

theorem others_counter_disagrees:
  assumes "c < length (wcpus b)" and "d < length (wcpus b)" and "c \<noteq> d" and "wcpus b ! c = Idle" and "wcpus b ! d = Idle"
    and "mstat_wf (mstat (wshared b))" and "msr2str m = ''MSR_OTHERS''"
  shows "\<exists>b'. wruns b b' \<and> wcpus b' = wcpus b \<and> writes b' = writes b + 2 \<and>
    total_wrmsr (wshared b') = total_wrmsr (wshared b) + 2 \<and>
    report_wrmsr m (mstat (wshared b')) = report_wrmsr m (mstat (wshared b)) + 1 \<and>
    tabled b' = tabled b @ [m, m] \<and>
    other_msrs (mstat (wshared b')) = record_slot m (record_slot m (other_msrs (mstat (wshared b))))"
proof -
  let ?v = "ctr (mstat (wshared b)) wrmsr_exits_others" and ?t = "wrmsr_ktime (wshared b)"
  have m: "wrmsr_class m = wrmsr_exits_others" using assms(7) by (simp add: is_other_label is_other_def)
  have rep: "report_wrmsr m s = ctr s wrmsr_exits_others" for s
    using m by (auto simp: report_wrmsr_class wrmsr_class_def msr_table_def msr_consts)
  define b1 where "b1 = b\<lparr>wshared := (wshared b)\<lparr>total_wrmsr := total_wrmsr (wshared b) + 1\<rparr>,
    wcpus := (wcpus b)[c := Add ?t m ?v], writes := Suc (writes b)\<rparr>"
  define b2 where "b2 = b1\<lparr>wshared := (wshared b1)\<lparr>total_wrmsr := total_wrmsr (wshared b1) + 1\<rparr>,
    wcpus := (wcpus b1)[d := Add ?t m ?v], writes := Suc (writes b1)\<rparr>"
  have r1: "wruns b b1" using start_write [OF assms(1,4), of ?t m] by (simp add: b1_def m)
  have r2: "wruns b1 b2" using start_write [of d b1 ?t m] assms by (simp add: b1_def b2_def m)
  obtain b3 where r3: "wruns b2 b3" and b3: "b3 = b2\<lparr>wshared := (wshared b2)\<lparr>mstat := (mstat (wshared b2))\<lparr>ctr :=
      (ctr (mstat (wshared b2)))(wrmsr_exits_others := ?v + 1), other_msrs := record_slot m (other_msrs (mstat (wshared b2)))\<rparr>\<rparr>,
      wcpus := (wcpus b2)[c := Idle], tabled := tabled b2 @ [m]\<rparr>"
    using finish_other [of c b2 m ?v] assms m by (auto simp: b1_def b2_def)
  obtain b4 where r4: "wruns b3 b4" and b4: "b4 = b3\<lparr>wshared := (wshared b3)\<lparr>mstat := (mstat (wshared b3))\<lparr>ctr :=
      (ctr (mstat (wshared b3)))(wrmsr_exits_others := ?v + 1), other_msrs := record_slot m (other_msrs (mstat (wshared b3)))\<rparr>\<rparr>,
      wcpus := (wcpus b3)[d := Idle], tabled := tabled b3 @ [m]\<rparr>"
    using finish_other [of d b3 m ?v] assms m by (auto simp: b1_def b2_def b3 mstat_wf_def)
  have "wcpus b4 = wcpus b"
    using assms(1-5) by (simp add: b4 b3 b2_def b1_def list_update_swap [of c d]) (metis list_update_id)
  moreover have "wruns b b4" using r1 r2 r3 r4 by simp
  ultimately show ?thesis by (intro exI [of _ b4]) (simp add: b4 b3 b2_def b1_def rep)
qed

text \<open>
  What \<open>probe_init\<close> does after the registration, when the probe is armed already.
\<close>

definition wrmsr_late_init :: "u64 \<Rightarrow> kwrmsr \<Rightarrow> kwrmsr res" where
  "wrmsr_late_init now k =
     bindR (init_wrmsr (mstat k)) (\<lambda>st.
     Inr (k\<lparr>wrmsr_lock := False, total_wrmsr := 0, mstat := st, wrmsr_ktime := now\<rparr>))"

lemma wrmsr_probe_init_late:
  assumes "0 \<le> ret"
  shows "wrmsr_probe_init ret addr now k = bindR (wrmsr_late_init now (k\<lparr>planted := True\<rparr>)) (\<lambda>k'.
    Inr (0, k'\<lparr>wlog := wlog k' @ [(''kvmwrmsr : planted probe at %p'', [ALong addr])]\<rparr>))"
  using assms by (simp add: wrmsr_probe_init_def wrmsr_late_init_def init_wrmsr_def Let_def reset_other_ok)

lemma wrmsr_late_init_ok:
  "wrmsr_late_init now k = Inr (k\<lparr>wrmsr_lock := False, total_wrmsr := 0, mstat := (mstat k)\<lparr>other_msrs_lock := False,
     other_msrs := replicate OTHER_MSRS zero_slot\<rparr>, wrmsr_ktime := now\<rparr>)"
  by (simp add: wrmsr_late_init_def init_wrmsr_def reset_other_ok)

text \<open>A CPU on its way to the entry for an unknown MSR, with the lock of the table.\<close>

definition recording :: "u32 \<Rightarrow> kwrmsr \<Rightarrow> kwrmsr" where
  "recording m k = k\<lparr>total_wrmsr := total_wrmsr k + 1, mstat := (mstat k)\<lparr>ctr := (ctr (mstat k))
     (wrmsr_exits_others := ctr (mstat k) wrmsr_exits_others + 1), other_msrs_lock := True\<rparr>\<rparr>"

lemma reach_fill:
  assumes c: "c < length (wcpus b)" and q: "wcpus b ! c = Idle" and wf: "mstat_wf (mstat (wshared b))"
    and m: "wrmsr_class m = wrmsr_exits_others" and p: "p < OTHER_MSRS" "hits m (other_msrs (mstat (wshared b)) ! p)"
    and first: "\<forall>i<p. \<not> hits m (other_msrs (mstat (wshared b)) ! i)"
  shows "wruns b (wat b c (recording m (wshared b)) (Fill t m p) (Suc (writes b)) (tabled b))"
proof -
  define k1 where "k1 = (wshared b)\<lparr>total_wrmsr := total_wrmsr (wshared b) + 1\<rparr>"
  define k2 where "k2 = k1\<lparr>mstat := (mstat k1)\<lparr>ctr := (ctr (mstat k1))
    (wrmsr_exits_others := ctr (mstat k1) wrmsr_exits_others + 1)\<rparr>\<rparr>"
  let ?k3 = "recording m (wshared b)" and ?w = "Suc (writes b)" and ?h = "tabled b"
  note defs = wcpu_step_def Let_def recording_def k1_def k2_def mstat_wf_def
  have r1: "wruns b (wat b c k1 (Add t m (ctr (mstat k1) wrmsr_exits_others)) ?w ?h)"
    using start_write [OF c q, of t m] by (simp add: wat_def k1_def m)
  have s2: "wcpu_step c 0 0 (wat b c k1 (Add t m (ctr (mstat k1) wrmsr_exits_others)) ?w ?h) =
      Some (wat b c k2 (Lock t m) ?w ?h)"
    using c m by (simp add: defs)
  have s3: "wcpu_step c 0 0 (wat b c k2 (Lock t m) ?w ?h) = Some (wat b c ?k3 (Scan t m 0) ?w ?h)"
    using c wf by (simp add: defs)
  have es: "other_msrs (mstat ?k3) = other_msrs (mstat (wshared b))" by (simp add: recording_def)
  have r4: "wruns (wat b c ?k3 (Scan t m 0) ?w ?h) (wat b c ?k3 (Scan t m p) ?w ?h)"
    using wf p(1) first by (intro solo_find [OF c]) (simp_all add: es mstat_wf_def)
  have s5: "wcpu_step c 0 0 (wat b c ?k3 (Scan t m p) ?w ?h) = Some (wat b c ?k3 (Fill t m p) ?w ?h)"
    using c wf p by (simp add: wcpu_step_def Let_def es mstat_wf_def)
  show ?thesis
    by (rule rtranclp_trans [OF r1 wat_step [OF s2 wat_step [OF s3 rtranclp_trans [OF r4 wat_one [OF s5]]]]])
qed

text \<open>
  C16: loading can break the table. The probe is armed before \<open>init_wrmsr\<close> initialises the lock and clears the
  table, without regard to a handler that holds the lock. If the table has an entry and another CPU is recording
  a different MSR at that moment, its entry lands behind a free one: the table then reports nothing at its first
  position, so that the report, which asks for that first, shows no other MSR at all, although one is recorded.
\<close>

theorem init_leaves_hole:
  assumes "c < length (wcpus b)" and "wcpus b ! c = Idle" and "mstat_wf (mstat (wshared b))"
    and "msr2str m = ''MSR_OTHERS''" and "m \<noteq> 0"
    and "index (other_msrs (mstat (wshared b)) ! 0) \<notin> {0, m}"
    and "p < OTHER_MSRS" and "hits m (other_msrs (mstat (wshared b)) ! p)"
  shows "\<exists>b1 k b2 j. wruns b b1 \<and> wrmsr_late_init now (wshared b1) = Inr k \<and> wruns (b1\<lparr>wshared := k\<rparr>) b2 \<and>
    wcpus b2 = wcpus b \<and> j < OTHER_MSRS \<and>
    report_other_wrmsr (int j) (mstat (wshared b2)) = Inr (Some (m, 1)) \<and>
    report_other_wrmsr 0 (mstat (wshared b2)) = Inr None \<and>
    show_wrmsr (wshared b2) = Inr ((wshared b2)\<lparr>wlog := wlog (wshared b2) @ stat_report (mstat (wshared b2))\<rparr>)"
proof -
  let ?es = "other_msrs (mstat (wshared b))" and ?h = "tabled b"
  have m: "wrmsr_class m = wrmsr_exits_others" using assms(4) by (simp add: is_other_label is_other_def)
  obtain j where j: "j < OTHER_MSRS" "hits m (?es ! j)" "\<forall>i<j. \<not> hits m (?es ! i)"
    using assms(7,8) exists_least_iff [of "\<lambda>p. p < OTHER_MSRS \<and> hits m (?es ! p)"] by (meson order.strict_trans)
  have pos: "0 < j" using j(2) assms(6) by (cases j) (auto simp: hits_def)
  define k3 where "k3 = recording m (wshared b)"
  define k4 where "k4 = k3\<lparr>wrmsr_lock := False, total_wrmsr := 0, mstat := (mstat k3)\<lparr>other_msrs_lock := False,
     other_msrs := replicate OTHER_MSRS zero_slot\<rparr>, wrmsr_ktime := now\<rparr>"
  define k5 where "k5 = k4\<lparr>mstat := (mstat k4)\<lparr>other_msrs := (replicate OTHER_MSRS zero_slot)[j := \<lparr>index = m, count = 1\<rparr>]\<rparr>\<rparr>"
  let ?w = "Suc (writes b)"
  let ?b1 = "wat b c k3 (Fill now m j) ?w ?h"
  have run1: "wruns b ?b1" unfolding k3_def by (rule reach_fill [OF assms(1-3) m j])
  have init: "wrmsr_late_init now (wshared ?b1) = Inr k4" by (simp add: wrmsr_late_init_ok k4_def)
  have t1: "wcpu_step c 0 0 (wat b c k4 (Fill now m j) ?w ?h) = Some (wat b c k5 (Unlock now) ?w (?h @ [m]))"
    using assms(1) j(1) by (simp add: wcpu_step_def Let_def k4_def k5_def zero_slot_def)
  have t2: "wcpu_step c 0 0 (wat b c k5 (Unlock now) ?w (?h @ [m])) = Some (wat b c k5 (Compare now) ?w (?h @ [m]))"
    using assms(1) by (simp add: wcpu_step_def Let_def k4_def k5_def)
  have t3: "wcpu_step c 0 0 (wat b c k5 (Compare now) ?w (?h @ [m])) = Some (wat b c k5 Idle ?w (?h @ [m]))"
    using assms(1) by (simp add: wcpu_step_def Let_def k4_def k5_def)
  let ?b2 = "wat b c k5 Idle ?w (?h @ [m])"
  have eq: "?b1\<lparr>wshared := k4\<rparr> = wat b c k4 (Fill now m j) ?w ?h" by (rule wsys.equality) (simp_all add: wat_def)
  have "wruns (?b1\<lparr>wshared := k4\<rparr>) ?b2"
    unfolding eq by (rule wat_step [OF t1 wat_step [OF t2 wat_one [OF t3]]])
  moreover have "wcpus ?b2 = wcpus b" using assms(2) by (simp add: list_update_same_conv assms(1))
  moreover have "report_other_wrmsr (int j) (mstat k5) = Inr (Some (m, 1))" "report_other_wrmsr 0 (mstat k5) = Inr None"
    using j(1) pos assms(5) by (simp_all add: report_other_wrmsr_def k5_def k4_def zero_slot_def arr_get_def)
  moreover from this(2) have "show_wrmsr k5 = Inr (k5\<lparr>wlog := wlog k5 @ stat_report (mstat k5)\<rparr>)"
    by (simp add: show_wrmsr_def stat_report_def Let_def)
  ultimately show ?thesis using run1 init j(1) by (intro exI [of _ ?b1] exI [of _ k4] exI [of _ ?b2] exI [of _ j]) simp
qed

text \<open>
  A write counted between the line of the total and the assignment that clears it is in no total.
\<close>

lemma total_dropped:
  assumes "c < length (wcpus b)" and "d < length (wcpus b)" and "c \<noteq> d" and "wcpus b ! c = Head t" and "wcpus b ! d = Count u m"
  shows "\<exists>b'. wruns b b' \<and> wcpus b' = (wcpus b)[c := Line t 0, d := Enter u m] \<and> writes b' = writes b + 1 \<and>
    total_wrmsr (wshared b') = 0 \<and>
    wlog (wshared b') = wlog (wshared b) @ [(total_wrmsr_fmt, [ALong (total_wrmsr (wshared b))])]"
proof -
  let ?k = "wshared b"
  let ?k1 = "?k\<lparr>wlog := wlog ?k @ [(total_wrmsr_fmt, [ALong (total_wrmsr ?k)])]\<rparr>"
  let ?b1 = "b\<lparr>wshared := ?k1, wcpus := (wcpus b)[c := Clear t]\<rparr>"
  let ?b2 = "b\<lparr>wshared := ?k1\<lparr>total_wrmsr := total_wrmsr ?k + 1\<rparr>, wcpus := (wcpus b)[c := Clear t, d := Enter u m],
    writes := writes b + 1\<rparr>"
  let ?b3 = "b\<lparr>wshared := ?k1\<lparr>total_wrmsr := 0\<rparr>, wcpus := (wcpus b)[c := Line t 0, d := Enter u m], writes := writes b + 1\<rparr>"
  have "wcpu_step c 0 0 b = Some ?b1" "wcpu_step d 0 0 ?b1 = Some ?b2"
    using assms by (simp_all add: wcpu_step_def Let_def)
  moreover have "wcpu_step c 0 0 ?b2 = Some ?b3"
    using assms by (simp add: wcpu_step_def Let_def list_update_swap [of c d])
  ultimately have "wruns b ?b3" by (meson wstep.cpu rtranclp.rtrancl_into_rtrancl rtranclp.rtrancl_refl)
  then show ?thesis by (intro exI [of _ ?b3]) simp
qed

section \<open>Examples\<close>

definition ex_pair :: wsys where
  "ex_pair = \<lparr>wshared = kwrmsr_static, wcpus = [Idle, Idle], writes = 0, tabled = []\<rparr>"

lemma ex_pair_fields: "wshared ex_pair = kwrmsr_static" "wcpus ex_pair = replicate 2 Idle" "writes ex_pair = 0"
  "tabled ex_pair = []"
  by (simp_all add: ex_pair_def numeral_2_eq_2)

lemma ex_static: "mstat_wf (mstat kwrmsr_static)" "other_msrs (mstat kwrmsr_static) = replicate OTHER_MSRS zero_slot"
  "wrmsr_ktime kwrmsr_static = 0"
  using kw_wf_static by (simp_all add: kw_wf_def kwrmsr_static_def wrmsr_static_def)

lemma ex_unknown: "msr2str 0x10 = ''MSR_OTHERS''" "msr2str 0xc0000080 = ''MSR_OTHERS''"
  by (simp_all add: msr2str_def msr_consts in_apic_range_def)

lemma ex_one_other:
  "\<exists>b. wruns ex_pair b \<and> wcpus b = replicate 2 Idle \<and> mstat_wf (mstat (wshared b)) \<and> tabled b = [0x10] \<and>
     other_msrs (mstat (wshared b)) = record_slot 0x10 (replicate OTHER_MSRS zero_slot)"
proof -
  have m: "wrmsr_class 0x10 = wrmsr_exits_others" using ex_unknown by (simp add: is_other_label is_other_def)
  let ?b1 = "ex_pair\<lparr>wshared := kwrmsr_static\<lparr>total_wrmsr := total_wrmsr kwrmsr_static + 1\<rparr>,
    wcpus := (wcpus ex_pair)[0 := Add 0 0x10 (ctr (mstat kwrmsr_static) wrmsr_exits_others)], writes := 1\<rparr>"
  have r1: "wruns ex_pair ?b1"
    using start_write [of 0 ex_pair 0 "0x10"] by (simp add: ex_pair_fields m)
  let ?v = "ctr (mstat kwrmsr_static) wrmsr_exits_others"
  let ?b2 = "?b1\<lparr>wshared := (wshared ?b1)\<lparr>mstat := (mstat (wshared ?b1))\<lparr>ctr := (ctr (mstat (wshared ?b1)))
      (wrmsr_exits_others := ?v + 1), other_msrs := record_slot 0x10 (other_msrs (mstat (wshared ?b1)))\<rparr>\<rparr>,
      wcpus := (wcpus ?b1)[0 := Idle], tabled := tabled ?b1 @ [0x10]\<rparr>"
  have "wruns ?b1 ?b2"
    by (rule finish_other) (simp_all add: ex_pair_fields ex_static m)
  with r1 have "wruns ex_pair ?b2" by (rule rtranclp_trans)
  then show ?thesis
    by (intro exI [of _ ?b2]) (use ex_static in \<open>simp add: ex_pair_fields numeral_2_eq_2 mstat_wf_def\<close>)
qed

theorem others_exact_witness:
  "\<exists>b. wruns ex_pair b \<and> report_other_wrmsr 0 (mstat (wshared b)) = Inr (Some (0x10, 1))"
proof -
  obtain b where b: "wruns ex_pair b" "mstat_wf (mstat (wshared b))" "tabled b = [0x10]"
    using ex_one_other by blast
  then have free: "\<not> other_msrs_lock (mstat (wshared b))" by (simp add: mstat_wf_def)
  have "report_other_wrmsr (int 0) (mstat (wshared b)) =
    Inr (if 0 < length (firsts (tabled b))
         then Some (firsts (tabled b) ! 0, of_nat (count_list (tabled b) (firsts (tabled b) ! 0))) else None)"
    by (rule others_exact [OF b(1) ex_pair_fields(2)])
       (use free b in \<open>simp_all add: ex_pair_fields ex_static OTHER_MSRS_def\<close>)
  with b show ?thesis by (intro exI [of _ b]) (simp add: firsts_def)
qed

lemma foldR_snd: "foldR (\<lambda>(c, e). f e) ces s = foldR f (map snd ces) s"
proof (induction ces arbitrary: s)
  case (Cons ce ces)
  then show ?case by (cases "f (snd ce) s") (auto simp: case_prod_unfold)
qed simp

theorem wrmsr_handlers_refine_witness:
  "\<exists>k' h. wruns ex_pair \<lparr>wshared = k', wcpus = replicate 2 Idle, writes = 2, tabled = h\<rparr> \<and>
     report_wrmsr 0x6e0 (mstat k') + wprinted (Some (msr2str 0x6e0)) (wlog k') = 1"
proof -
  let ?es = "[(0, 5, 0x6e0), (1, 2000000000, 0x10)] :: (nat \<times> u64 \<times> u32) list"
  obtain k' where k': "foldR wrmsr_event (map snd ?es) kwrmsr_static = Inr k'"
    "\<And>a. waccount a k' = waccount a kwrmsr_static + of_nat (kwrmsrs.hits a (map snd ?es))"
    using kwrmsrs.run_measure [OF kw_wf_static, of "map snd ?es"] by auto
  have c: "wrmsr_class 0x6e0 = wrmsr_exits_set_tscdeadline" "wrmsr_class 0x10 = wrmsr_exits_others"
    by (simp_all add: wrmsr_class_def msr_table_def msr_consts in_apic_range_def)
  have r: "report_wrmsr 0x6e0 s = ctr s wrmsr_exits_set_tscdeadline" for s
    by (simp add: report_wrmsr_class c MSR_MISC_FEATURES_ENABLES_def)
  have "report_wrmsr 0x6e0 (mstat k') + wprinted (Some (msr2str 0x6e0)) (wlog k') = 1"
    using k'(2) [of "Some wrmsr_exits_set_tscdeadline"]
    by (simp add: waccount_def kwrmsrs.hits_def whit_def c msr2str_class r
        kwrmsr_static_def wprinted_def wrmsr_static_def add.commute)
  moreover have "\<exists>h'. wruns \<lparr>wshared = kwrmsr_static, wcpus = replicate 2 Idle, writes = 0, tabled = []\<rparr>
    \<lparr>wshared = k', wcpus = replicate 2 Idle, writes = 0 + length ?es, tabled = h'\<rparr>"
    by (rule wrmsr_handlers_refine [OF kw_wf_static]) (use k'(1) in \<open>simp_all only: foldR_snd\<close>, simp)
  ultimately show ?thesis by (auto simp: ex_pair_def numeral_2_eq_2)
qed

theorem wrmsr_no_deadlock_witness:
  "\<exists>b b'. wruns ex_pair b \<and> wcpus b \<noteq> replicate 2 Idle \<and> wruns b b' \<and> wcpus b' = replicate 2 Idle"
proof -
  have r: "wruns ex_pair (ex_pair\<lparr>wshared := kwrmsr_static\<lparr>total_wrmsr := total_wrmsr kwrmsr_static + 1\<rparr>,
    wcpus := (wcpus ex_pair)[0 := Add 0 0x10 (ctr (mstat kwrmsr_static) (wrmsr_class 0x10))], writes := 1\<rparr>)"
    (is "wruns _ ?b") using start_write [of 0 ex_pair 0 "0x10"] by (simp add: ex_pair_fields)
  have "wcpus ?b \<noteq> replicate 2 Idle" by (simp add: ex_pair_def numeral_2_eq_2)
  moreover have "\<exists>b'. wruns ?b b' \<and> wcpus b' = replicate 2 Idle"
    using wrmsr_no_deadlock [OF r ex_pair_fields(2)] by (simp add: ex_pair_fields ex_static)
  ultimately show ?thesis using r by blast
qed

theorem others_counter_disagrees_witness:
  "\<exists>b. wruns ex_pair b \<and> writes b = 2 \<and> tabled b = [0x10, 0x10] \<and> report_wrmsr 0x10 (mstat (wshared b)) = 1"
proof -
  have z: "report_wrmsr 0x10 (mstat kwrmsr_static) = 0"
    by (simp add: report_wrmsr_class kwrmsr_static_def wrmsr_static_def)
  from others_counter_disagrees [of 0 ex_pair 1 "0x10"] show ?thesis
    by (auto simp: ex_pair_fields ex_static ex_unknown z)
qed

theorem init_leaves_hole_witness:
  "\<exists>b1 k b2. wruns ex_pair b1 \<and> wrmsr_late_init 7 (wshared b1) = Inr k \<and> wruns (b1\<lparr>wshared := k\<rparr>) b2 \<and>
     report_other_wrmsr 0 (mstat (wshared b2)) = Inr None \<and>
     show_wrmsr (wshared b2) = Inr ((wshared b2)\<lparr>wlog := wlog (wshared b2) @ stat_report (mstat (wshared b2))\<rparr>)"
proof -
  obtain b where b: "wruns ex_pair b" "wcpus b = replicate 2 Idle" "mstat_wf (mstat (wshared b))"
    "other_msrs (mstat (wshared b)) = record_slot 0x10 (replicate OTHER_MSRS zero_slot)"
    using ex_one_other by blast
  have t: "other_msrs (mstat (wshared b)) = \<lparr>index = 0x10, count = 1\<rparr> # replicate 127 zero_slot"
    using b(4) record_slot_free [of "0x10" 127] by (simp add: OTHER_MSRS_def)
  have "\<exists>b1 k b2 j. wruns b b1 \<and> wrmsr_late_init 7 (wshared b1) = Inr k \<and> wruns (b1\<lparr>wshared := k\<rparr>) b2 \<and>
    wcpus b2 = wcpus b \<and> j < OTHER_MSRS \<and>
    report_other_wrmsr (int j) (mstat (wshared b2)) = Inr (Some (0xc0000080, 1)) \<and>
    report_other_wrmsr 0 (mstat (wshared b2)) = Inr None \<and>
    show_wrmsr (wshared b2) = Inr ((wshared b2)\<lparr>wlog := wlog (wshared b2) @ stat_report (mstat (wshared b2))\<rparr>)"
    by (rule init_leaves_hole [where c = 1 and p = 1])
       (use b(2,3) in \<open>simp_all add: t ex_unknown OTHER_MSRS_def hits_def zero_slot_def\<close>)
  with b(1) show ?thesis by (meson rtranclp_trans)
qed

end
