(* ===== verification/Msr_Names.thy ===== *)
theory Msr_Names
  imports Wrmsr_Stats
begin

text \<open>
  \<open>debug/kvmwrmsr/msr-index.h\<close> and \<open>kvm_para.h\<close>: the macros of the two headers that stand for numbers, in the order
  of the files, with their names. A macro is the number of an MSR, a position (of a bit or field, or a count), or a
  value, as an \<open>unsigned long\<close>, of a field or a mask. Macros that other macros refer to are expanded. The classes of
  \<open>Wrmsr_Stats\<close> are then compared with the headers: which of the MSRs with a name the module reports under it.
\<close>

unbundle bit_operations_syntax

datatype macro =
    Msr string u32
  | Pos string nat
  | Val string u64

section \<open>The first bank of machine check registers\<close>

definition MSR_IA32_MC0_CTL :: u32 where
  [msr_consts]: "MSR_IA32_MC0_CTL = 0x00000400"

definition MSR_IA32_MC0_STATUS :: u32 where
  [msr_consts]: "MSR_IA32_MC0_STATUS = 0x00000401"

definition MSR_IA32_MC0_ADDR :: u32 where
  [msr_consts]: "MSR_IA32_MC0_ADDR = 0x00000402"

definition MSR_IA32_MC0_MISC :: u32 where
  [msr_consts]: "MSR_IA32_MC0_MISC = 0x00000403"

definition MSR_AMD64_MC0_MASK :: u32 where
  [msr_consts]: "MSR_AMD64_MC0_MASK = 0xc0010044"

definition MSR_IA32_MC0_CTL2 :: u32 where
  [msr_consts]: "MSR_IA32_MC0_CTL2 = 0x00000280"

section \<open>The macros\<close>

text \<open>\<open>MSR_IA32_APICBASE_BASE\<close> is an \<open>int\<close>, in which the shift of \<open>0xfffff\<close> runs into the sign.\<close>

definition x86_64_macros :: "macro list" where
  "x86_64_macros =
    [Msr ''MSR_EFER'' 0xc0000080,
     Msr ''MSR_STAR'' 0xc0000081,
     Msr ''MSR_LSTAR'' 0xc0000082,
     Msr ''MSR_CSTAR'' 0xc0000083,
     Msr ''MSR_SYSCALL_MASK'' 0xc0000084,
     Msr ''MSR_FS_BASE'' 0xc0000100,
     Msr ''MSR_GS_BASE'' 0xc0000101,
     Msr ''MSR_KERNEL_GS_BASE'' 0xc0000102,
     Msr ''MSR_TSC_AUX'' 0xc0000103,
     Pos ''_EFER_SCE'' 0,
     Pos ''_EFER_LME'' 8,
     Pos ''_EFER_LMA'' 10,
     Pos ''_EFER_NX'' 11,
     Pos ''_EFER_SVME'' 12,
     Pos ''_EFER_LMSLE'' 13,
     Pos ''_EFER_FFXSR'' 14,
     Val ''EFER_SCE'' (push_bit 0 1),
     Val ''EFER_LME'' (push_bit 8 1),
     Val ''EFER_LMA'' (push_bit 10 1),
     Val ''EFER_NX'' (push_bit 11 1),
     Val ''EFER_SVME'' (push_bit 12 1),
     Val ''EFER_LMSLE'' (push_bit 13 1),
     Val ''EFER_FFXSR'' (push_bit 14 1)]"

definition intel_macros :: "macro list" where
  "intel_macros =
    [Msr ''MSR_IA32_SPEC_CTRL'' 0x00000048,
     Val ''SPEC_CTRL_IBRS'' (push_bit 0 1),
     Val ''SPEC_CTRL_STIBP'' (push_bit 1 1),
     Pos ''SPEC_CTRL_SSBD_SHIFT'' 2,
     Val ''SPEC_CTRL_SSBD'' (push_bit 2 1),
     Msr ''MSR_IA32_PRED_CMD'' 0x00000049,
     Val ''PRED_CMD_IBPB'' (push_bit 0 1),
     Msr ''MSR_PPIN_CTL'' 0x0000004e,
     Msr ''MSR_PPIN'' 0x0000004f,
     Msr ''MSR_IA32_PERFCTR0'' 0x000000c1,
     Msr ''MSR_IA32_PERFCTR1'' 0x000000c2,
     Msr ''MSR_FSB_FREQ'' 0x000000cd,
     Msr ''MSR_PLATFORM_INFO'' MSR_PLATFORM_INFO,
     Pos ''MSR_PLATFORM_INFO_CPUID_FAULT_BIT'' 31,
     Val ''MSR_PLATFORM_INFO_CPUID_FAULT'' (push_bit 31 1),
     Msr ''MSR_PKG_CST_CONFIG_CONTROL'' 0x000000e2,
     Val ''NHM_C3_AUTO_DEMOTE'' (push_bit 25 1),
     Val ''NHM_C1_AUTO_DEMOTE'' (push_bit 26 1),
     Val ''ATM_LNC_C6_AUTO_DEMOTE'' (push_bit 25 1),
     Val ''SNB_C1_AUTO_UNDEMOTE'' (push_bit 27 1),
     Val ''SNB_C3_AUTO_UNDEMOTE'' (push_bit 28 1),
     Msr ''MSR_MTRRcap'' 0x000000fe,
     Msr ''MSR_IA32_ARCH_CAPABILITIES'' 0x0000010a,
     Val ''ARCH_CAP_RDCL_NO'' (push_bit 0 1),
     Val ''ARCH_CAP_IBRS_ALL'' (push_bit 1 1),
     Val ''ARCH_CAP_SKIP_VMENTRY_L1DFLUSH'' (push_bit 3 1),
     Val ''ARCH_CAP_SSB_NO'' (push_bit 4 1),
     Msr ''MSR_IA32_FLUSH_CMD'' 0x0000010b,
     Val ''L1D_FLUSH'' (push_bit 0 1),
     Msr ''MSR_IA32_BBL_CR_CTL'' 0x00000119,
     Msr ''MSR_IA32_BBL_CR_CTL3'' 0x0000011e,
     Msr ''MSR_IA32_SYSENTER_CS'' 0x00000174,
     Msr ''MSR_IA32_SYSENTER_ESP'' 0x00000175,
     Msr ''MSR_IA32_SYSENTER_EIP'' 0x00000176,
     Msr ''MSR_IA32_MCG_CAP'' 0x00000179,
     Msr ''MSR_IA32_MCG_STATUS'' MSR_IA32_MCG_STATUS,
     Msr ''MSR_IA32_MCG_CTL'' MSR_IA32_MCG_CTL,
     Msr ''MSR_IA32_MCG_EXT_CTL'' MSR_IA32_MCG_EXT_CTL,
     Msr ''MSR_OFFCORE_RSP_0'' 0x000001a6,
     Msr ''MSR_OFFCORE_RSP_1'' 0x000001a7,
     Msr ''MSR_TURBO_RATIO_LIMIT'' 0x000001ad,
     Msr ''MSR_TURBO_RATIO_LIMIT1'' 0x000001ae,
     Msr ''MSR_TURBO_RATIO_LIMIT2'' 0x000001af,
     Msr ''MSR_LBR_SELECT'' 0x000001c8,
     Msr ''MSR_LBR_TOS'' 0x000001c9,
     Msr ''MSR_LBR_NHM_FROM'' 0x00000680,
     Msr ''MSR_LBR_NHM_TO'' 0x000006c0,
     Msr ''MSR_LBR_CORE_FROM'' 0x00000040,
     Msr ''MSR_LBR_CORE_TO'' 0x00000060,
     Msr ''MSR_LBR_INFO_0'' 0x00000dc0,
     Val ''LBR_INFO_MISPRED'' (push_bit 63 1),
     Val ''LBR_INFO_IN_TX'' (push_bit 62 1),
     Val ''LBR_INFO_ABORT'' (push_bit 61 1),
     Val ''LBR_INFO_CYCLES'' 0xffff,
     Msr ''MSR_IA32_PEBS_ENABLE'' 0x000003f1,
     Msr ''MSR_IA32_DS_AREA'' 0x00000600,
     Msr ''MSR_IA32_PERF_CAPABILITIES'' 0x00000345,
     Msr ''MSR_PEBS_LD_LAT_THRESHOLD'' 0x000003f6]"

definition trace_mtrr_macros :: "macro list" where
  "trace_mtrr_macros =
    [Msr ''MSR_IA32_RTIT_CTL'' 0x00000570,
     Msr ''MSR_IA32_RTIT_STATUS'' 0x00000571,
     Msr ''MSR_IA32_RTIT_ADDR0_A'' 0x00000580,
     Msr ''MSR_IA32_RTIT_ADDR0_B'' 0x00000581,
     Msr ''MSR_IA32_RTIT_ADDR1_A'' 0x00000582,
     Msr ''MSR_IA32_RTIT_ADDR1_B'' 0x00000583,
     Msr ''MSR_IA32_RTIT_ADDR2_A'' 0x00000584,
     Msr ''MSR_IA32_RTIT_ADDR2_B'' 0x00000585,
     Msr ''MSR_IA32_RTIT_ADDR3_A'' 0x00000586,
     Msr ''MSR_IA32_RTIT_ADDR3_B'' 0x00000587,
     Msr ''MSR_IA32_RTIT_CR3_MATCH'' 0x00000572,
     Msr ''MSR_IA32_RTIT_OUTPUT_BASE'' 0x00000560,
     Msr ''MSR_IA32_RTIT_OUTPUT_MASK'' 0x00000561,
     Msr ''MSR_MTRRfix64K_00000'' 0x00000250,
     Msr ''MSR_MTRRfix16K_80000'' 0x00000258,
     Msr ''MSR_MTRRfix16K_A0000'' 0x00000259,
     Msr ''MSR_MTRRfix4K_C0000'' 0x00000268,
     Msr ''MSR_MTRRfix4K_C8000'' 0x00000269,
     Msr ''MSR_MTRRfix4K_D0000'' 0x0000026a,
     Msr ''MSR_MTRRfix4K_D8000'' 0x0000026b,
     Msr ''MSR_MTRRfix4K_E0000'' 0x0000026c,
     Msr ''MSR_MTRRfix4K_E8000'' 0x0000026d,
     Msr ''MSR_MTRRfix4K_F0000'' 0x0000026e,
     Msr ''MSR_MTRRfix4K_F8000'' 0x0000026f,
     Msr ''MSR_MTRRdefType'' 0x000002ff,
     Msr ''MSR_IA32_CR_PAT'' 0x00000277,
     Msr ''MSR_IA32_DEBUGCTLMSR'' 0x000001d9,
     Msr ''MSR_IA32_LASTBRANCHFROMIP'' 0x000001db,
     Msr ''MSR_IA32_LASTBRANCHTOIP'' 0x000001dc,
     Msr ''MSR_IA32_LASTINTFROMIP'' 0x000001dd,
     Msr ''MSR_IA32_LASTINTTOIP'' 0x000001de,
     Val ''DEBUGCTLMSR_LBR'' (push_bit 0 1),
     Pos ''DEBUGCTLMSR_BTF_SHIFT'' 1,
     Val ''DEBUGCTLMSR_BTF'' (push_bit 1 1),
     Val ''DEBUGCTLMSR_TR'' (push_bit 6 1),
     Val ''DEBUGCTLMSR_BTS'' (push_bit 7 1),
     Val ''DEBUGCTLMSR_BTINT'' (push_bit 8 1),
     Val ''DEBUGCTLMSR_BTS_OFF_OS'' (push_bit 9 1),
     Val ''DEBUGCTLMSR_BTS_OFF_USR'' (push_bit 10 1),
     Val ''DEBUGCTLMSR_FREEZE_LBRS_ON_PMI'' (push_bit 11 1),
     Pos ''DEBUGCTLMSR_FREEZE_IN_SMM_BIT'' 14,
     Val ''DEBUGCTLMSR_FREEZE_IN_SMM'' (push_bit 14 1),
     Msr ''MSR_PEBS_FRONTEND'' 0x000003f7,
     Msr ''MSR_IA32_POWER_CTL'' 0x000001fc,
     Msr ''MSR_IA32_MC0_CTL'' MSR_IA32_MC0_CTL,
     Msr ''MSR_IA32_MC0_STATUS'' MSR_IA32_MC0_STATUS,
     Msr ''MSR_IA32_MC0_ADDR'' MSR_IA32_MC0_ADDR,
     Msr ''MSR_IA32_MC0_MISC'' MSR_IA32_MC0_MISC]"

definition power_macros :: "macro list" where
  "power_macros =
    [Msr ''MSR_PKG_C3_RESIDENCY'' 0x000003f8,
     Msr ''MSR_PKG_C6_RESIDENCY'' 0x000003f9,
     Msr ''MSR_ATOM_PKG_C6_RESIDENCY'' 0x000003fa,
     Msr ''MSR_PKG_C7_RESIDENCY'' 0x000003fa,
     Msr ''MSR_CORE_C3_RESIDENCY'' 0x000003fc,
     Msr ''MSR_CORE_C6_RESIDENCY'' 0x000003fd,
     Msr ''MSR_CORE_C7_RESIDENCY'' 0x000003fe,
     Msr ''MSR_KNL_CORE_C6_RESIDENCY'' 0x000003ff,
     Msr ''MSR_PKG_C2_RESIDENCY'' 0x0000060d,
     Msr ''MSR_PKG_C8_RESIDENCY'' 0x00000630,
     Msr ''MSR_PKG_C9_RESIDENCY'' 0x00000631,
     Msr ''MSR_PKG_C10_RESIDENCY'' 0x00000632,
     Msr ''MSR_PKGC3_IRTL'' 0x0000060a,
     Msr ''MSR_PKGC6_IRTL'' 0x0000060b,
     Msr ''MSR_PKGC7_IRTL'' 0x0000060c,
     Msr ''MSR_PKGC8_IRTL'' 0x00000633,
     Msr ''MSR_PKGC9_IRTL'' 0x00000634,
     Msr ''MSR_PKGC10_IRTL'' 0x00000635,
     Msr ''MSR_RAPL_POWER_UNIT'' 0x00000606,
     Msr ''MSR_PKG_POWER_LIMIT'' 0x00000610,
     Msr ''MSR_PKG_ENERGY_STATUS'' 0x00000611,
     Msr ''MSR_PKG_PERF_STATUS'' 0x00000613,
     Msr ''MSR_PKG_POWER_INFO'' 0x00000614,
     Msr ''MSR_DRAM_POWER_LIMIT'' 0x00000618,
     Msr ''MSR_DRAM_ENERGY_STATUS'' 0x00000619,
     Msr ''MSR_DRAM_PERF_STATUS'' 0x0000061b,
     Msr ''MSR_DRAM_POWER_INFO'' 0x0000061c,
     Msr ''MSR_PP0_POWER_LIMIT'' 0x00000638,
     Msr ''MSR_PP0_ENERGY_STATUS'' 0x00000639,
     Msr ''MSR_PP0_POLICY'' 0x0000063a,
     Msr ''MSR_PP0_PERF_STATUS'' 0x0000063b,
     Msr ''MSR_PP1_POWER_LIMIT'' 0x00000640,
     Msr ''MSR_PP1_ENERGY_STATUS'' 0x00000641,
     Msr ''MSR_PP1_POLICY'' 0x00000642,
     Msr ''MSR_CONFIG_TDP_NOMINAL'' 0x00000648,
     Msr ''MSR_CONFIG_TDP_LEVEL_1'' 0x00000649,
     Msr ''MSR_CONFIG_TDP_LEVEL_2'' 0x0000064a,
     Msr ''MSR_CONFIG_TDP_CONTROL'' 0x0000064b,
     Msr ''MSR_TURBO_ACTIVATION_RATIO'' 0x0000064c,
     Msr ''MSR_PLATFORM_ENERGY_STATUS'' 0x0000064d,
     Msr ''MSR_PKG_WEIGHTED_CORE_C0_RES'' 0x00000658,
     Msr ''MSR_PKG_ANY_CORE_C0_RES'' 0x00000659,
     Msr ''MSR_PKG_ANY_GFXE_C0_RES'' 0x0000065a,
     Msr ''MSR_PKG_BOTH_CORE_GFXE_C0_RES'' 0x0000065b,
     Msr ''MSR_CORE_C1_RES'' 0x00000660,
     Msr ''MSR_MODULE_C6_RES_MS'' 0x00000664,
     Msr ''MSR_CC6_DEMOTION_POLICY_CONFIG'' 0x00000668,
     Msr ''MSR_MC6_DEMOTION_POLICY_CONFIG'' 0x00000669,
     Msr ''MSR_ATOM_CORE_RATIOS'' 0x0000066a,
     Msr ''MSR_ATOM_CORE_VIDS'' 0x0000066b,
     Msr ''MSR_ATOM_CORE_TURBO_RATIOS'' 0x0000066c,
     Msr ''MSR_ATOM_CORE_TURBO_VIDS'' 0x0000066d,
     Msr ''MSR_CORE_PERF_LIMIT_REASONS'' 0x00000690,
     Msr ''MSR_GFX_PERF_LIMIT_REASONS'' 0x000006b0,
     Msr ''MSR_RING_PERF_LIMIT_REASONS'' 0x000006b1,
     Msr ''MSR_PPERF'' 0x0000064e,
     Msr ''MSR_PERF_LIMIT_REASONS'' 0x0000064f,
     Msr ''MSR_PM_ENABLE'' 0x00000770,
     Msr ''MSR_HWP_CAPABILITIES'' 0x00000771,
     Msr ''MSR_HWP_REQUEST_PKG'' 0x00000772,
     Msr ''MSR_HWP_INTERRUPT'' 0x00000773,
     Msr ''MSR_HWP_REQUEST'' 0x00000774,
     Msr ''MSR_HWP_STATUS'' 0x00000777,
     Val ''HWP_BASE_BIT'' (push_bit 7 1),
     Val ''HWP_NOTIFICATIONS_BIT'' (push_bit 8 1),
     Val ''HWP_ACTIVITY_WINDOW_BIT'' (push_bit 9 1),
     Val ''HWP_ENERGY_PERF_PREFERENCE_BIT'' (push_bit 10 1),
     Val ''HWP_PACKAGE_LEVEL_REQUEST_BIT'' (push_bit 11 1)]"

definition hwp_epp_macros :: "macro list" where
  "hwp_epp_macros =
    [Val ''HWP_EPP_PERFORMANCE'' 0x00,
     Val ''HWP_EPP_BALANCE_PERFORMANCE'' 0x80,
     Val ''HWP_EPP_BALANCE_POWERSAVE'' 0xc0,
     Val ''HWP_EPP_POWERSAVE'' 0xff]"

text \<open>The masks of the banks of AMD, the second controls and the performance counters.\<close>

definition perfctr_macros :: "macro list" where
  "perfctr_macros =
    [Msr ''MSR_AMD64_MC0_MASK'' MSR_AMD64_MC0_MASK,
     Msr ''MSR_IA32_MC0_CTL2'' MSR_IA32_MC0_CTL2,
     Msr ''MSR_P6_PERFCTR0'' 0x000000c1,
     Msr ''MSR_P6_PERFCTR1'' 0x000000c2,
     Msr ''MSR_P6_EVNTSEL0'' 0x00000186,
     Msr ''MSR_P6_EVNTSEL1'' 0x00000187,
     Msr ''MSR_KNC_PERFCTR0'' 0x00000020,
     Msr ''MSR_KNC_PERFCTR1'' 0x00000021,
     Msr ''MSR_KNC_EVNTSEL0'' 0x00000028,
     Msr ''MSR_KNC_EVNTSEL1'' 0x00000029,
     Msr ''MSR_IA32_PMC0'' 0x000004c1]"

definition amd_macros :: "macro list" where
  "amd_macros =
    [Msr ''MSR_AMD64_PATCH_LEVEL'' 0x0000008b,
     Msr ''MSR_AMD64_TSC_RATIO'' 0xc0000104,
     Msr ''MSR_AMD64_NB_CFG'' 0xc001001f,
     Msr ''MSR_AMD64_PATCH_LOADER'' 0xc0010020,
     Msr ''MSR_AMD64_OSVW_ID_LENGTH'' 0xc0010140,
     Msr ''MSR_AMD64_OSVW_STATUS'' 0xc0010141,
     Msr ''MSR_AMD64_LS_CFG'' 0xc0011020,
     Msr ''MSR_AMD64_DC_CFG'' 0xc0011022,
     Msr ''MSR_AMD64_BU_CFG2'' 0xc001102a,
     Msr ''MSR_AMD64_IBSFETCHCTL'' 0xc0011030,
     Msr ''MSR_AMD64_IBSFETCHLINAD'' 0xc0011031,
     Msr ''MSR_AMD64_IBSFETCHPHYSAD'' 0xc0011032,
     Pos ''MSR_AMD64_IBSFETCH_REG_COUNT'' 3,
     Val ''MSR_AMD64_IBSFETCH_REG_MASK'' (push_bit 3 1 - 1),
     Msr ''MSR_AMD64_IBSOPCTL'' 0xc0011033,
     Msr ''MSR_AMD64_IBSOPRIP'' 0xc0011034,
     Msr ''MSR_AMD64_IBSOPDATA'' 0xc0011035,
     Msr ''MSR_AMD64_IBSOPDATA2'' 0xc0011036,
     Msr ''MSR_AMD64_IBSOPDATA3'' 0xc0011037,
     Msr ''MSR_AMD64_IBSDCLINAD'' 0xc0011038,
     Msr ''MSR_AMD64_IBSDCPHYSAD'' 0xc0011039,
     Pos ''MSR_AMD64_IBSOP_REG_COUNT'' 7,
     Val ''MSR_AMD64_IBSOP_REG_MASK'' (push_bit 7 1 - 1),
     Msr ''MSR_AMD64_IBSCTL'' 0xc001103a,
     Msr ''MSR_AMD64_IBSBRTARGET'' 0xc001103b,
     Msr ''MSR_AMD64_IBSOPDATA4'' 0xc001103d,
     Pos ''MSR_AMD64_IBS_REG_COUNT_MAX'' 8,
     Msr ''MSR_AMD64_VIRT_SPEC_CTRL'' 0xc001011f,
     Msr ''MSR_F17H_IRPERF'' 0xc00000e9,
     Msr ''MSR_F16H_L2I_PERF_CTL'' 0xc0010230,
     Msr ''MSR_F16H_L2I_PERF_CTR'' 0xc0010231,
     Msr ''MSR_F16H_DR1_ADDR_MASK'' 0xc0011019,
     Msr ''MSR_F16H_DR2_ADDR_MASK'' 0xc001101a,
     Msr ''MSR_F16H_DR3_ADDR_MASK'' 0xc001101b,
     Msr ''MSR_F16H_DR0_ADDR_MASK'' 0xc0011027,
     Msr ''MSR_F15H_PERF_CTL'' 0xc0010200,
     Msr ''MSR_F15H_PERF_CTR'' 0xc0010201,
     Msr ''MSR_F15H_NB_PERF_CTL'' 0xc0010240,
     Msr ''MSR_F15H_NB_PERF_CTR'' 0xc0010241,
     Msr ''MSR_F15H_PTSC'' 0xc0010280,
     Msr ''MSR_F15H_IC_CFG'' 0xc0011021,
     Msr ''MSR_FAM10H_MMIO_CONF_BASE'' 0xc0010058,
     Val ''FAM10H_MMIO_CONF_ENABLE'' (push_bit 0 1),
     Val ''FAM10H_MMIO_CONF_BUSRANGE_MASK'' 0xf,
     Pos ''FAM10H_MMIO_CONF_BUSRANGE_SHIFT'' 2,
     Val ''FAM10H_MMIO_CONF_BASE_MASK'' 0xfffffff,
     Pos ''FAM10H_MMIO_CONF_BASE_SHIFT'' 20,
     Msr ''MSR_FAM10H_NODE_ID'' 0xc001100c,
     Msr ''MSR_F10H_DECFG'' 0xc0011029,
     Pos ''MSR_F10H_DECFG_LFENCE_SERIALIZE_BIT'' 1,
     Val ''MSR_F10H_DECFG_LFENCE_SERIALIZE'' (push_bit 1 1),
     Msr ''MSR_K8_TOP_MEM1'' 0xc001001a,
     Msr ''MSR_K8_TOP_MEM2'' 0xc001001d,
     Msr ''MSR_K8_SYSCFG'' 0xc0010010,
     Pos ''MSR_K8_SYSCFG_MEM_ENCRYPT_BIT'' 23,
     Val ''MSR_K8_SYSCFG_MEM_ENCRYPT'' (push_bit 23 1),
     Msr ''MSR_K8_INT_PENDING_MSG'' 0xc0010055,
     Val ''K8_INTP_C1E_ACTIVE_MASK'' 0x18000000,
     Msr ''MSR_K8_TSEG_ADDR'' 0xc0010112,
     Msr ''MSR_K8_TSEG_MASK'' 0xc0010113,
     Val ''K8_MTRRFIXRANGE_DRAM_ENABLE'' 0x00040000,
     Val ''K8_MTRRFIXRANGE_DRAM_MODIFY'' 0x00080000,
     Val ''K8_MTRR_RDMEM_WRMEM_MASK'' 0x18181818,
     Msr ''MSR_K7_EVNTSEL0'' 0xc0010000,
     Msr ''MSR_K7_PERFCTR0'' 0xc0010004,
     Msr ''MSR_K7_EVNTSEL1'' 0xc0010001,
     Msr ''MSR_K7_PERFCTR1'' 0xc0010005,
     Msr ''MSR_K7_EVNTSEL2'' 0xc0010002,
     Msr ''MSR_K7_PERFCTR2'' 0xc0010006,
     Msr ''MSR_K7_EVNTSEL3'' 0xc0010003,
     Msr ''MSR_K7_PERFCTR3'' 0xc0010007,
     Msr ''MSR_K7_CLK_CTL'' 0xc001001b,
     Msr ''MSR_K7_HWCR'' 0xc0010015,
     Msr ''MSR_K7_FID_VID_CTL'' 0xc0010041,
     Msr ''MSR_K7_FID_VID_STATUS'' 0xc0010042]"

definition other_vendor_macros :: "macro list" where
  "other_vendor_macros =
    [Msr ''MSR_K6_WHCR'' 0xc0000082,
     Msr ''MSR_K6_UWCCR'' 0xc0000085,
     Msr ''MSR_K6_EPMR'' 0xc0000086,
     Msr ''MSR_K6_PSOR'' 0xc0000087,
     Msr ''MSR_K6_PFIR'' 0xc0000088,
     Msr ''MSR_IDT_FCR1'' 0x00000107,
     Msr ''MSR_IDT_FCR2'' 0x00000108,
     Msr ''MSR_IDT_FCR3'' 0x00000109,
     Msr ''MSR_IDT_FCR4'' 0x0000010a,
     Msr ''MSR_IDT_MCR0'' 0x00000110,
     Msr ''MSR_IDT_MCR1'' 0x00000111,
     Msr ''MSR_IDT_MCR2'' 0x00000112,
     Msr ''MSR_IDT_MCR3'' 0x00000113,
     Msr ''MSR_IDT_MCR4'' 0x00000114,
     Msr ''MSR_IDT_MCR5'' 0x00000115,
     Msr ''MSR_IDT_MCR6'' 0x00000116,
     Msr ''MSR_IDT_MCR7'' 0x00000117,
     Msr ''MSR_IDT_MCR_CTRL'' 0x00000120,
     Msr ''MSR_VIA_FCR'' 0x00001107,
     Msr ''MSR_VIA_LONGHAUL'' 0x0000110a,
     Msr ''MSR_VIA_RNG'' 0x0000110b,
     Msr ''MSR_VIA_BCR2'' 0x00001147,
     Msr ''MSR_TMTA_LONGRUN_CTRL'' 0x80868010,
     Msr ''MSR_TMTA_LONGRUN_FLAGS'' 0x80868011,
     Msr ''MSR_TMTA_LRTI_READOUT'' 0x80868018,
     Msr ''MSR_TMTA_LRTI_VOLT_MHZ'' 0x8086801a]"

definition architectural_macros :: "macro list" where
  "architectural_macros =
    [Msr ''MSR_IA32_P5_MC_ADDR'' 0x00000000,
     Msr ''MSR_IA32_P5_MC_TYPE'' 0x00000001,
     Msr ''MSR_IA32_TSC'' 0x00000010,
     Msr ''MSR_IA32_PLATFORM_ID'' 0x00000017,
     Msr ''MSR_IA32_EBL_CR_POWERON'' 0x0000002a,
     Msr ''MSR_EBC_FREQUENCY_ID'' 0x0000002c,
     Msr ''MSR_SMI_COUNT'' 0x00000034,
     Msr ''MSR_IA32_FEATURE_CONTROL'' 0x0000003a,
     Msr ''MSR_IA32_TSC_ADJUST'' MSR_IA32_TSC_ADJUST,
     Msr ''MSR_IA32_BNDCFGS'' 0x00000d90,
     Val ''MSR_IA32_BNDCFGS_RSVD'' 0x00000ffc,
     Msr ''MSR_IA32_XSS'' 0x00000da0,
     Val ''FEATURE_CONTROL_LOCKED'' (push_bit 0 1),
     Val ''FEATURE_CONTROL_VMXON_ENABLED_INSIDE_SMX'' (push_bit 1 1),
     Val ''FEATURE_CONTROL_VMXON_ENABLED_OUTSIDE_SMX'' (push_bit 2 1),
     Val ''FEATURE_CONTROL_LMCE'' (push_bit 20 1),
     Msr ''MSR_IA32_APICBASE'' MSR_IA32_APICBASE,
     Val ''MSR_IA32_APICBASE_BSP'' (push_bit 8 1),
     Val ''MSR_IA32_APICBASE_ENABLE'' (push_bit 11 1),
     Val ''MSR_IA32_APICBASE_BASE'' (ulong_of_int (to_int32 (push_bit 12 0xfffff))),
     Msr ''MSR_IA32_TSCDEADLINE'' MSR_IA32_TSCDEADLINE,
     Msr ''MSR_IA32_UCODE_WRITE'' 0x00000079,
     Msr ''MSR_IA32_UCODE_REV'' 0x0000008b,
     Msr ''MSR_IA32_SMM_MONITOR_CTL'' 0x0000009b,
     Msr ''MSR_IA32_SMBASE'' MSR_IA32_SMBASE,
     Msr ''MSR_IA32_PERF_STATUS'' 0x00000198,
     Msr ''MSR_IA32_PERF_CTL'' 0x00000199,
     Val ''INTEL_PERF_CTL_MASK'' 0xffff,
     Msr ''MSR_AMD_PSTATE_DEF_BASE'' 0xc0010064,
     Msr ''MSR_AMD_PERF_STATUS'' 0xc0010063,
     Msr ''MSR_AMD_PERF_CTL'' 0xc0010062,
     Msr ''MSR_IA32_MPERF'' 0x000000e7,
     Msr ''MSR_IA32_APERF'' 0x000000e8,
     Msr ''MSR_IA32_THERM_CONTROL'' 0x0000019a,
     Msr ''MSR_IA32_THERM_INTERRUPT'' 0x0000019b,
     Val ''THERM_INT_HIGH_ENABLE'' (push_bit 0 1),
     Val ''THERM_INT_LOW_ENABLE'' (push_bit 1 1),
     Val ''THERM_INT_PLN_ENABLE'' (push_bit 24 1),
     Msr ''MSR_IA32_THERM_STATUS'' 0x0000019c,
     Val ''THERM_STATUS_PROCHOT'' (push_bit 0 1),
     Val ''THERM_STATUS_POWER_LIMIT'' (push_bit 10 1),
     Msr ''MSR_THERM2_CTL'' 0x0000019d,
     Val ''MSR_THERM2_CTL_TM_SELECT'' (push_bit 16 1),
     Msr ''MSR_IA32_MISC_ENABLE'' MSR_IA32_MISC_ENABLE,
     Msr ''MSR_IA32_TEMPERATURE_TARGET'' 0x000001a2,
     Msr ''MSR_MISC_FEATURE_CONTROL'' 0x000001a4,
     Msr ''MSR_MISC_PWR_MGMT'' 0x000001aa,
     Msr ''MSR_IA32_ENERGY_PERF_BIAS'' 0x000001b0,
     Val ''ENERGY_PERF_BIAS_PERFORMANCE'' 0,
     Val ''ENERGY_PERF_BIAS_BALANCE_PERFORMANCE'' 4,
     Val ''ENERGY_PERF_BIAS_NORMAL'' 6,
     Val ''ENERGY_PERF_BIAS_BALANCE_POWERSAVE'' 8,
     Val ''ENERGY_PERF_BIAS_POWERSAVE'' 15,
     Msr ''MSR_IA32_PACKAGE_THERM_STATUS'' 0x000001b1,
     Val ''PACKAGE_THERM_STATUS_PROCHOT'' (push_bit 0 1),
     Val ''PACKAGE_THERM_STATUS_POWER_LIMIT'' (push_bit 10 1),
     Msr ''MSR_IA32_PACKAGE_THERM_INTERRUPT'' 0x000001b2,
     Val ''PACKAGE_THERM_INT_HIGH_ENABLE'' (push_bit 0 1),
     Val ''PACKAGE_THERM_INT_LOW_ENABLE'' (push_bit 1 1),
     Val ''PACKAGE_THERM_INT_PLN_ENABLE'' (push_bit 24 1),
     Val ''THERM_INT_THRESHOLD0_ENABLE'' (push_bit 15 1),
     Pos ''THERM_SHIFT_THRESHOLD0'' 8,
     Val ''THERM_MASK_THRESHOLD0'' (push_bit 8 0x7f),
     Val ''THERM_INT_THRESHOLD1_ENABLE'' (push_bit 23 1),
     Pos ''THERM_SHIFT_THRESHOLD1'' 16,
     Val ''THERM_MASK_THRESHOLD1'' (push_bit 16 0x7f),
     Val ''THERM_STATUS_THRESHOLD0'' (push_bit 6 1),
     Val ''THERM_LOG_THRESHOLD0'' (push_bit 7 1),
     Val ''THERM_STATUS_THRESHOLD1'' (push_bit 8 1),
     Val ''THERM_LOG_THRESHOLD1'' (push_bit 9 1)]"

definition misc_enable_macros :: "macro list" where
  "misc_enable_macros =
    [Pos ''MSR_IA32_MISC_ENABLE_FAST_STRING_BIT'' 0,
     Val ''MSR_IA32_MISC_ENABLE_FAST_STRING'' (push_bit 0 1),
     Pos ''MSR_IA32_MISC_ENABLE_TCC_BIT'' 1,
     Val ''MSR_IA32_MISC_ENABLE_TCC'' (push_bit 1 1),
     Pos ''MSR_IA32_MISC_ENABLE_EMON_BIT'' 7,
     Val ''MSR_IA32_MISC_ENABLE_EMON'' (push_bit 7 1),
     Pos ''MSR_IA32_MISC_ENABLE_BTS_UNAVAIL_BIT'' 11,
     Val ''MSR_IA32_MISC_ENABLE_BTS_UNAVAIL'' (push_bit 11 1),
     Pos ''MSR_IA32_MISC_ENABLE_PEBS_UNAVAIL_BIT'' 12,
     Val ''MSR_IA32_MISC_ENABLE_PEBS_UNAVAIL'' (push_bit 12 1),
     Pos ''MSR_IA32_MISC_ENABLE_ENHANCED_SPEEDSTEP_BIT'' 16,
     Val ''MSR_IA32_MISC_ENABLE_ENHANCED_SPEEDSTEP'' (push_bit 16 1),
     Pos ''MSR_IA32_MISC_ENABLE_MWAIT_BIT'' 18,
     Val ''MSR_IA32_MISC_ENABLE_MWAIT'' (push_bit 18 1),
     Pos ''MSR_IA32_MISC_ENABLE_LIMIT_CPUID_BIT'' 22,
     Val ''MSR_IA32_MISC_ENABLE_LIMIT_CPUID'' (push_bit 22 1),
     Pos ''MSR_IA32_MISC_ENABLE_XTPR_DISABLE_BIT'' 23,
     Val ''MSR_IA32_MISC_ENABLE_XTPR_DISABLE'' (push_bit 23 1),
     Pos ''MSR_IA32_MISC_ENABLE_XD_DISABLE_BIT'' 34,
     Val ''MSR_IA32_MISC_ENABLE_XD_DISABLE'' (push_bit 34 1),
     Pos ''MSR_IA32_MISC_ENABLE_X87_COMPAT_BIT'' 2,
     Val ''MSR_IA32_MISC_ENABLE_X87_COMPAT'' (push_bit 2 1),
     Pos ''MSR_IA32_MISC_ENABLE_TM1_BIT'' 3,
     Val ''MSR_IA32_MISC_ENABLE_TM1'' (push_bit 3 1),
     Pos ''MSR_IA32_MISC_ENABLE_SPLIT_LOCK_DISABLE_BIT'' 4,
     Val ''MSR_IA32_MISC_ENABLE_SPLIT_LOCK_DISABLE'' (push_bit 4 1),
     Pos ''MSR_IA32_MISC_ENABLE_L3CACHE_DISABLE_BIT'' 6,
     Val ''MSR_IA32_MISC_ENABLE_L3CACHE_DISABLE'' (push_bit 6 1),
     Pos ''MSR_IA32_MISC_ENABLE_SUPPRESS_LOCK_BIT'' 8,
     Val ''MSR_IA32_MISC_ENABLE_SUPPRESS_LOCK'' (push_bit 8 1),
     Pos ''MSR_IA32_MISC_ENABLE_PREFETCH_DISABLE_BIT'' 9,
     Val ''MSR_IA32_MISC_ENABLE_PREFETCH_DISABLE'' (push_bit 9 1),
     Pos ''MSR_IA32_MISC_ENABLE_FERR_BIT'' 10,
     Val ''MSR_IA32_MISC_ENABLE_FERR'' (push_bit 10 1),
     Pos ''MSR_IA32_MISC_ENABLE_FERR_MULTIPLEX_BIT'' 10,
     Val ''MSR_IA32_MISC_ENABLE_FERR_MULTIPLEX'' (push_bit 10 1),
     Pos ''MSR_IA32_MISC_ENABLE_TM2_BIT'' 13,
     Val ''MSR_IA32_MISC_ENABLE_TM2'' (push_bit 13 1),
     Pos ''MSR_IA32_MISC_ENABLE_ADJ_PREF_DISABLE_BIT'' 19,
     Val ''MSR_IA32_MISC_ENABLE_ADJ_PREF_DISABLE'' (push_bit 19 1),
     Pos ''MSR_IA32_MISC_ENABLE_SPEEDSTEP_LOCK_BIT'' 20,
     Val ''MSR_IA32_MISC_ENABLE_SPEEDSTEP_LOCK'' (push_bit 20 1),
     Pos ''MSR_IA32_MISC_ENABLE_L1D_CONTEXT_BIT'' 24,
     Val ''MSR_IA32_MISC_ENABLE_L1D_CONTEXT'' (push_bit 24 1),
     Pos ''MSR_IA32_MISC_ENABLE_DCU_PREF_DISABLE_BIT'' 37,
     Val ''MSR_IA32_MISC_ENABLE_DCU_PREF_DISABLE'' (push_bit 37 1),
     Pos ''MSR_IA32_MISC_ENABLE_TURBO_DISABLE_BIT'' 38,
     Val ''MSR_IA32_MISC_ENABLE_TURBO_DISABLE'' (push_bit 38 1),
     Pos ''MSR_IA32_MISC_ENABLE_IP_PREF_DISABLE_BIT'' 39,
     Val ''MSR_IA32_MISC_ENABLE_IP_PREF_DISABLE'' (push_bit 39 1),
     Msr ''MSR_MISC_FEATURES_ENABLES'' MSR_MISC_FEATURES_ENABLES,
     Pos ''MSR_MISC_FEATURES_ENABLES_CPUID_FAULT_BIT'' 0,
     Val ''MSR_MISC_FEATURES_ENABLES_CPUID_FAULT'' (push_bit 0 1),
     Pos ''MSR_MISC_FEATURES_ENABLES_RING3MWAIT_BIT'' 1,
     Msr ''MSR_IA32_TSC_DEADLINE'' 0x000006e0]"

definition p4_macros :: "macro list" where
  "p4_macros =
    [Msr ''MSR_IA32_MCG_EAX'' 0x00000180,
     Msr ''MSR_IA32_MCG_EBX'' 0x00000181,
     Msr ''MSR_IA32_MCG_ECX'' 0x00000182,
     Msr ''MSR_IA32_MCG_EDX'' 0x00000183,
     Msr ''MSR_IA32_MCG_ESI'' 0x00000184,
     Msr ''MSR_IA32_MCG_EDI'' 0x00000185,
     Msr ''MSR_IA32_MCG_EBP'' 0x00000186,
     Msr ''MSR_IA32_MCG_ESP'' 0x00000187,
     Msr ''MSR_IA32_MCG_EFLAGS'' 0x00000188,
     Msr ''MSR_IA32_MCG_EIP'' 0x00000189,
     Msr ''MSR_IA32_MCG_RESERVED'' 0x0000018a,
     Msr ''MSR_P4_BPU_PERFCTR0'' 0x00000300,
     Msr ''MSR_P4_BPU_PERFCTR1'' 0x00000301,
     Msr ''MSR_P4_BPU_PERFCTR2'' 0x00000302,
     Msr ''MSR_P4_BPU_PERFCTR3'' 0x00000303,
     Msr ''MSR_P4_MS_PERFCTR0'' 0x00000304,
     Msr ''MSR_P4_MS_PERFCTR1'' 0x00000305,
     Msr ''MSR_P4_MS_PERFCTR2'' 0x00000306,
     Msr ''MSR_P4_MS_PERFCTR3'' 0x00000307,
     Msr ''MSR_P4_FLAME_PERFCTR0'' 0x00000308,
     Msr ''MSR_P4_FLAME_PERFCTR1'' 0x00000309,
     Msr ''MSR_P4_FLAME_PERFCTR2'' 0x0000030a,
     Msr ''MSR_P4_FLAME_PERFCTR3'' 0x0000030b,
     Msr ''MSR_P4_IQ_PERFCTR0'' 0x0000030c,
     Msr ''MSR_P4_IQ_PERFCTR1'' 0x0000030d,
     Msr ''MSR_P4_IQ_PERFCTR2'' 0x0000030e,
     Msr ''MSR_P4_IQ_PERFCTR3'' 0x0000030f,
     Msr ''MSR_P4_IQ_PERFCTR4'' 0x00000310,
     Msr ''MSR_P4_IQ_PERFCTR5'' 0x00000311,
     Msr ''MSR_P4_BPU_CCCR0'' 0x00000360,
     Msr ''MSR_P4_BPU_CCCR1'' 0x00000361,
     Msr ''MSR_P4_BPU_CCCR2'' 0x00000362,
     Msr ''MSR_P4_BPU_CCCR3'' 0x00000363,
     Msr ''MSR_P4_MS_CCCR0'' 0x00000364,
     Msr ''MSR_P4_MS_CCCR1'' 0x00000365,
     Msr ''MSR_P4_MS_CCCR2'' 0x00000366,
     Msr ''MSR_P4_MS_CCCR3'' 0x00000367,
     Msr ''MSR_P4_FLAME_CCCR0'' 0x00000368,
     Msr ''MSR_P4_FLAME_CCCR1'' 0x00000369,
     Msr ''MSR_P4_FLAME_CCCR2'' 0x0000036a,
     Msr ''MSR_P4_FLAME_CCCR3'' 0x0000036b,
     Msr ''MSR_P4_IQ_CCCR0'' 0x0000036c,
     Msr ''MSR_P4_IQ_CCCR1'' 0x0000036d,
     Msr ''MSR_P4_IQ_CCCR2'' 0x0000036e,
     Msr ''MSR_P4_IQ_CCCR3'' 0x0000036f,
     Msr ''MSR_P4_IQ_CCCR4'' 0x00000370,
     Msr ''MSR_P4_IQ_CCCR5'' 0x00000371,
     Msr ''MSR_P4_ALF_ESCR0'' 0x000003ca,
     Msr ''MSR_P4_ALF_ESCR1'' 0x000003cb,
     Msr ''MSR_P4_BPU_ESCR0'' 0x000003b2,
     Msr ''MSR_P4_BPU_ESCR1'' 0x000003b3,
     Msr ''MSR_P4_BSU_ESCR0'' 0x000003a0,
     Msr ''MSR_P4_BSU_ESCR1'' 0x000003a1,
     Msr ''MSR_P4_CRU_ESCR0'' 0x000003b8,
     Msr ''MSR_P4_CRU_ESCR1'' 0x000003b9,
     Msr ''MSR_P4_CRU_ESCR2'' 0x000003cc,
     Msr ''MSR_P4_CRU_ESCR3'' 0x000003cd,
     Msr ''MSR_P4_CRU_ESCR4'' 0x000003e0,
     Msr ''MSR_P4_CRU_ESCR5'' 0x000003e1,
     Msr ''MSR_P4_DAC_ESCR0'' 0x000003a8,
     Msr ''MSR_P4_DAC_ESCR1'' 0x000003a9,
     Msr ''MSR_P4_FIRM_ESCR0'' 0x000003a4,
     Msr ''MSR_P4_FIRM_ESCR1'' 0x000003a5,
     Msr ''MSR_P4_FLAME_ESCR0'' 0x000003a6,
     Msr ''MSR_P4_FLAME_ESCR1'' 0x000003a7,
     Msr ''MSR_P4_FSB_ESCR0'' 0x000003a2,
     Msr ''MSR_P4_FSB_ESCR1'' 0x000003a3,
     Msr ''MSR_P4_IQ_ESCR0'' 0x000003ba,
     Msr ''MSR_P4_IQ_ESCR1'' 0x000003bb,
     Msr ''MSR_P4_IS_ESCR0'' 0x000003b4,
     Msr ''MSR_P4_IS_ESCR1'' 0x000003b5,
     Msr ''MSR_P4_ITLB_ESCR0'' 0x000003b6,
     Msr ''MSR_P4_ITLB_ESCR1'' 0x000003b7,
     Msr ''MSR_P4_IX_ESCR0'' 0x000003c8,
     Msr ''MSR_P4_IX_ESCR1'' 0x000003c9,
     Msr ''MSR_P4_MOB_ESCR0'' 0x000003aa,
     Msr ''MSR_P4_MOB_ESCR1'' 0x000003ab,
     Msr ''MSR_P4_MS_ESCR0'' 0x000003c0,
     Msr ''MSR_P4_MS_ESCR1'' 0x000003c1,
     Msr ''MSR_P4_PMH_ESCR0'' 0x000003ac,
     Msr ''MSR_P4_PMH_ESCR1'' 0x000003ad,
     Msr ''MSR_P4_RAT_ESCR0'' 0x000003bc,
     Msr ''MSR_P4_RAT_ESCR1'' 0x000003bd,
     Msr ''MSR_P4_SAAT_ESCR0'' 0x000003ae,
     Msr ''MSR_P4_SAAT_ESCR1'' 0x000003af,
     Msr ''MSR_P4_SSU_ESCR0'' 0x000003be,
     Msr ''MSR_P4_SSU_ESCR1'' 0x000003bf,
     Msr ''MSR_P4_TBPU_ESCR0'' 0x000003c2,
     Msr ''MSR_P4_TBPU_ESCR1'' 0x000003c3,
     Msr ''MSR_P4_TC_ESCR0'' 0x000003c4,
     Msr ''MSR_P4_TC_ESCR1'' 0x000003c5,
     Msr ''MSR_P4_U2L_ESCR0'' 0x000003b0,
     Msr ''MSR_P4_U2L_ESCR1'' 0x000003b1,
     Msr ''MSR_P4_PEBS_MATRIX_VERT'' 0x000003f2]"

definition core_vmx_macros :: "macro list" where
  "core_vmx_macros =
    [Msr ''MSR_CORE_PERF_FIXED_CTR0'' MSR_CORE_PERF_FIXED_CTR0,
     Msr ''MSR_CORE_PERF_FIXED_CTR1'' MSR_CORE_PERF_FIXED_CTR1,
     Msr ''MSR_CORE_PERF_FIXED_CTR2'' MSR_CORE_PERF_FIXED_CTR2,
     Msr ''MSR_CORE_PERF_FIXED_CTR_CTRL'' MSR_CORE_PERF_FIXED_CTR_CTRL,
     Msr ''MSR_CORE_PERF_GLOBAL_STATUS'' MSR_CORE_PERF_GLOBAL_STATUS,
     Msr ''MSR_CORE_PERF_GLOBAL_CTRL'' MSR_CORE_PERF_GLOBAL_CTRL,
     Msr ''MSR_CORE_PERF_GLOBAL_OVF_CTRL'' MSR_CORE_PERF_GLOBAL_OVF_CTRL,
     Msr ''MSR_GEODE_BUSCONT_CONF0'' 0x00001900,
     Msr ''MSR_IA32_VMX_BASIC'' 0x00000480,
     Msr ''MSR_IA32_VMX_PINBASED_CTLS'' 0x00000481,
     Msr ''MSR_IA32_VMX_PROCBASED_CTLS'' 0x00000482,
     Msr ''MSR_IA32_VMX_EXIT_CTLS'' 0x00000483,
     Msr ''MSR_IA32_VMX_ENTRY_CTLS'' 0x00000484,
     Msr ''MSR_IA32_VMX_MISC'' 0x00000485,
     Msr ''MSR_IA32_VMX_CR0_FIXED0'' 0x00000486,
     Msr ''MSR_IA32_VMX_CR0_FIXED1'' 0x00000487,
     Msr ''MSR_IA32_VMX_CR4_FIXED0'' 0x00000488,
     Msr ''MSR_IA32_VMX_CR4_FIXED1'' 0x00000489,
     Msr ''MSR_IA32_VMX_VMCS_ENUM'' 0x0000048a,
     Msr ''MSR_IA32_VMX_PROCBASED_CTLS2'' 0x0000048b,
     Msr ''MSR_IA32_VMX_EPT_VPID_CAP'' 0x0000048c,
     Msr ''MSR_IA32_VMX_TRUE_PINBASED_CTLS'' 0x0000048d,
     Msr ''MSR_IA32_VMX_TRUE_PROCBASED_CTLS'' 0x0000048e,
     Msr ''MSR_IA32_VMX_TRUE_EXIT_CTLS'' 0x0000048f,
     Msr ''MSR_IA32_VMX_TRUE_ENTRY_CTLS'' 0x00000490,
     Msr ''MSR_IA32_VMX_VMFUNC'' 0x00000491,
     Pos ''VMX_BASIC_VMCS_SIZE_SHIFT'' 32,
     Val ''VMX_BASIC_TRUE_CTLS'' (push_bit 55 1),
     Val ''VMX_BASIC_64'' 0x0001000000000000,
     Pos ''VMX_BASIC_MEM_TYPE_SHIFT'' 50,
     Val ''VMX_BASIC_MEM_TYPE_MASK'' 0x003c000000000000,
     Val ''VMX_BASIC_MEM_TYPE_WB'' 6,
     Val ''VMX_BASIC_INOUT'' 0x0040000000000000,
     Val ''MSR_IA32_VMX_MISC_VMWRITE_SHADOW_RO_FIELDS'' (push_bit 29 1),
     Val ''MSR_IA32_VMX_MISC_PREEMPTION_TIMER_SCALE'' 0x1f,
     Msr ''MSR_VM_CR'' 0xc0010114,
     Msr ''MSR_VM_IGNNE'' 0xc0010115,
     Msr ''MSR_VM_HSAVE_PA'' 0xc0010117]"

definition kvm_macros :: "macro list" where
  "kvm_macros =
    [Val ''KVM_CPUID_SIGNATURE'' 0x40000000,
     Val ''KVM_CPUID_FEATURES'' 0x40000001,
     Pos ''KVM_FEATURE_CLOCKSOURCE'' 0,
     Pos ''KVM_FEATURE_NOP_IO_DELAY'' 1,
     Pos ''KVM_FEATURE_MMU_OP'' 2,
     Pos ''KVM_FEATURE_CLOCKSOURCE2'' 3,
     Pos ''KVM_FEATURE_ASYNC_PF'' 4,
     Pos ''KVM_FEATURE_STEAL_TIME'' 5,
     Pos ''KVM_FEATURE_PV_EOI'' 6,
     Pos ''KVM_FEATURE_PV_UNHALT'' 7,
     Pos ''KVM_FEATURE_ASYNC_PF_VMEXIT'' 10,
     Pos ''KVM_FEATURE_PV_SEND_IPI'' 11,
     Pos ''KVM_FEATURE_CLOCKSOURCE_STABLE_BIT'' 24,
     Msr ''MSR_KVM_WALL_CLOCK'' MSR_KVM_WALL_CLOCK,
     Msr ''MSR_KVM_SYSTEM_TIME'' MSR_KVM_SYSTEM_TIME,
     Val ''KVM_MSR_ENABLED'' 1,
     Msr ''MSR_KVM_WALL_CLOCK_NEW'' MSR_KVM_WALL_CLOCK_NEW,
     Msr ''MSR_KVM_SYSTEM_TIME_NEW'' MSR_KVM_SYSTEM_TIME_NEW,
     Msr ''MSR_KVM_ASYNC_PF_EN'' 0x4b564d02,
     Msr ''MSR_KVM_STEAL_TIME'' 0x4b564d03,
     Msr ''MSR_KVM_PV_EOI_EN'' 0x4b564d04,
     Pos ''KVM_STEAL_ALIGNMENT_BITS'' 5,
     Val ''KVM_STEAL_VALID_BITS'' (push_bit (5 + 1) (-1)),
     Val ''KVM_STEAL_RESERVED_MASK'' (push_bit 1 (push_bit 5 1 - 1)),
     Val ''KVM_MAX_MMU_OP_BATCH'' 32,
     Val ''KVM_ASYNC_PF_ENABLED'' (push_bit 0 1),
     Val ''KVM_ASYNC_PF_SEND_ALWAYS'' (push_bit 1 1),
     Val ''KVM_ASYNC_PF_DELIVERY_AS_PF_VMEXIT'' (push_bit 2 1),
     Val ''KVM_MMU_OP_WRITE_PTE'' 1,
     Val ''KVM_MMU_OP_FLUSH_TLB'' 2,
     Val ''KVM_MMU_OP_RELEASE_PT'' 3,
     Val ''KVM_PV_REASON_PAGE_NOT_PRESENT'' 1,
     Val ''KVM_PV_REASON_PAGE_READY'' 2,
     Pos ''KVM_PV_EOI_BIT'' 0,
     Val ''KVM_PV_EOI_MASK'' (push_bit 0 0x1),
     Val ''KVM_PV_EOI_ENABLED'' (push_bit 0 0x1),
     Val ''KVM_PV_EOI_DISABLED'' 0x0]"

text \<open>\<open>local-msr-index.h\<close> defines \<open>MSR_MISC_FEATURES_ENABLES\<close> unless it has been defined.\<close>

definition local_macros :: "string set \<Rightarrow> macro list" where
  "local_macros defined =
    (if ''MSR_MISC_FEATURES_ENABLES'' \<notin> defined then [Msr ''MSR_MISC_FEATURES_ENABLES'' 0x00000140] else [])"

fun macro_name :: "macro \<Rightarrow> string" where
  "macro_name (Msr n v) = n"
| "macro_name (Pos n b) = n"
| "macro_name (Val n v) = n"

definition msr_index_macros :: "macro list" where
  "msr_index_macros = x86_64_macros @ intel_macros @ trace_mtrr_macros @ power_macros @ hwp_epp_macros @ perfctr_macros @
    amd_macros @ other_vendor_macros @ architectural_macros @ misc_enable_macros @ p4_macros @ core_vmx_macros"

text \<open>The headers in the order of inclusion.\<close>

definition header_macros :: "macro list" where
  "header_macros = msr_index_macros @ local_macros (macro_name ` set msr_index_macros) @ kvm_macros"

section \<open>Which of the named MSRs the module knows\<close>

fun msr_rows :: "macro list \<Rightarrow> (string \<times> u32) list" where
  "msr_rows [] = []"
| "msr_rows (Msr n v # ms) = (n, v) # msr_rows ms"
| "msr_rows (Pos n b # ms) = msr_rows ms"
| "msr_rows (Val n v # ms) = msr_rows ms"

text \<open>The MSRs with a counter of their own, under the names of the macros and of the report.\<close>

fun reported :: "macro list \<Rightarrow> (string \<times> string) list" where
  "reported [] = []"
| "reported (Msr n v # ms) = (if is_other v then reported ms else (n, msr2str v) # reported ms)"
| "reported (Pos n b # ms) = reported ms"
| "reported (Val n v # ms) = reported ms"

lemma reported_append: "reported (xs @ ys) = reported xs @ reported ys"
  by (induction xs rule: reported.induct) auto

lemma msr_rows_append: "msr_rows (xs @ ys) = msr_rows xs @ msr_rows ys"
  by (induction xs rule: msr_rows.induct) auto

lemma reported_rows: "reported ms = map (\<lambda>(n, v). (n, msr2str v)) (filter (\<lambda>(n, v). \<not> is_other v) (msr_rows ms))"
  by (induction ms rule: reported.induct) auto

lemma is_other_iff:
  "is_other v \<longleftrightarrow> v \<notin> {0x1b, 0x3b, 0x6e0, 0x1a0, 0x17a, 0x17b, 0x4d0, 0x9e, 0xce, 0x140, 0x4b564d00, 0x11, 0x4b564d01, 0x12,
     0x309, 0x30a, 0x30b, 0x38d, 0x38e, 0x38f, 0x390} \<and> \<not> in_apic_range v"
  unfolding is_other_def switch_defs
  by (simp add: msr_consts in_apic_range_def)

lemma not_apic_one: "\<not> (2048 :: u32) \<le> 1"
  by (simp add: word_le_nat_alt)

lemmas reported_eval = not_apic_one is_other_iff in_apic_range_def msr_consts

lemma labels:
  "msr2str 0x1b = ''MSR_IA32_APICBASE''" "msr2str 0x3b = ''MSR_IA32_TSC_ADJUST''" "msr2str 0x6e0 = ''MSR_IA32_TSCDEADLINE''"
  "msr2str 0x1a0 = ''MSR_IA32_MISC_ENABLE''" "msr2str 0x17a = ''MSR_IA32_MCG_STATUS''" "msr2str 0x17b = ''MSR_IA32_MCG_CTL''"
  "msr2str 0x4d0 = ''MSR_IA32_MCG_EXT_CTL''" "msr2str 0x9e = ''MSR_IA32_SMBASE''" "msr2str 0xce = ''MSR_PLATFORM_INFO''"
  "msr2str 0x140 = ''MSR_MISC_FEATURES_ENABLES''" "msr2str 0x4b564d00 = ''MSR_KVM_WALL_CLOCK''" "msr2str 0x11 = ''MSR_KVM_WALL_CLOCK''"
  "msr2str 0x4b564d01 = ''MSR_KVM_SYSTEM_TIME''" "msr2str 0x12 = ''MSR_KVM_SYSTEM_TIME''"
  "msr2str 0x309 = ''MSR_CORE_PERF_FIXED_CTR0''" "msr2str 0x30a = ''MSR_CORE_PERF_FIXED_CTR1''"
  "msr2str 0x30b = ''MSR_CORE_PERF_FIXED_CTR2''" "msr2str 0x38d = ''MSR_CORE_PERF_FIXED_CTR_CTRL''"
  "msr2str 0x38e = ''MSR_CORE_PERF_GLOBAL_STATUS''" "msr2str 0x38f = ''MSR_CORE_PERF_GLOBAL_CTRL''"
  "msr2str 0x390 = ''MSR_CORE_PERF_GLOBAL_OVF_CTRL''"
  by (simp_all add: msr2str_def msr_consts in_apic_range_def)

text \<open>One table after the other.\<close>

lemma reported_x86_64: "reported x86_64_macros = []"
  by (simp add: x86_64_macros_def reported_eval)

lemma reported_intel: "reported intel_macros = [(''MSR_PLATFORM_INFO'', ''MSR_PLATFORM_INFO''), (''MSR_IA32_MCG_STATUS'', ''MSR_IA32_MCG_STATUS''), (''MSR_IA32_MCG_CTL'', ''MSR_IA32_MCG_CTL''), (''MSR_IA32_MCG_EXT_CTL'', ''MSR_IA32_MCG_EXT_CTL'')]"
  by (simp add: intel_macros_def reported_eval labels)

lemma reported_trace_mtrr: "reported trace_mtrr_macros = []"
  by (simp add: trace_mtrr_macros_def reported_eval)

lemma reported_power: "reported power_macros = []"
  by (simp add: power_macros_def reported_eval)

lemma reported_hwp_epp: "reported hwp_epp_macros = []"
  by (simp add: hwp_epp_macros_def reported_eval)

lemma reported_perfctr: "reported perfctr_macros = []"
  by (simp add: perfctr_macros_def reported_eval)

lemma reported_amd: "reported amd_macros = []"
  by (simp add: amd_macros_def reported_eval)

lemma reported_other_vendor: "reported other_vendor_macros = []"
  by (simp add: other_vendor_macros_def reported_eval)

lemma reported_architectural: "reported architectural_macros = [(''MSR_IA32_TSC_ADJUST'', ''MSR_IA32_TSC_ADJUST''), (''MSR_IA32_APICBASE'', ''MSR_IA32_APICBASE''), (''MSR_IA32_TSCDEADLINE'', ''MSR_IA32_TSCDEADLINE''), (''MSR_IA32_SMBASE'', ''MSR_IA32_SMBASE''), (''MSR_IA32_MISC_ENABLE'', ''MSR_IA32_MISC_ENABLE'')]"
  by (simp add: architectural_macros_def reported_eval labels)

lemma reported_misc_enable: "reported misc_enable_macros = [(''MSR_MISC_FEATURES_ENABLES'', ''MSR_MISC_FEATURES_ENABLES''), (''MSR_IA32_TSC_DEADLINE'', ''MSR_IA32_TSCDEADLINE'')]"
  by (simp add: misc_enable_macros_def reported_eval labels)

lemma reported_p4: "reported p4_macros = [(''MSR_P4_FLAME_PERFCTR1'', ''MSR_CORE_PERF_FIXED_CTR0''), (''MSR_P4_FLAME_PERFCTR2'', ''MSR_CORE_PERF_FIXED_CTR1''), (''MSR_P4_FLAME_PERFCTR3'', ''MSR_CORE_PERF_FIXED_CTR2'')]"
  by (simp add: p4_macros_def reported_eval labels)

lemma reported_core_vmx: "reported core_vmx_macros = [(''MSR_CORE_PERF_FIXED_CTR0'', ''MSR_CORE_PERF_FIXED_CTR0''), (''MSR_CORE_PERF_FIXED_CTR1'', ''MSR_CORE_PERF_FIXED_CTR1''), (''MSR_CORE_PERF_FIXED_CTR2'', ''MSR_CORE_PERF_FIXED_CTR2''), (''MSR_CORE_PERF_FIXED_CTR_CTRL'', ''MSR_CORE_PERF_FIXED_CTR_CTRL''), (''MSR_CORE_PERF_GLOBAL_STATUS'', ''MSR_CORE_PERF_GLOBAL_STATUS''), (''MSR_CORE_PERF_GLOBAL_CTRL'', ''MSR_CORE_PERF_GLOBAL_CTRL''), (''MSR_CORE_PERF_GLOBAL_OVF_CTRL'', ''MSR_CORE_PERF_GLOBAL_OVF_CTRL'')]"
  by (simp add: core_vmx_macros_def reported_eval labels)

lemma reported_kvm: "reported kvm_macros = [(''MSR_KVM_WALL_CLOCK'', ''MSR_KVM_WALL_CLOCK''), (''MSR_KVM_SYSTEM_TIME'', ''MSR_KVM_SYSTEM_TIME''), (''MSR_KVM_WALL_CLOCK_NEW'', ''MSR_KVM_WALL_CLOCK''), (''MSR_KVM_SYSTEM_TIME_NEW'', ''MSR_KVM_SYSTEM_TIME'')]"
  by (simp add: kvm_macros_def reported_eval labels)

lemma local_inactive: "local_macros (macro_name ` set msr_index_macros) = []"
proof -
  have "Msr ''MSR_MISC_FEATURES_ENABLES'' MSR_MISC_FEATURES_ENABLES \<in> set misc_enable_macros"
    by (simp add: misc_enable_macros_def)
  then have "Msr ''MSR_MISC_FEATURES_ENABLES'' MSR_MISC_FEATURES_ENABLES \<in> set msr_index_macros"
    by (simp add: msr_index_macros_def)
  then have "''MSR_MISC_FEATURES_ENABLES'' \<in> macro_name ` set msr_index_macros" by force
  then show ?thesis by (simp add: local_macros_def)
qed

lemmas reported_tables =
  reported_x86_64 reported_intel reported_trace_mtrr reported_power reported_hwp_epp reported_perfctr reported_amd reported_other_vendor reported_architectural reported_misc_enable reported_p4 reported_core_vmx reported_kvm

text \<open>
  Which of the about four hundred MSRs with a name in the headers are reported by name. Exactly these are
  counted apart from \<open>MSR_OTHERS\<close>, each under the label on the right: its own name, but for the second name of
  the deadline register, the new numbers of the two KVM clocks, which share the counters of the old ones, and three
  counters of the Pentium 4, which share their numbers with the fixed counters.
\<close>

lemma headers_reported:
  "map (\<lambda>(n, v). (n, msr2str v)) (filter (\<lambda>(n, v). msr2str v \<noteq> ''MSR_OTHERS'') (msr_rows header_macros)) =
    [(''MSR_PLATFORM_INFO'', ''MSR_PLATFORM_INFO''),
     (''MSR_IA32_MCG_STATUS'', ''MSR_IA32_MCG_STATUS''),
     (''MSR_IA32_MCG_CTL'', ''MSR_IA32_MCG_CTL''),
     (''MSR_IA32_MCG_EXT_CTL'', ''MSR_IA32_MCG_EXT_CTL''),
     (''MSR_IA32_TSC_ADJUST'', ''MSR_IA32_TSC_ADJUST''),
     (''MSR_IA32_APICBASE'', ''MSR_IA32_APICBASE''),
     (''MSR_IA32_TSCDEADLINE'', ''MSR_IA32_TSCDEADLINE''),
     (''MSR_IA32_SMBASE'', ''MSR_IA32_SMBASE''),
     (''MSR_IA32_MISC_ENABLE'', ''MSR_IA32_MISC_ENABLE''),
     (''MSR_MISC_FEATURES_ENABLES'', ''MSR_MISC_FEATURES_ENABLES''),
     (''MSR_IA32_TSC_DEADLINE'', ''MSR_IA32_TSCDEADLINE''),
     (''MSR_P4_FLAME_PERFCTR1'', ''MSR_CORE_PERF_FIXED_CTR0''),
     (''MSR_P4_FLAME_PERFCTR2'', ''MSR_CORE_PERF_FIXED_CTR1''),
     (''MSR_P4_FLAME_PERFCTR3'', ''MSR_CORE_PERF_FIXED_CTR2''),
     (''MSR_CORE_PERF_FIXED_CTR0'', ''MSR_CORE_PERF_FIXED_CTR0''),
     (''MSR_CORE_PERF_FIXED_CTR1'', ''MSR_CORE_PERF_FIXED_CTR1''),
     (''MSR_CORE_PERF_FIXED_CTR2'', ''MSR_CORE_PERF_FIXED_CTR2''),
     (''MSR_CORE_PERF_FIXED_CTR_CTRL'', ''MSR_CORE_PERF_FIXED_CTR_CTRL''),
     (''MSR_CORE_PERF_GLOBAL_STATUS'', ''MSR_CORE_PERF_GLOBAL_STATUS''),
     (''MSR_CORE_PERF_GLOBAL_CTRL'', ''MSR_CORE_PERF_GLOBAL_CTRL''),
     (''MSR_CORE_PERF_GLOBAL_OVF_CTRL'', ''MSR_CORE_PERF_GLOBAL_OVF_CTRL''),
     (''MSR_KVM_WALL_CLOCK'', ''MSR_KVM_WALL_CLOCK''),
     (''MSR_KVM_SYSTEM_TIME'', ''MSR_KVM_SYSTEM_TIME''),
     (''MSR_KVM_WALL_CLOCK_NEW'', ''MSR_KVM_WALL_CLOCK''),
     (''MSR_KVM_SYSTEM_TIME_NEW'', ''MSR_KVM_SYSTEM_TIME'')]"
proof -
  have "filter (\<lambda>(n, v). msr2str v \<noteq> ''MSR_OTHERS'') (msr_rows header_macros) =
      filter (\<lambda>(n, v). \<not> is_other v) (msr_rows header_macros)"
    by (simp add: is_other_label)
  moreover have "reported header_macros = reported msr_index_macros @ reported kvm_macros"
    by (simp add: header_macros_def local_inactive reported_append)
  ultimately show ?thesis
    by (simp add: reported_rows [symmetric] msr_index_macros_def reported_append reported_tables)
qed

text \<open>The register that the table of other MSRs cannot tell from a free entry.\<close>

fun zero_named :: "macro list \<Rightarrow> string list" where
  "zero_named [] = []"
| "zero_named (Msr n v # ms) = (if v = 0 then n # zero_named ms else zero_named ms)"
| "zero_named (Pos n b # ms) = zero_named ms"
| "zero_named (Val n v # ms) = zero_named ms"

lemma zero_named_append: "zero_named (xs @ ys) = zero_named xs @ zero_named ys"
  by (induction xs rule: zero_named.induct) auto

lemma zero_named_headers: "zero_named header_macros = [''MSR_IA32_P5_MC_ADDR'']"
proof -
  have x86_64: "zero_named x86_64_macros = []"
    by (simp add: x86_64_macros_def msr_consts)
  have intel: "zero_named intel_macros = []"
    by (simp add: intel_macros_def msr_consts)
  have trace_mtrr: "zero_named trace_mtrr_macros = []"
    by (simp add: trace_mtrr_macros_def msr_consts)
  have power: "zero_named power_macros = []"
    by (simp add: power_macros_def msr_consts)
  have hwp_epp: "zero_named hwp_epp_macros = []"
    by (simp add: hwp_epp_macros_def msr_consts)
  have perfctr: "zero_named perfctr_macros = []"
    by (simp add: perfctr_macros_def msr_consts)
  have amd: "zero_named amd_macros = []"
    by (simp add: amd_macros_def msr_consts)
  have other_vendor: "zero_named other_vendor_macros = []"
    by (simp add: other_vendor_macros_def msr_consts)
  have architectural: "zero_named architectural_macros = [''MSR_IA32_P5_MC_ADDR'']"
    by (simp add: architectural_macros_def msr_consts)
  have misc_enable: "zero_named misc_enable_macros = []"
    by (simp add: misc_enable_macros_def msr_consts)
  have p4: "zero_named p4_macros = []"
    by (simp add: p4_macros_def msr_consts)
  have core_vmx: "zero_named core_vmx_macros = []"
    by (simp add: core_vmx_macros_def msr_consts)
  have kvm: "zero_named kvm_macros = []"
    by (simp add: kvm_macros_def msr_consts)
  have "zero_named header_macros = zero_named msr_index_macros @ zero_named kvm_macros"
    by (simp add: header_macros_def local_inactive zero_named_append)
  then show ?thesis
    by (simp add: zero_named_append msr_index_macros_def x86_64 intel trace_mtrr power hwp_epp perfctr amd other_vendor architectural misc_enable p4 core_vmx kvm)
qed

end
