(* ===== verification/Apic_Layout.thy ===== *)
theory Apic_Layout
  imports Msr_Index
begin

text \<open>
  \<open>debug/kvmwrmsr/apicdef.h\<close>: the local APIC as the header describes it twice, by macros with the offsets of the
  registers and the masks of their fields, and by \<open>struct local_apic\<close> with its bit-fields. The module uses the
  offsets, to tell which register a write of an x2APIC MSR goes to. Here the layout of the structure is computed
  and compared with the macros. The macros that neither name a register of the structure nor a field of it are
  in \<open>Msr_Fields\<close>.
\<close>

unbundle bit_operations_syntax

section \<open>Layouts\<close>

text \<open>
  The types of the structure: bit-fields and words by their width, and what is built from them. A structure
  places its members one after the other (the widths fill whole 32-bit units, so there is no padding), a union
  all at its start, in whole units.
\<close>

datatype layout =
    Bits nat
  | Array nat layout
  | Struct "(string \<times> layout) list"
  | Union "(string \<times> layout) list"

definition unit_bits :: "nat \<Rightarrow> nat" where
  "unit_bits n = (n + 31) div 32 * 32"

fun lsize :: "layout \<Rightarrow> nat" and lsizes :: "(string \<times> layout) list \<Rightarrow> nat list" where
  "lsize (Bits n) = n"
| "lsize (Array n l) = n * lsize l"
| "lsize (Struct fs) = sum_list (lsizes fs)"
| "lsize (Union fs) = unit_bits (foldr max (lsizes fs) 0)"
| "lsizes [] = []"
| "lsizes ((f, l) # fs) = lsize l # lsizes fs"

datatype selector = Fld string | Idx nat

fun place :: "(string \<times> layout) list \<Rightarrow> string \<Rightarrow> nat \<Rightarrow> (nat \<times> layout) option" where
  "place [] f off = None"
| "place ((g, l) # fs) f off = (if g = f then Some (off, l) else place fs f (off + lsize l))"

text \<open>The offset, in bits, and the layout of a part of a layout.\<close>

fun locate :: "layout \<Rightarrow> selector list \<Rightarrow> (nat \<times> layout) option" where
  "locate l [] = Some (0, l)"
| "locate (Struct fs) (Fld f # p) =
     Option.bind (place fs f 0) (\<lambda>(off, l). map_option (\<lambda>(o', m). (off + o', m)) (locate l p))"
| "locate (Union fs) (Fld f # p) = Option.bind (map_of fs f) (\<lambda>l. locate l p)"
| "locate (Array n l) (Idx i # p) =
     (if i < n then map_option (\<lambda>(o', m). (i * lsize l + o', m)) (locate l p) else None)"
| "locate _ _ = None"

section \<open>The registers\<close>

definition reserved_register :: layout where
  "reserved_register =
    Struct [(''__reserved'', Array 4 (Bits 32))]"

definition lapic_id :: layout where
  "lapic_id =
    Struct [(''__reserved_1'', Bits 24), (''phys_apic_id'', Bits 4), (''__reserved_2'', Bits 4),
    (''__reserved'', Array 3 (Bits 32))]"

definition lapic_version :: layout where
  "lapic_version =
    Struct [(''version'', Bits 8), (''__reserved_1'', Bits 8), (''max_lvt'', Bits 8),
    (''__reserved_2'', Bits 8), (''__reserved'', Array 3 (Bits 32))]"

definition lapic_tpr :: layout where
  "lapic_tpr =
    Struct [(''priority'', Bits 8), (''__reserved_1'', Bits 24), (''__reserved_2'', Array 3 (Bits 32))]"

definition lapic_apr :: layout where
  "lapic_apr =
    Struct [(''priority'', Bits 8), (''__reserved_1'', Bits 24), (''__reserved_2'', Array 3 (Bits 32))]"

definition lapic_ppr :: layout where
  "lapic_ppr =
    Struct [(''priority'', Bits 8), (''__reserved_1'', Bits 24), (''__reserved_2'', Array 3 (Bits 32))]"

definition lapic_eoi :: layout where
  "lapic_eoi =
    Struct [(''eoi'', Bits 32), (''__reserved'', Array 3 (Bits 32))]"

definition lapic_ldr :: layout where
  "lapic_ldr =
    Struct [(''__reserved_1'', Bits 24), (''logical_dest'', Bits 8), (''__reserved_2'',
    Array 3 (Bits 32))]"

definition lapic_dfr :: layout where
  "lapic_dfr =
    Struct [(''__reserved_1'', Bits 28), (''model'', Bits 4), (''__reserved_2'', Array 3 (Bits 32))]"

definition lapic_svr :: layout where
  "lapic_svr =
    Struct [(''spurious_vector'', Bits 8), (''apic_enabled'', Bits 1), (''focus_cpu'', Bits 1),
    (''__reserved_2'', Bits 22), (''__reserved_3'', Array 3 (Bits 32))]"

definition lapic_isr :: layout where
  "lapic_isr =
    Array 8 (Struct [(''bitfield'', Bits 32), (''__reserved'', Array 3 (Bits 32))])"

definition lapic_tmr :: layout where
  "lapic_tmr =
    Array 8 (Struct [(''bitfield'', Bits 32), (''__reserved'', Array 3 (Bits 32))])"

definition lapic_irr :: layout where
  "lapic_irr =
    Array 8 (Struct [(''bitfield'', Bits 32), (''__reserved'', Array 3 (Bits 32))])"

definition lapic_esr :: layout where
  "lapic_esr =
    Union [(''error_bits'', Struct [(''send_cs_error'', Bits 1), (''receive_cs_error'', Bits 1),
    (''send_accept_error'', Bits 1), (''receive_accept_error'', Bits 1), (''__reserved_1'', Bits 1),
    (''send_illegal_vector'', Bits 1), (''receive_illegal_vector'', Bits 1),
    (''illegal_register_address'', Bits 1), (''__reserved_2'', Bits 24), (''__reserved_3'',
    Array 3 (Bits 32))]), (''all_errors'', Struct [(''errors'', Bits 32), (''__reserved_3'',
    Array 3 (Bits 32))])]"

definition lapic_icr1 :: layout where
  "lapic_icr1 =
    Struct [(''vector'', Bits 8), (''delivery_mode'', Bits 3), (''destination_mode'', Bits 1),
    (''delivery_status'', Bits 1), (''__reserved_1'', Bits 1), (''level'', Bits 1), (''trigger'',
    Bits 1), (''__reserved_2'', Bits 2), (''shorthand'', Bits 2), (''__reserved_3'', Bits 12),
    (''__reserved_4'', Array 3 (Bits 32))]"

definition lapic_icr2 :: layout where
  "lapic_icr2 =
    Struct [(''dest'', Union [(''__reserved_1'', Bits 24), (''phys_dest'', Bits 4), (''__reserved_2'',
    Bits 4), (''__reserved_3'', Bits 24), (''logical_dest'', Bits 8)]), (''__reserved_4'',
    Array 3 (Bits 32))]"

definition lapic_lvt_timer :: layout where
  "lapic_lvt_timer =
    Struct [(''vector'', Bits 8), (''__reserved_1'', Bits 4), (''delivery_status'', Bits 1),
    (''__reserved_2'', Bits 3), (''mask'', Bits 1), (''timer_mode'', Bits 1), (''__reserved_3'',
    Bits 14), (''__reserved_4'', Array 3 (Bits 32))]"

definition lapic_lvt_thermal :: layout where
  "lapic_lvt_thermal =
    Struct [(''vector'', Bits 8), (''delivery_mode'', Bits 3), (''__reserved_1'', Bits 1),
    (''delivery_status'', Bits 1), (''__reserved_2'', Bits 3), (''mask'', Bits 1), (''__reserved_3'',
    Bits 15), (''__reserved_4'', Array 3 (Bits 32))]"

definition lapic_lvt_pc :: layout where
  "lapic_lvt_pc =
    Struct [(''vector'', Bits 8), (''delivery_mode'', Bits 3), (''__reserved_1'', Bits 1),
    (''delivery_status'', Bits 1), (''__reserved_2'', Bits 3), (''mask'', Bits 1), (''__reserved_3'',
    Bits 15), (''__reserved_4'', Array 3 (Bits 32))]"

definition lapic_lvt_lint0 :: layout where
  "lapic_lvt_lint0 =
    Struct [(''vector'', Bits 8), (''delivery_mode'', Bits 3), (''__reserved_1'', Bits 1),
    (''delivery_status'', Bits 1), (''polarity'', Bits 1), (''remote_irr'', Bits 1), (''trigger'',
    Bits 1), (''mask'', Bits 1), (''__reserved_2'', Bits 15), (''__reserved_3'', Array 3 (Bits 32))]"

definition lapic_lvt_lint1 :: layout where
  "lapic_lvt_lint1 =
    Struct [(''vector'', Bits 8), (''delivery_mode'', Bits 3), (''__reserved_1'', Bits 1),
    (''delivery_status'', Bits 1), (''polarity'', Bits 1), (''remote_irr'', Bits 1), (''trigger'',
    Bits 1), (''mask'', Bits 1), (''__reserved_2'', Bits 15), (''__reserved_3'', Array 3 (Bits 32))]"

definition lapic_lvt_error :: layout where
  "lapic_lvt_error =
    Struct [(''vector'', Bits 8), (''__reserved_1'', Bits 4), (''delivery_status'', Bits 1),
    (''__reserved_2'', Bits 3), (''mask'', Bits 1), (''__reserved_3'', Bits 15), (''__reserved_4'',
    Array 3 (Bits 32))]"

definition lapic_timer_icr :: layout where
  "lapic_timer_icr =
    Struct [(''initial_count'', Bits 32), (''__reserved_2'', Array 3 (Bits 32))]"

definition lapic_timer_ccr :: layout where
  "lapic_timer_ccr =
    Struct [(''curr_count'', Bits 32), (''__reserved_2'', Array 3 (Bits 32))]"

definition lapic_timer_dcr :: layout where
  "lapic_timer_dcr =
    Struct [(''divisor'', Bits 4), (''__reserved_1'', Bits 28), (''__reserved_2'', Array 3 (Bits 32))]"

definition local_apic :: layout where
  "local_apic = Struct
    [(''__reserved_01'', reserved_register), (''__reserved_02'', reserved_register), (''id'',
    lapic_id), (''version'', lapic_version), (''__reserved_03'', reserved_register),
    (''__reserved_04'', reserved_register), (''__reserved_05'', reserved_register), (''__reserved_06'',
    reserved_register), (''tpr'', lapic_tpr), (''apr'', lapic_apr), (''ppr'', lapic_ppr), (''eoi'',
    lapic_eoi), (''__reserved_07'', reserved_register), (''ldr'', lapic_ldr), (''dfr'', lapic_dfr),
    (''svr'', lapic_svr), (''isr'', lapic_isr), (''tmr'', lapic_tmr), (''irr'', lapic_irr), (''esr'',
    lapic_esr), (''__reserved_08'', reserved_register), (''__reserved_09'', reserved_register),
    (''__reserved_10'', reserved_register), (''__reserved_11'', reserved_register), (''__reserved_12'',
    reserved_register), (''__reserved_13'', reserved_register), (''__reserved_14'', reserved_register),
    (''icr1'', lapic_icr1), (''icr2'', lapic_icr2), (''lvt_timer'', lapic_lvt_timer), (''lvt_thermal'',
    lapic_lvt_thermal), (''lvt_pc'', lapic_lvt_pc), (''lvt_lint0'', lapic_lvt_lint0), (''lvt_lint1'',
    lapic_lvt_lint1), (''lvt_error'', lapic_lvt_error), (''timer_icr'', lapic_timer_icr),
    (''timer_ccr'', lapic_timer_ccr), (''__reserved_16'', reserved_register), (''__reserved_17'',
    reserved_register), (''__reserved_18'', reserved_register), (''__reserved_19'', reserved_register),
    (''timer_dcr'', lapic_timer_dcr), (''__reserved_20'', reserved_register)]"

section \<open>The macros\<close>

named_theorems apic_consts

definition APIC_ID :: u32 where
  [apic_consts]: "APIC_ID = 0x20"

definition APIC_LVR :: u32 where
  [apic_consts]: "APIC_LVR = 0x30"

definition APIC_ARBPRI :: u32 where
  [apic_consts]: "APIC_ARBPRI = 0x90"

definition APIC_PROCPRI :: u32 where
  [apic_consts]: "APIC_PROCPRI = 0xa0"

definition APIC_RRR :: u32 where
  [apic_consts]: "APIC_RRR = 0xc0"

definition APIC_ISR :: u32 where
  [apic_consts]: "APIC_ISR = 0x100"

definition APIC_TMR :: u32 where
  [apic_consts]: "APIC_TMR = 0x180"

definition APIC_IRR :: u32 where
  [apic_consts]: "APIC_IRR = 0x200"

definition APIC_ESR :: u32 where
  [apic_consts]: "APIC_ESR = 0x280"

definition APIC_LVTCMCI :: u32 where
  [apic_consts]: "APIC_LVTCMCI = 0x2f0"

definition APIC_TMICT :: u32 where
  [apic_consts]: "APIC_TMICT = 0x380"

definition APIC_TMCCT :: u32 where
  [apic_consts]: "APIC_TMCCT = 0x390"

definition APIC_TDCR :: u32 where
  [apic_consts]: "APIC_TDCR = 0x3e0"

definition APIC_TPRI_MASK :: u32 where
  [apic_consts]: "APIC_TPRI_MASK = 0xff"

definition APIC_ARBPRI_MASK :: u32 where
  [apic_consts]: "APIC_ARBPRI_MASK = 0xff"

definition APIC_LDR_MASK :: u32 where
  [apic_consts]: "APIC_LDR_MASK = push_bit 24 0xFF"

definition APIC_SPIV_FOCUS_DISABLED :: u32 where
  [apic_consts]: "APIC_SPIV_FOCUS_DISABLED = push_bit 9 1"

definition APIC_SPIV_APIC_ENABLED :: u32 where
  [apic_consts]: "APIC_SPIV_APIC_ENABLED = push_bit 8 1"

definition APIC_ESR_SEND_CS :: u32 where
  [apic_consts]: "APIC_ESR_SEND_CS = 0x00001"

definition APIC_ESR_RECV_CS :: u32 where
  [apic_consts]: "APIC_ESR_RECV_CS = 0x00002"

definition APIC_ESR_SEND_ACC :: u32 where
  [apic_consts]: "APIC_ESR_SEND_ACC = 0x00004"

definition APIC_ESR_RECV_ACC :: u32 where
  [apic_consts]: "APIC_ESR_RECV_ACC = 0x00008"

definition APIC_ESR_SENDILL :: u32 where
  [apic_consts]: "APIC_ESR_SENDILL = 0x00020"

definition APIC_ESR_RECVILL :: u32 where
  [apic_consts]: "APIC_ESR_RECVILL = 0x00040"

definition APIC_ESR_ILLREGA :: u32 where
  [apic_consts]: "APIC_ESR_ILLREGA = 0x00080"

definition APIC_VECTOR_MASK :: u32 where
  [apic_consts]: "APIC_VECTOR_MASK = 0x000ff"

definition APIC_DM_FIXED_MASK :: u32 where
  [apic_consts]: "APIC_DM_FIXED_MASK = 0x00700"

definition APIC_DEST_LOGICAL :: u32 where
  [apic_consts]: "APIC_DEST_LOGICAL = 0x00800"

definition APIC_ICR_BUSY :: u32 where
  [apic_consts]: "APIC_ICR_BUSY = 0x01000"

definition APIC_INT_ASSERT :: u32 where
  [apic_consts]: "APIC_INT_ASSERT = 0x04000"

definition APIC_INT_LEVELTRIG :: u32 where
  [apic_consts]: "APIC_INT_LEVELTRIG = 0x08000"

definition APIC_ICR_RR_MASK :: u32 where
  [apic_consts]: "APIC_ICR_RR_MASK = 0x30000"

definition APIC_DEST_ALLBUT :: u32 where
  [apic_consts]: "APIC_DEST_ALLBUT = 0xc0000"

definition APIC_MODE_MASK :: u32 where
  [apic_consts]: "APIC_MODE_MASK = 0x700"

definition APIC_SEND_PENDING :: u32 where
  [apic_consts]: "APIC_SEND_PENDING = push_bit 12 1"

definition APIC_INPUT_POLARITY :: u32 where
  [apic_consts]: "APIC_INPUT_POLARITY = push_bit 13 1"

definition APIC_LVT_REMOTE_IRR :: u32 where
  [apic_consts]: "APIC_LVT_REMOTE_IRR = push_bit 14 1"

definition APIC_LVT_LEVEL_TRIGGER :: u32 where
  [apic_consts]: "APIC_LVT_LEVEL_TRIGGER = push_bit 15 1"

definition APIC_LVT_MASKED :: u32 where
  [apic_consts]: "APIC_LVT_MASKED = push_bit 16 1"

definition APIC_LVT_TIMER_PERIODIC :: u32 where
  [apic_consts]: "APIC_LVT_TIMER_PERIODIC = push_bit 17 1"

definition GET_APIC_VERSION :: "u32 \<Rightarrow> u32" where
  [apic_consts]: "GET_APIC_VERSION x = x AND 0xff"

definition GET_APIC_MAXLVT :: "u32 \<Rightarrow> u32" where
  [apic_consts]: "GET_APIC_MAXLVT x = drop_bit 16 x AND 0xff"

definition GET_APIC_LOGICAL_ID :: "u32 \<Rightarrow> u32" where
  [apic_consts]: "GET_APIC_LOGICAL_ID x = drop_bit 24 x AND 0xff"

definition SET_APIC_LOGICAL_ID :: "u32 \<Rightarrow> u32" where
  [apic_consts]: "SET_APIC_LOGICAL_ID x = push_bit 24 x"

definition GET_APIC_DEST_FIELD :: "u32 \<Rightarrow> u32" where
  [apic_consts]: "GET_APIC_DEST_FIELD x = drop_bit 24 x AND 0xff"

definition SET_APIC_DEST_FIELD :: "u32 \<Rightarrow> u32" where
  [apic_consts]: "SET_APIC_DEST_FIELD x = push_bit 24 x"

definition GET_APIC_TIMER_BASE :: "u32 \<Rightarrow> u32" where
  [apic_consts]: "GET_APIC_TIMER_BASE x = drop_bit 18 x AND 3"

definition SET_APIC_TIMER_BASE :: "u32 \<Rightarrow> u32" where
  [apic_consts]: "SET_APIC_TIMER_BASE x = push_bit 18 x"

definition GET_APIC_DELIVERY_MODE :: "u32 \<Rightarrow> u32" where
  [apic_consts]: "GET_APIC_DELIVERY_MODE x = drop_bit 8 x AND 7"

definition SET_APIC_DELIVERY_MODE :: "u32 \<Rightarrow> u32 \<Rightarrow> u32" where
  [apic_consts]: "SET_APIC_DELIVERY_MODE x y = (x AND NOT 0x700) OR push_bit 8 y"

section \<open>The macros and the structure agree\<close>

definition register_offsets :: "(u32 \<times> string) list" where
  "register_offsets =
   [(APIC_ID, ''id''),
    (APIC_LVR, ''version''),
    (APIC_TASKPRI, ''tpr''),
    (APIC_ARBPRI, ''apr''),
    (APIC_PROCPRI, ''ppr''),
    (APIC_EOI, ''eoi''),
    (APIC_RRR, ''__reserved_07''),
    (APIC_LDR, ''ldr''),
    (APIC_DFR, ''dfr''),
    (APIC_SPIV, ''svr''),
    (APIC_ISR, ''isr''),
    (APIC_TMR, ''tmr''),
    (APIC_IRR, ''irr''),
    (APIC_ESR, ''esr''),
    (APIC_LVTCMCI, ''__reserved_14''),
    (APIC_ICR, ''icr1''),
    (APIC_ICR2, ''icr2''),
    (APIC_LVTT, ''lvt_timer''),
    (APIC_LVTTHMR, ''lvt_thermal''),
    (APIC_LVTPC, ''lvt_pc''),
    (APIC_LVT0, ''lvt_lint0''),
    (APIC_LVT1, ''lvt_lint1''),
    (APIC_LVTERR, ''lvt_error''),
    (APIC_TMICT, ''timer_icr''),
    (APIC_TMCCT, ''timer_ccr''),
    (APIC_TDCR, ''timer_dcr''),
    (APIC_SELF_IPI, ''__reserved_20'')]"

definition field_masks :: "(u32 \<times> selector list) list" where
  "field_masks =
   [(APIC_TPRI_MASK, [Fld ''tpr'', Fld ''priority'']),
    (APIC_ARBPRI_MASK, [Fld ''apr'', Fld ''priority'']),
    (APIC_LDR_MASK, [Fld ''ldr'', Fld ''logical_dest'']),
    (APIC_SPIV_FOCUS_DISABLED, [Fld ''svr'', Fld ''focus_cpu'']),
    (APIC_SPIV_APIC_ENABLED, [Fld ''svr'', Fld ''apic_enabled'']),
    (APIC_ESR_SEND_CS, [Fld ''esr'', Fld ''error_bits'', Fld ''send_cs_error'']),
    (APIC_ESR_RECV_CS, [Fld ''esr'', Fld ''error_bits'', Fld ''receive_cs_error'']),
    (APIC_ESR_SEND_ACC, [Fld ''esr'', Fld ''error_bits'', Fld ''send_accept_error'']),
    (APIC_ESR_RECV_ACC, [Fld ''esr'', Fld ''error_bits'', Fld ''receive_accept_error'']),
    (APIC_ESR_SENDILL, [Fld ''esr'', Fld ''error_bits'', Fld ''send_illegal_vector'']),
    (APIC_ESR_RECVILL, [Fld ''esr'', Fld ''error_bits'', Fld ''receive_illegal_vector'']),
    (APIC_ESR_ILLREGA, [Fld ''esr'', Fld ''error_bits'', Fld ''illegal_register_address'']),
    (APIC_VECTOR_MASK, [Fld ''icr1'', Fld ''vector'']),
    (APIC_DM_FIXED_MASK, [Fld ''icr1'', Fld ''delivery_mode'']),
    (APIC_DEST_LOGICAL, [Fld ''icr1'', Fld ''destination_mode'']),
    (APIC_ICR_BUSY, [Fld ''icr1'', Fld ''delivery_status'']),
    (APIC_INT_ASSERT, [Fld ''icr1'', Fld ''level'']),
    (APIC_INT_LEVELTRIG, [Fld ''icr1'', Fld ''trigger'']),
    (APIC_ICR_RR_MASK, [Fld ''icr1'', Fld ''__reserved_2'']),
    (APIC_DEST_ALLBUT, [Fld ''icr1'', Fld ''shorthand'']),
    (APIC_MODE_MASK, [Fld ''lvt_lint0'', Fld ''delivery_mode'']),
    (APIC_SEND_PENDING, [Fld ''lvt_lint0'', Fld ''delivery_status'']),
    (APIC_INPUT_POLARITY, [Fld ''lvt_lint0'', Fld ''polarity'']),
    (APIC_LVT_REMOTE_IRR, [Fld ''lvt_lint0'', Fld ''remote_irr'']),
    (APIC_LVT_LEVEL_TRIGGER, [Fld ''lvt_lint0'', Fld ''trigger'']),
    (APIC_LVT_MASKED, [Fld ''lvt_lint0'', Fld ''mask'']),
    (APIC_LVT_TIMER_PERIODIC, [Fld ''lvt_timer'', Fld ''timer_mode''])]"

text \<open>The bits of a bit-field within the first word of its register.\<close>

definition field_mask :: "selector list \<Rightarrow> u32" where
  "field_mask p = (case locate local_apic p of Some (off, Bits w) \<Rightarrow> push_bit (off mod 128) (mask w) | _ \<Rightarrow> 0)"

lemmas lapic_defs = local_apic_def reserved_register_def lapic_id_def lapic_version_def lapic_tpr_def lapic_apr_def lapic_ppr_def lapic_eoi_def lapic_ldr_def lapic_dfr_def lapic_svr_def lapic_isr_def lapic_tmr_def lapic_irr_def lapic_esr_def lapic_icr1_def lapic_icr2_def lapic_lvt_timer_def lapic_lvt_thermal_def lapic_lvt_pc_def lapic_lvt_lint0_def lapic_lvt_lint1_def lapic_lvt_error_def lapic_timer_icr_def lapic_timer_ccr_def lapic_timer_dcr_def

lemma register_sizes:
  "lsize reserved_register = 128"
  "lsize lapic_id = 128"
  "lsize lapic_version = 128"
  "lsize lapic_tpr = 128"
  "lsize lapic_apr = 128"
  "lsize lapic_ppr = 128"
  "lsize lapic_eoi = 128"
  "lsize lapic_ldr = 128"
  "lsize lapic_dfr = 128"
  "lsize lapic_svr = 128"
  "lsize lapic_isr = 1024"
  "lsize lapic_tmr = 1024"
  "lsize lapic_irr = 1024"
  "lsize lapic_esr = 128"
  "lsize lapic_icr1 = 128"
  "lsize lapic_icr2 = 128"
  "lsize lapic_lvt_timer = 128"
  "lsize lapic_lvt_thermal = 128"
  "lsize lapic_lvt_pc = 128"
  "lsize lapic_lvt_lint0 = 128"
  "lsize lapic_lvt_lint1 = 128"
  "lsize lapic_lvt_error = 128"
  "lsize lapic_timer_icr = 128"
  "lsize lapic_timer_ccr = 128"
  "lsize lapic_timer_dcr = 128"
  by (simp_all add: lapic_defs unit_bits_def)

text \<open>Where the registers are, and how a path goes on inside them.\<close>

lemma register_found:
  "locate local_apic (Fld ''id'' # p) = map_option (\<lambda>(o', m). (256 + o', m)) (locate lapic_id p)"
  "locate local_apic (Fld ''version'' # p) = map_option (\<lambda>(o', m). (384 + o', m)) (locate lapic_version p)"
  "locate local_apic (Fld ''tpr'' # p) = map_option (\<lambda>(o', m). (1024 + o', m)) (locate lapic_tpr p)"
  "locate local_apic (Fld ''apr'' # p) = map_option (\<lambda>(o', m). (1152 + o', m)) (locate lapic_apr p)"
  "locate local_apic (Fld ''ppr'' # p) = map_option (\<lambda>(o', m). (1280 + o', m)) (locate lapic_ppr p)"
  "locate local_apic (Fld ''eoi'' # p) = map_option (\<lambda>(o', m). (1408 + o', m)) (locate lapic_eoi p)"
  "locate local_apic (Fld ''__reserved_07'' # p) = map_option (\<lambda>(o', m). (1536 + o', m)) (locate reserved_register p)"
  "locate local_apic (Fld ''ldr'' # p) = map_option (\<lambda>(o', m). (1664 + o', m)) (locate lapic_ldr p)"
  "locate local_apic (Fld ''dfr'' # p) = map_option (\<lambda>(o', m). (1792 + o', m)) (locate lapic_dfr p)"
  "locate local_apic (Fld ''svr'' # p) = map_option (\<lambda>(o', m). (1920 + o', m)) (locate lapic_svr p)"
  "locate local_apic (Fld ''isr'' # p) = map_option (\<lambda>(o', m). (2048 + o', m)) (locate lapic_isr p)"
  "locate local_apic (Fld ''tmr'' # p) = map_option (\<lambda>(o', m). (3072 + o', m)) (locate lapic_tmr p)"
  "locate local_apic (Fld ''irr'' # p) = map_option (\<lambda>(o', m). (4096 + o', m)) (locate lapic_irr p)"
  "locate local_apic (Fld ''esr'' # p) = map_option (\<lambda>(o', m). (5120 + o', m)) (locate lapic_esr p)"
  "locate local_apic (Fld ''__reserved_14'' # p) = map_option (\<lambda>(o', m). (6016 + o', m)) (locate reserved_register p)"
  "locate local_apic (Fld ''icr1'' # p) = map_option (\<lambda>(o', m). (6144 + o', m)) (locate lapic_icr1 p)"
  "locate local_apic (Fld ''icr2'' # p) = map_option (\<lambda>(o', m). (6272 + o', m)) (locate lapic_icr2 p)"
  "locate local_apic (Fld ''lvt_timer'' # p) = map_option (\<lambda>(o', m). (6400 + o', m)) (locate lapic_lvt_timer p)"
  "locate local_apic (Fld ''lvt_thermal'' # p) = map_option (\<lambda>(o', m). (6528 + o', m)) (locate lapic_lvt_thermal p)"
  "locate local_apic (Fld ''lvt_pc'' # p) = map_option (\<lambda>(o', m). (6656 + o', m)) (locate lapic_lvt_pc p)"
  "locate local_apic (Fld ''lvt_lint0'' # p) = map_option (\<lambda>(o', m). (6784 + o', m)) (locate lapic_lvt_lint0 p)"
  "locate local_apic (Fld ''lvt_lint1'' # p) = map_option (\<lambda>(o', m). (6912 + o', m)) (locate lapic_lvt_lint1 p)"
  "locate local_apic (Fld ''lvt_error'' # p) = map_option (\<lambda>(o', m). (7040 + o', m)) (locate lapic_lvt_error p)"
  "locate local_apic (Fld ''timer_icr'' # p) = map_option (\<lambda>(o', m). (7168 + o', m)) (locate lapic_timer_icr p)"
  "locate local_apic (Fld ''timer_ccr'' # p) = map_option (\<lambda>(o', m). (7296 + o', m)) (locate lapic_timer_ccr p)"
  "locate local_apic (Fld ''timer_dcr'' # p) = map_option (\<lambda>(o', m). (7936 + o', m)) (locate lapic_timer_dcr p)"
  "locate local_apic (Fld ''__reserved_20'' # p) = map_option (\<lambda>(o', m). (8064 + o', m)) (locate reserved_register p)"
  by (simp_all add: local_apic_def register_sizes)

text \<open>
  The two descriptions of the local APIC agree where they overlap: the register macros tabulated above are the
  offsets in bytes of their registers in \<open>struct local_apic\<close>, the masks the bits of their fields, and the structure is as long as the range of
  registers, 1024 bytes.
\<close>

lemma lapic_layout:
  "map (\<lambda>(r, f). map_option fst (locate local_apic [Fld f])) register_offsets =
     map (\<lambda>(r, f). Some (8 * unat r)) register_offsets \<and>
   map (\<lambda>(m, p). field_mask p) field_masks = map fst field_masks \<and>
   lsize local_apic = 8 * 0x400"
proof (intro conjI)
  show "map (\<lambda>(r, f). map_option fst (locate local_apic [Fld f])) register_offsets =
      map (\<lambda>(r, f). Some (8 * unat r)) register_offsets"
    by (simp add: register_offsets_def register_found apic_consts msr_consts)
  show "map (\<lambda>(m, p). field_mask p) field_masks = map fst field_masks"
    by (simp add: field_masks_def field_mask_def register_found apic_consts)
       (simp add: lapic_defs mask_eq_exp_minus_1)
  show "lsize local_apic = 8 * 0x400"
    by (simp add: local_apic_def register_sizes)
qed

text \<open>
  the destination of the second command register is the one place where they do not agree: the bit-fields are
  members of a union, not of a structure in it, so \<open>phys_dest\<close> and \<open>logical_dest\<close> are the lowest bits of the
  register, while the macros put the destination into the highest.
\<close>

theorem lapic_icr2_dest:
  "field_mask [Fld ''icr2'', Fld ''dest'', Fld ''phys_dest''] = 0xf \<and>
   field_mask [Fld ''icr2'', Fld ''dest'', Fld ''logical_dest''] = 0xff \<and>
   SET_APIC_DEST_FIELD 0xff = 0xff000000"
  by (simp add: field_mask_def register_found apic_consts) (simp add: lapic_defs mask_eq_exp_minus_1)

section \<open>Reading back what was written\<close>

lemma small_take_bit: "x < 2 ^ n \<Longrightarrow> n < 32 \<Longrightarrow> take_bit n (x :: u32) = x"
proof -
  assume "x < 2 ^ n" "n < 32"
  moreover have "uint (word_of_int (2 ^ n) :: u32) = 2 ^ n"
    using \<open>n < 32\<close> power_strict_increasing [of n 32 "2 :: int"] by (simp only: uint_word_of_int) simp
  ultimately have "uint x < 2 ^ n" by (simp add: word_less_def)
  then show "take_bit n x = x" by (simp add: word_uint_eq_iff unsigned_take_bit_eq take_bit_int_eq_self)
qed

lemma shifted_field:
  assumes "x < 2 ^ n" and "n + k \<le> 32" and "n < 32" and "y AND push_bit k (mask n) = 0"
  shows "drop_bit k (y OR push_bit k (x :: u32)) AND mask n = x"
proof (rule bit_word_eqI)
  fix i assume i: "i < LENGTH(32)"
  have x: "\<not> bit x j" if "n \<le> j" for j
  proof
    assume "bit x j"
    moreover have "take_bit n x = x" by (rule small_take_bit [OF assms(1,3)])
    ultimately show False using that by (metis bit_take_bit_iff not_le)
  qed
  have y: "\<not> bit y (k + j)" if "j < n" "k + j < 32" for j
  proof -
    have "\<not> bit (y AND push_bit k (mask n)) (k + j)" using assms(4) by simp
    then show ?thesis using that by (auto simp: bit_simps)
  qed
  show "bit (drop_bit k (y OR push_bit k x) AND mask n) i = bit x i"
  proof (cases "i < n")
    case True
    then show ?thesis using i y [of i] assms(2) by (auto simp: bit_simps add.commute)
  next
    case False
    then show ?thesis using x [of i] by (auto simp: bit_simps)
  qed
qed

text \<open>
  round trip of the field macros: what the macros store into a register the macros read back, for values that
  fit the field, and storing a delivery mode leaves the rest of the register alone.
\<close>

theorem apic_field_roundtrip:
  "(x < 2 ^ 8 \<longrightarrow> GET_APIC_LOGICAL_ID (SET_APIC_LOGICAL_ID x) = x \<and>
      GET_APIC_DEST_FIELD (SET_APIC_DEST_FIELD x) = x) \<and>
   (x < 2 ^ 2 \<longrightarrow> GET_APIC_TIMER_BASE (SET_APIC_TIMER_BASE x) = x) \<and>
   (x < 2 ^ 3 \<longrightarrow> GET_APIC_DELIVERY_MODE (SET_APIC_DELIVERY_MODE y x) = x \<and>
      SET_APIC_DELIVERY_MODE y x AND NOT 0x700 = y AND NOT 0x700)"
proof (intro conjI impI)
  have m: "mask 8 = (0xff :: u32)" "mask 2 = (3 :: u32)" "mask 3 = (7 :: u32)"
    by (simp_all add: mask_eq_exp_minus_1)
  show "GET_APIC_LOGICAL_ID (SET_APIC_LOGICAL_ID x) = x" "GET_APIC_DEST_FIELD (SET_APIC_DEST_FIELD x) = x"
    if "x < 2 ^ 8"
    using shifted_field [OF that, of 24 0] by (simp_all add: apic_consts m)
  show "GET_APIC_TIMER_BASE (SET_APIC_TIMER_BASE x) = x" if "x < 2 ^ 2"
    using shifted_field [OF that, of 18 0] by (simp add: apic_consts m)
  assume x: "x < 2 ^ 3"
  have p: "push_bit 8 (mask 3) = (0x700 :: u32)" by (simp add: mask_eq_exp_minus_1)
  have "(y AND NOT 0x700) AND push_bit 8 (mask 3) = 0"
    unfolding p by (rule bit_word_eqI) (auto simp: bit_simps)
  from shifted_field [where k = 8, OF x _ _ this]
  show "GET_APIC_DELIVERY_MODE (SET_APIC_DELIVERY_MODE y x) = x" by (simp add: apic_consts m)
  have "take_bit 3 x = x" using small_take_bit [OF x] by simp
  then have "push_bit 8 x AND NOT (push_bit 8 (mask 3)) = 0"
    by (intro bit_word_eqI) (auto simp: bit_simps dest: arg_cong [where f = "\<lambda>w. bit w _"])
  then show "SET_APIC_DELIVERY_MODE y x AND NOT 0x700 = y AND NOT 0x700"
    unfolding p by (simp add: apic_consts bit.conj_disj_distrib2 and.assoc)
qed

theorem apic_field_roundtrip_witness:
  "GET_APIC_LOGICAL_ID (SET_APIC_LOGICAL_ID 0x5a) = 0x5a \<and>
   GET_APIC_DELIVERY_MODE (SET_APIC_DELIVERY_MODE 0x10700 4) = 4"
  using apic_field_roundtrip [of "0x5a" 0] apic_field_roundtrip [of 4 "0x10700"] by simp

end
