(* ===== verification/Msr_Fields.thy ===== *)
theory Msr_Fields
  imports Msr_Names Apic_Layout
begin

text \<open>
  The macros of \<open>debug/kvmwrmsr/msr-index.h\<close> and \<open>apicdef.h\<close> that take arguments: the registers of the machine check
  banks, the fields of the hardware P-state registers and of the local APIC. The arguments are words of the width of
  the register they are meant for; an \<open>int\<close> argument gives the same field, since it is masked or shifted within its
  width. What is proved: that writing a field and reading it back gives its value, where that is so.
\<close>

section \<open>Machine check banks\<close>

definition MSR_IA32_MCx_CTL :: "u32 \<Rightarrow> u32" where
  "MSR_IA32_MCx_CTL x = MSR_IA32_MC0_CTL + 4 * x"

definition MSR_IA32_MCx_STATUS :: "u32 \<Rightarrow> u32" where
  "MSR_IA32_MCx_STATUS x = MSR_IA32_MC0_STATUS + 4 * x"

definition MSR_IA32_MCx_ADDR :: "u32 \<Rightarrow> u32" where
  "MSR_IA32_MCx_ADDR x = MSR_IA32_MC0_ADDR + 4 * x"

definition MSR_IA32_MCx_MISC :: "u32 \<Rightarrow> u32" where
  "MSR_IA32_MCx_MISC x = MSR_IA32_MC0_MISC + 4 * x"

definition MSR_AMD64_MCx_MASK :: "u32 \<Rightarrow> u32" where
  "MSR_AMD64_MCx_MASK x = MSR_AMD64_MC0_MASK + x"

definition MSR_IA32_MCx_CTL2 :: "u32 \<Rightarrow> u32" where
  "MSR_IA32_MCx_CTL2 x = MSR_IA32_MC0_CTL2 + x"

text \<open>The registers of the first \<open>n\<close> banks.\<close>

definition bank_registers :: "nat \<Rightarrow> u32 list" where
  "bank_registers n = concat (map (\<lambda>x. [MSR_IA32_MCx_CTL (of_nat x), MSR_IA32_MCx_STATUS (of_nat x),
     MSR_IA32_MCx_ADDR (of_nat x), MSR_IA32_MCx_MISC (of_nat x)]) [0..<n])"

lemma bank_registers_consecutive: "bank_registers n = map (\<lambda>i. 0x400 + of_nat i) [0..<4 * n]"
proof (induction n)
  case (Suc n)
  have "[0..<4 * Suc n] = [0..<4 * n] @ [4 * n, 4 * n + 1, 4 * n + 2, 4 * n + 3]"
    by (simp add: numeral_eq_Suc)
  with Suc show ?case
    by (simp add: bank_registers_def MSR_IA32_MCx_CTL_def MSR_IA32_MCx_STATUS_def MSR_IA32_MCx_ADDR_def
        MSR_IA32_MCx_MISC_def msr_consts add.assoc [symmetric] add.commute)
qed (simp add: bank_registers_def)

lemma bank_registers_other:
  assumes "m \<in> set (bank_registers 32)"
  shows "msr2str m = ''MSR_OTHERS'' \<and> m \<noteq> 0 \<and> m < 0x480"
proof -
  obtain i where i: "i < 128" "m = 0x400 + of_nat i" using assms by (auto simp: bank_registers_consecutive)
  have "unat (0x400 + of_nat i :: u32) = 0x400 + i" using i(1) by (simp add: unat_word_ariths unat_of_nat take_bit_nat_eq_self)
  then have u: "unat m = 0x400 + i" by (simp only: i(2))
  have "is_other m"
    unfolding is_other_iff in_apic_range_def APIC_BASE_MSR_def
    using u i(1) by (auto simp: word_le_nat_alt)
  then show ?thesis using u i(1) by (auto simp: is_other_label word_less_nat_alt)
qed

lemma firsts_distinct: "distinct xs \<Longrightarrow> firsts xs = xs"
  by (simp add: firsts_def distinct_remdups_id)

lemma distinct_bank_registers: "distinct (bank_registers 32)"
proof -
  have "inj_on (\<lambda>i. 0x400 + of_nat i :: u32) {0..<128}"
    by (rule inj_onI) (simp add: of_nat_word_eq_iff)
  then show ?thesis by (simp add: bank_registers_consecutive distinct_map)
qed

text \<open>
  the registers of 32 machine check banks fill the table of other MSRs. They are 128 consecutive numbers below
  the next named register; a guest that writes each once leaves no room: they are listed with one write each, a
  later write of any further unknown MSR is counted under \<open>MSR_OTHERS\<close> but not listed.
\<close>

theorem banks_fill_table:
  assumes "mstat_wf s" and "msr2str m = ''MSR_OTHERS''" and "m \<noteq> 0" and "m \<notin> set (bank_registers 32)"
  shows "\<exists>u. foldR record_wrmsr (bank_registers 32 @ [m]) (reset_state s) = Inr u \<and> report_wrmsr m u = 129 \<and>
    map (\<lambda>i. report_other_wrmsr (int i) u) [0..<OTHER_MSRS] = map (\<lambda>r. Inr (Some (r, 1))) (bank_registers 32)"
proof -
  let ?es = "bank_registers 32 @ [m]"
  have other: "filter is_other ?es = ?es"
    using bank_registers_other assms(2) by (auto simp: is_other_label intro!: filter_True)
  have len: "length (bank_registers 32) = 128" by (simp add: bank_registers_consecutive)
  have dist: "distinct ?es" using distinct_bank_registers assms(4) by simp
  have z: "0 \<notin> set ?es" using bank_registers_other assms(3) by auto
  obtain u where u: "foldR record_wrmsr ?es (reset_state s) = Inr u"
    "\<And>v. ctr u v = of_nat (length (filter (\<lambda>e. wrmsr_class e = v) ?es))"
    using wrmsrs.run_from_reset [OF assms(1), of ?es] by (auto simp: wrmsrs.hits_def)
  have "filter (\<lambda>e. wrmsr_class e = wrmsr_exits_others) ?es = ?es"
    using other unfolding is_other_def .
  then have "ctr u wrmsr_exits_others = of_nat (length ?es)" by (simp only: u(2))
  then have "ctr u wrmsr_exits_others = 129" using len by simp
  moreover have "report_wrmsr m u = ctr u wrmsr_exits_others"
    using assms(2) by (auto simp: report_wrmsr_class is_other_label is_other_def wrmsr_class_def msr_table_def msr_consts)
  moreover have "report_other_wrmsr (int i) u = Inr (Some (bank_registers 32 ! i, 1))" if i: "i < 128" for i
  proof -
    have "?es ! i = bank_registers 32 ! i" "bank_registers 32 ! i \<in> set (bank_registers 32)"
      using i len by (simp_all add: nth_append)
    moreover from this have "count_list ?es (bank_registers 32 ! i) = 1"
      using dist by (simp add: count_list_eq_length_filter distinct_length_filter) auto
    moreover have "i < length ?es" "length ?es < 2 ^ 32" using i len by simp_all
    moreover note other_reports_after_reset [OF assms(1) z this(2) u(1), unfolded other firsts_distinct [OF dist]
        OTHER_MSRS_def, rule_format, OF i]
    ultimately show ?thesis by (simp only: if_True of_nat_1)
  qed
  ultimately show ?thesis using u(1) len by (auto simp: OTHER_MSRS_def list_eq_iff_nth_eq)
qed

theorem banks_fill_table_witness:
  "\<exists>u. foldR record_wrmsr (bank_registers 32 @ [0x10]) (reset_state wrmsr_static) = Inr u \<and> report_wrmsr 0x10 u = 129"
proof -
  have "msr2str 0x10 = ''MSR_OTHERS''" by (simp add: msr2str_def msr_consts in_apic_range_def)
  moreover have "0x10 \<notin> set (bank_registers 32)"
    using bank_registers_consecutive [of 32]
    by (auto simp: word_unat_eq_iff unat_word_ariths unat_of_nat take_bit_nat_eq_self)
  ultimately show ?thesis using banks_fill_table [OF mstat_wf_static, of "0x10"] by auto
qed

section \<open>Hardware P-states\<close>

text \<open>\<open>IA32_HWP_CAPABILITIES\<close>\<close>

definition HWP_HIGHEST_PERF :: "u64 \<Rightarrow> u64" where
  "HWP_HIGHEST_PERF x = drop_bit 0 x AND 0xff"

definition HWP_GUARANTEED_PERF :: "u64 \<Rightarrow> u64" where
  "HWP_GUARANTEED_PERF x = drop_bit 8 x AND 0xff"

definition HWP_MOSTEFFICIENT_PERF :: "u64 \<Rightarrow> u64" where
  "HWP_MOSTEFFICIENT_PERF x = drop_bit 16 x AND 0xff"

definition HWP_LOWEST_PERF :: "u64 \<Rightarrow> u64" where
  "HWP_LOWEST_PERF x = drop_bit 24 x AND 0xff"

text \<open>\<open>IA32_HWP_REQUEST\<close>\<close>

definition HWP_MIN_PERF :: "u64 \<Rightarrow> u64" where
  "HWP_MIN_PERF x = x AND 0xff"

definition HWP_MAX_PERF :: "u64 \<Rightarrow> u64" where
  "HWP_MAX_PERF x = push_bit 8 (x AND 0xff)"

definition HWP_DESIRED_PERF :: "u64 \<Rightarrow> u64" where
  "HWP_DESIRED_PERF x = push_bit 16 (x AND 0xff)"

definition HWP_ENERGY_PERF_PREFERENCE :: "u64 \<Rightarrow> u64" where
  "HWP_ENERGY_PERF_PREFERENCE x = push_bit 24 (x AND 0xff)"

definition HWP_ACTIVITY_WINDOW :: "u64 \<Rightarrow> u64" where
  "HWP_ACTIVITY_WINDOW x = push_bit 32 (x AND 0xff3)"

definition HWP_PACKAGE_CONTROL :: "u64 \<Rightarrow> u64" where
  "HWP_PACKAGE_CONTROL x = push_bit 42 (x AND 0x1)"

text \<open>\<open>IA32_HWP_STATUS\<close> and \<open>IA32_HWP_INTERRUPT\<close>\<close>

definition HWP_GUARANTEED_CHANGE :: "u64 \<Rightarrow> u64" where
  "HWP_GUARANTEED_CHANGE x = x AND 0x1"

definition HWP_EXCURSION_TO_MINIMUM :: "u64 \<Rightarrow> u64" where
  "HWP_EXCURSION_TO_MINIMUM x = x AND 0x4"

definition HWP_CHANGE_TO_GUARANTEED_INT :: "u64 \<Rightarrow> u64" where
  "HWP_CHANGE_TO_GUARANTEED_INT x = x AND 0x1"

definition HWP_EXCURSION_TO_MINIMUM_INT :: "u64 \<Rightarrow> u64" where
  "HWP_EXCURSION_TO_MINIMUM_INT x = x AND 0x2"

named_theorems hwp_defs

lemmas [hwp_defs] = HWP_HIGHEST_PERF_def HWP_GUARANTEED_PERF_def HWP_MOSTEFFICIENT_PERF_def HWP_LOWEST_PERF_def
  HWP_MIN_PERF_def HWP_MAX_PERF_def HWP_DESIRED_PERF_def HWP_ENERGY_PERF_PREFERENCE_def HWP_ACTIVITY_WINDOW_def
  HWP_PACKAGE_CONTROL_def

lemma and_ff: "x AND 0xff = take_bit 8 (x :: 'a::len word)"
  by (simp add: take_bit_eq_mask mask_numeral)

text \<open>Four bytes, each below 256, put together by the macros of the request and taken apart by those of the
  capabilities, which have the same positions; and back.\<close>

definition hwp_request :: "u64 \<Rightarrow> u64 \<Rightarrow> u64 \<Rightarrow> u64 \<Rightarrow> u64" where
  "hwp_request lo hi want epp =
     HWP_MIN_PERF lo OR HWP_MAX_PERF hi OR HWP_DESIRED_PERF want OR HWP_ENERGY_PERF_PREFERENCE epp"

lemma hwp_request_fields:
  "HWP_HIGHEST_PERF (hwp_request a b c d) = take_bit 8 a" "HWP_GUARANTEED_PERF (hwp_request a b c d) = take_bit 8 b"
  "HWP_MOSTEFFICIENT_PERF (hwp_request a b c d) = take_bit 8 c" "HWP_LOWEST_PERF (hwp_request a b c d) = take_bit 8 d"
  unfolding hwp_request_def hwp_defs and_ff
  by (rule bit_word_eqI, auto simp: bit_simps)+

lemma hwp_capabilities_recombine:
  "hwp_request (HWP_HIGHEST_PERF x) (HWP_GUARANTEED_PERF x) (HWP_MOSTEFFICIENT_PERF x) (HWP_LOWEST_PERF x) = take_bit 32 x"
proof (rule bit_word_eqI)
  fix n :: nat
  consider "n < 8" | "8 \<le> n" "n < 16" | "16 \<le> n" "n < 24" | "24 \<le> n" by linarith
  then show "bit (hwp_request (HWP_HIGHEST_PERF x) (HWP_GUARANTEED_PERF x) (HWP_MOSTEFFICIENT_PERF x) (HWP_LOWEST_PERF x)) n \<longleftrightarrow>
      bit (take_bit 32 x) n"
    unfolding hwp_request_def hwp_defs and_ff by cases (auto simp: bit_simps)
qed

text \<open>
  the fields of the P-state request. Four values of a byte put into the request by the macros are read back
  from it by the macros for the fields of a byte, and a register is put together again from its fields.
\<close>

theorem hwp_fields_roundtrip:
  "map (\<lambda>get. get (hwp_request a b c d)) [HWP_HIGHEST_PERF, HWP_GUARANTEED_PERF, HWP_MOSTEFFICIENT_PERF, HWP_LOWEST_PERF] =
     map (take_bit 8) [a, b, c, d] \<and>
   hwp_request (HWP_HIGHEST_PERF x) (HWP_GUARANTEED_PERF x) (HWP_MOSTEFFICIENT_PERF x) (HWP_LOWEST_PERF x) = take_bit 32 x"
  by (simp add: hwp_request_fields hwp_capabilities_recombine)

text \<open>
  the activity window is masked wrongly. Its field lies between bit 32 and the package control in bit 42, so it
  has ten bits, but the mask is \<open>0xff3\<close>: the macro gives the field exactly if bits 2, 3, 10 and 11 of the window are
  zero; bits 2 and 3 are lost, and bit 10 sets the package control.
\<close>

theorem hwp_window_mask:
  "(HWP_ACTIVITY_WINDOW x = push_bit 32 (take_bit 10 x) \<longleftrightarrow> \<not> bit x 2 \<and> \<not> bit x 3 \<and> \<not> bit x 10 \<and> \<not> bit x 11) \<and>
   HWP_ACTIVITY_WINDOW 0xc = 0 \<and> HWP_ACTIVITY_WINDOW 0x400 = HWP_PACKAGE_CONTROL 1"
proof -
  have M: "(0xff3 :: u64) = mask 2 OR push_bit 4 (mask 8)" by (simp add: mask_numeral)
  have "bit (0xff3 :: u64) n \<longleftrightarrow> n < 2 \<or> 4 \<le> n \<and> n < 12" for n
    unfolding M bit_or_iff bit_push_bit_iff bit_mask_iff by auto
  then have w: "bit (HWP_ACTIVITY_WINDOW x) n \<longleftrightarrow> 32 \<le> n \<and> n < 64 \<and> bit x (n - 32) \<and> (n - 32 < 2 \<or> 4 \<le> n - 32 \<and> n - 32 < 12)" for n
    unfolding HWP_ACTIVITY_WINDOW_def by (simp only: bit_push_bit_iff bit_and_iff) auto
  have f: "bit (push_bit 32 (take_bit 10 x)) n \<longleftrightarrow> 32 \<le> n \<and> n < 64 \<and> bit x (n - 32) \<and> n - 32 < 10" for n
    by (auto simp: bit_simps)
  have "HWP_ACTIVITY_WINDOW x = push_bit 32 (take_bit 10 x) \<longleftrightarrow> \<not> bit x 2 \<and> \<not> bit x 3 \<and> \<not> bit x 10 \<and> \<not> bit x 11"
  proof
    assume eq: "HWP_ACTIVITY_WINDOW x = push_bit 32 (take_bit 10 x)"
    show "\<not> bit x 2 \<and> \<not> bit x 3 \<and> \<not> bit x 10 \<and> \<not> bit x 11"
      using w [of 34] w [of 35] w [of 42] w [of 43] f [of 34] f [of 35] f [of 42] f [of 43] by (simp add: eq)
  next
    assume nb: "\<not> bit x 2 \<and> \<not> bit x 3 \<and> \<not> bit x 10 \<and> \<not> bit x 11"
    have low: "bit x j \<and> (j < 2 \<or> 4 \<le> j \<and> j < 12) \<longleftrightarrow> bit x j \<and> j < 10" for j
    proof -
      have "j < 2 \<or> j = 2 \<or> j = 3 \<or> 4 \<le> j \<and> j < 10 \<or> j = 10 \<or> j = 11 \<or> 12 \<le> j" by linarith
      then show ?thesis using nb by auto
    qed
    show "HWP_ACTIVITY_WINDOW x = push_bit 32 (take_bit 10 x)"
    proof (rule bit_word_eqI)
      show "bit (HWP_ACTIVITY_WINDOW x) n \<longleftrightarrow> bit (push_bit 32 (take_bit 10 x)) n" for n
        unfolding w f using low [of "n - 32"] by blast
    qed
  qed
  moreover have "HWP_ACTIVITY_WINDOW 0xc = 0" "HWP_ACTIVITY_WINDOW 0x400 = HWP_PACKAGE_CONTROL 1"
    by (simp_all add: HWP_ACTIVITY_WINDOW_def HWP_PACKAGE_CONTROL_def)
  ultimately show ?thesis by blast
qed

section \<open>The rest of \<open>apicdef.h\<close>\<close>

text \<open>Addresses and sizes, values of fields, and versions. Names that \<open>Apic_Layout\<close> defines refer to it.\<close>

definition io_apic_macros :: "macro list" where
  "io_apic_macros =
    [Val ''IO_APIC_DEFAULT_PHYS_BASE'' 0xfec00000,
     Val ''APIC_DEFAULT_PHYS_BASE'' 0xfee00000,
     Val ''IO_APIC_SLOT_SIZE'' 1024]"

definition version_macros :: "macro list" where
  "version_macros =
    [Val ''APIC_LVR'' (ucast APIC_LVR),
     Val ''APIC_LVR_MASK'' 0xff00ff,
     Val ''APIC_LVR_DIRECTED_EOI'' (push_bit 24 1)]"

text \<open>\<open>APIC_INTEGRATED\<close> depends on the configuration.\<close>

definition APIC_INTEGRATED :: "bool \<Rightarrow> u32 \<Rightarrow> u32" where
  "APIC_INTEGRATED x86_32 x = (if x86_32 then x AND 0xf0 else 1)"

definition APIC_XAPIC :: "u32 \<Rightarrow> bool" where
  "APIC_XAPIC x \<longleftrightarrow> 0x14 \<le> x"

definition APIC_EXT_SPACE :: "u32 \<Rightarrow> u32" where
  "APIC_EXT_SPACE x = x AND 0x80000000"

definition logical_macros :: "macro list" where
  "logical_macros =
    [Val ''APIC_EOI_ACK'' 0x0,
     Val ''APIC_ALL_CPUS'' 0xff,
     Val ''APIC_DFR'' (ucast APIC_DFR),
     Val ''APIC_DFR_CLUSTER'' 0x0fffffff,
     Val ''APIC_DFR_FLAT'' 0xffffffff,
     Val ''APIC_SPIV'' (ucast APIC_SPIV),
     Val ''APIC_SPIV_DIRECTED_EOI'' (push_bit 12 1),
     Val ''APIC_ISR_NR'' 0x8]"

definition icr_macros :: "macro list" where
  "icr_macros =
    [Val ''APIC_DEST_SELF'' 0x40000,
     Val ''APIC_DEST_ALLINC'' 0x80000,
     Val ''APIC_DEST_ALLBUT'' (ucast APIC_DEST_ALLBUT),
     Val ''APIC_ICR_RR_MASK'' (ucast APIC_ICR_RR_MASK),
     Val ''APIC_ICR_RR_INVALID'' 0x00000,
     Val ''APIC_ICR_RR_INPROG'' 0x10000,
     Val ''APIC_ICR_RR_VALID'' 0x20000,
     Val ''APIC_INT_LEVELTRIG'' (ucast APIC_INT_LEVELTRIG),
     Val ''APIC_INT_ASSERT'' (ucast APIC_INT_ASSERT),
     Val ''APIC_ICR_BUSY'' (ucast APIC_ICR_BUSY),
     Val ''APIC_DEST_LOGICAL'' (ucast APIC_DEST_LOGICAL),
     Val ''APIC_DEST_PHYSICAL'' 0x00000,
     Val ''APIC_DM_FIXED'' 0x00000,
     Val ''APIC_DM_FIXED_MASK'' (ucast APIC_DM_FIXED_MASK),
     Val ''APIC_DM_LOWEST'' 0x00100,
     Val ''APIC_DM_SMI'' 0x00200,
     Val ''APIC_DM_REMRD'' 0x00300,
     Val ''APIC_DM_NMI'' 0x00400,
     Val ''APIC_DM_INIT'' 0x00500,
     Val ''APIC_DM_STARTUP'' 0x00600,
     Val ''APIC_DM_EXTINT'' 0x00700]"

definition timer_macros :: "macro list" where
  "timer_macros =
    [Val ''APIC_TIMER_BASE_CLKIN'' 0x0,
     Val ''APIC_TIMER_BASE_TMBASE'' 0x1,
     Val ''APIC_TIMER_BASE_DIV'' 0x2,
     Val ''APIC_LVT_TIMER_ONESHOT'' (push_bit 17 0),
     Val ''APIC_LVT_TIMER_PERIODIC'' (ucast APIC_LVT_TIMER_PERIODIC),
     Val ''APIC_LVT_TIMER_TSCDEADLINE'' (push_bit 17 2)]"

definition APIC_LVT_TIMER_BASE_MASK :: u32 where
  "APIC_LVT_TIMER_BASE_MASK = push_bit 18 0x3"

definition mode_macros :: "macro list" where
  "mode_macros =
    [Val ''APIC_MODE_FIXED'' 0x0,
     Val ''APIC_MODE_NMI'' 0x4,
     Val ''APIC_MODE_EXTINT'' 0x7]"

definition divider_macros :: "macro list" where
  "divider_macros =
    [Val ''APIC_TDR_DIV_TMBASE'' (push_bit 2 1),
     Val ''APIC_TDR_DIV_1'' 0xb,
     Val ''APIC_TDR_DIV_2'' 0x0,
     Val ''APIC_TDR_DIV_4'' 0x1,
     Val ''APIC_TDR_DIV_8'' 0x2,
     Val ''APIC_TDR_DIV_16'' 0x3,
     Val ''APIC_TDR_DIV_32'' 0x8,
     Val ''APIC_TDR_DIV_64'' 0x9,
     Val ''APIC_TDR_DIV_128'' 0xa,
     Val ''APIC_EFEAT'' 0x400,
     Val ''APIC_ECTRL'' 0x410]"

definition APIC_EILVTn :: "u32 \<Rightarrow> u32" where
  "APIC_EILVTn n = 0x500 + 0x10 * n"

definition eilvt_macros :: "macro list" where
  "eilvt_macros =
    [Val ''APIC_EILVT_NR_AMD_K8'' 1,
     Val ''APIC_EILVT_NR_AMD_10H'' 4,
     Val ''APIC_EILVT_NR_MAX'' 4]"

definition APIC_EILVT_LVTOFF :: "u32 \<Rightarrow> u32" where
  "APIC_EILVT_LVTOFF x = drop_bit 4 x AND 0xf"

definition eilvt_msg_macros :: "macro list" where
  "eilvt_msg_macros =
    [Val ''APIC_EILVT_MSG_FIX'' 0x0,
     Val ''APIC_EILVT_MSG_SMI'' 0x2,
     Val ''APIC_EILVT_MSG_NMI'' 0x4,
     Val ''APIC_EILVT_MSG_EXT'' 0x7,
     Val ''APIC_EILVT_MASKED'' (push_bit 16 1)]"

definition enable_macros :: "macro list" where
  "enable_macros =
    [Val ''XAPIC_ENABLE'' (push_bit 11 1),
     Val ''X2APIC_ENABLE'' (push_bit 10 1)]"

definition MAX_IO_APICS :: "bool \<Rightarrow> u32" where
  "MAX_IO_APICS x86_32 = (if x86_32 then 64 else 128)"

definition MAX_LOCAL_APIC :: "bool \<Rightarrow> u32" where
  "MAX_LOCAL_APIC x86_32 = (if x86_32 then 256 else 32768)"

definition BAD_APICID :: "bool \<Rightarrow> u32" where
  "BAD_APICID x86_32 = (if x86_32 then 0xff else 0xffff)"

definition XAPIC_DEST_CPUS_SHIFT :: nat where
  "XAPIC_DEST_CPUS_SHIFT = 4"

definition XAPIC_DEST_CPUS_MASK :: u32 where
  "XAPIC_DEST_CPUS_MASK = push_bit XAPIC_DEST_CPUS_SHIFT 1 - 1"

definition XAPIC_DEST_CLUSTER_MASK :: u32 where
  "XAPIC_DEST_CLUSTER_MASK = push_bit XAPIC_DEST_CPUS_SHIFT XAPIC_DEST_CPUS_MASK"

definition APIC_CLUSTER :: "u32 \<Rightarrow> u32" where
  "APIC_CLUSTER apicid = apicid AND XAPIC_DEST_CLUSTER_MASK"

definition APIC_CLUSTERID :: "u32 \<Rightarrow> u32" where
  "APIC_CLUSTERID apicid = drop_bit XAPIC_DEST_CPUS_SHIFT (APIC_CLUSTER apicid)"

definition APIC_CPUID :: "u32 \<Rightarrow> u32" where
  "APIC_CPUID apicid = apicid AND XAPIC_DEST_CPUS_MASK"

definition NUM_APIC_CLUSTERS :: "bool \<Rightarrow> u32" where
  "NUM_APIC_CLUSTERS x86_32 = drop_bit XAPIC_DEST_CPUS_SHIFT (BAD_APICID x86_32 + 1)"

datatype ioapic_irq_destination_types =
    dest_Fixed
  | dest_LowestPrio
  | dest_SMI
  | dest__reserved_1
  | dest_NMI
  | dest_INIT
  | dest__reserved_2
  | dest_ExtINT

fun destination_value :: "ioapic_irq_destination_types \<Rightarrow> u32" where
  "destination_value dest_Fixed = 0"
| "destination_value dest_LowestPrio = 1"
| "destination_value dest_SMI = 2"
| "destination_value dest__reserved_1 = 3"
| "destination_value dest_NMI = 4"
| "destination_value dest_INIT = 5"
| "destination_value dest__reserved_2 = 6"
| "destination_value dest_ExtINT = 7"

section \<open>Fields and values agree\<close>

text \<open>The value of a macro, by its name.\<close>

fun macro_value :: "macro list \<Rightarrow> string \<Rightarrow> u64 option" where
  "macro_value [] n = None"
| "macro_value (Msr m v # ms) n = (if m = n then Some (ucast v) else macro_value ms n)"
| "macro_value (Pos m b # ms) n = (if m = n then Some (of_nat b) else macro_value ms n)"
| "macro_value (Val m v # ms) n = (if m = n then Some v else macro_value ms n)"

lemma cluster_split:
  "APIC_CPUID a = take_bit 4 a" "APIC_CLUSTERID a = take_bit 4 (drop_bit 4 a)"
  "push_bit 4 (APIC_CLUSTERID a) OR APIC_CPUID a = take_bit 8 a"
proof -
  have m: "XAPIC_DEST_CPUS_MASK = mask 4" "XAPIC_DEST_CLUSTER_MASK = push_bit 4 (mask 4)"
    by (simp_all add: XAPIC_DEST_CPUS_MASK_def XAPIC_DEST_CLUSTER_MASK_def XAPIC_DEST_CPUS_SHIFT_def mask_numeral)
  show id: "APIC_CPUID a = take_bit 4 a"
    unfolding APIC_CPUID_def m by (simp only: take_bit_eq_mask)
  show cl: "APIC_CLUSTERID a = take_bit 4 (drop_bit 4 a)"
    unfolding APIC_CLUSTERID_def APIC_CLUSTER_def m XAPIC_DEST_CPUS_SHIFT_def
    by (rule bit_word_eqI) (simp only: bit_drop_bit_eq o_apply bit_and_iff bit_push_bit_iff bit_mask_iff bit_take_bit_iff, auto simp: bit_simps)
  show "push_bit 4 (APIC_CLUSTERID a) OR APIC_CPUID a = take_bit 8 a"
    unfolding id cl by (rule bit_word_eqI) (auto simp: bit_simps)
qed

text \<open>The delivery modes of the interrupt command are the destination types in the place of the field.\<close>

lemma delivery_modes:
  "macro_value icr_macros ''APIC_DM_FIXED'' = Some (push_bit 8 (ucast (destination_value dest_Fixed)))"
  "macro_value icr_macros ''APIC_DM_LOWEST'' = Some (push_bit 8 (ucast (destination_value dest_LowestPrio)))"
  "macro_value icr_macros ''APIC_DM_SMI'' = Some (push_bit 8 (ucast (destination_value dest_SMI)))"
  "macro_value icr_macros ''APIC_DM_NMI'' = Some (push_bit 8 (ucast (destination_value dest_NMI)))"
  "macro_value icr_macros ''APIC_DM_INIT'' = Some (push_bit 8 (ucast (destination_value dest_INIT)))"
  "macro_value icr_macros ''APIC_DM_EXTINT'' = Some (push_bit 8 (ucast (destination_value dest_ExtINT)))"
  by (simp_all add: icr_macros_def)

lemma local_vector_modes:
  "macro_value mode_macros ''APIC_MODE_FIXED'' = Some (ucast (destination_value dest_Fixed))"
  "macro_value mode_macros ''APIC_MODE_NMI'' = Some (ucast (destination_value dest_NMI))"
  "macro_value mode_macros ''APIC_MODE_EXTINT'' = Some (ucast (destination_value dest_ExtINT))"
  "macro_value eilvt_msg_macros ''APIC_EILVT_MSG_SMI'' = Some (ucast (destination_value dest_SMI))"
  "macro_value eilvt_msg_macros ''APIC_EILVT_MSG_NMI'' = Some (ucast (destination_value dest_NMI))"
  "macro_value eilvt_msg_macros ''APIC_EILVT_MSG_EXT'' = Some (ucast (destination_value dest_ExtINT))"
  by (simp_all add: mode_macros_def eilvt_msg_macros_def)

text \<open>The steal-time register of KVM: enable bit, reserved bits and address partition it.\<close>

lemma kvm_steal_partition:
  "\<exists>v r e. macro_value kvm_macros ''KVM_STEAL_VALID_BITS'' = Some v \<and> macro_value kvm_macros ''KVM_STEAL_RESERVED_MASK'' = Some r \<and>
     macro_value kvm_macros ''KVM_MSR_ENABLED'' = Some e \<and> v OR r OR e = - 1 \<and> v AND r = 0 \<and> v AND e = 0 \<and> r AND e = 0"
  by (simp add: kvm_macros_def mask_numeral)

text \<open>Thresholds of the thermal interrupt: a field of seven bits and its enable bit above it.\<close>

lemma thermal_thresholds:
  "\<exists>s m e. macro_value architectural_macros ''THERM_SHIFT_THRESHOLD0'' = Some (of_nat s) \<and>
     macro_value architectural_macros ''THERM_MASK_THRESHOLD0'' = Some m \<and>
     macro_value architectural_macros ''THERM_INT_THRESHOLD0_ENABLE'' = Some e \<and> m = push_bit s 0x7f \<and> e = push_bit (s + 7) 1"
  "\<exists>s m e. macro_value architectural_macros ''THERM_SHIFT_THRESHOLD1'' = Some (of_nat s) \<and>
     macro_value architectural_macros ''THERM_MASK_THRESHOLD1'' = Some m \<and>
     macro_value architectural_macros ''THERM_INT_THRESHOLD1_ENABLE'' = Some e \<and> m = push_bit s 0x7f \<and> e = push_bit (s + 7) 1"
  by (rule exI [of _ 8], simp add: architectural_macros_def msr_consts, rule exI [of _ 16], simp add: architectural_macros_def msr_consts)

text \<open>\<open>VMX_BASIC\<close>: the memory type has its mask at its shift, and the fields do not overlap.\<close>

lemma vmx_basic_fields:
  "\<exists>m x i t w. macro_value core_vmx_macros ''VMX_BASIC_MEM_TYPE_MASK'' = Some m \<and> macro_value core_vmx_macros ''VMX_BASIC_64'' = Some x \<and>
     macro_value core_vmx_macros ''VMX_BASIC_INOUT'' = Some i \<and> macro_value core_vmx_macros ''VMX_BASIC_TRUE_CTLS'' = Some t \<and>
     macro_value core_vmx_macros ''VMX_BASIC_MEM_TYPE_WB'' = Some w \<and>
     m = push_bit 50 0xf \<and> push_bit 50 w AND m = push_bit 50 w \<and>
     m AND x = 0 \<and> m AND i = 0 \<and> m AND t = 0 \<and> x AND i = 0 \<and> x AND t = 0 \<and> i AND t = 0"
  by (simp add: core_vmx_macros_def msr_consts)

text \<open>The base field of the APIC base register, an \<open>int\<close> with its sign bit set, extends over the high bits.\<close>

lemma apicbase_base:
  "macro_value architectural_macros ''MSR_IA32_APICBASE_BASE'' = Some (push_bit 12 (- 1))"
proof -
  have "to_int32 4294963200 = - 4096"
    by (simp add: to_int32_def signed_take_bit_eq_take_bit_shift take_bit_eq_mod)
  then show ?thesis by (simp add: architectural_macros_def msr_consts ulong_of_int_def mask_numeral)
qed

text \<open>Positions followed by the flag at the position.\<close>

fun flags :: "macro list \<Rightarrow> (string \<times> nat \<times> u64) list" where
  "flags (Pos n b # Val m v # ms) = (if n = m @ ''_BIT'' then (m, b, v) # flags ms else flags ms)"
| "flags (x # ms) = flags ms"
| "flags [] = []"

lemma misc_enable_flags:
  "map (\<lambda>(n, b, v). v) (flags misc_enable_macros) = map (\<lambda>(n, b, v). push_bit b 1) (flags misc_enable_macros)"
  "map (\<lambda>(n, b, v). b) (flags misc_enable_macros) =
    [0, 1, 7, 11, 12, 16, 18, 22, 23, 34, 2, 3, 4, 6, 8, 9, 10, 10, 13, 19, 20, 24, 37, 38, 39, 0]"
  by (simp_all add: misc_enable_macros_def)

end
