(* ===== verification/Bench_Machine.thy ===== *)
theory Bench_Machine
  imports Kvm_Prelude
begin

unbundle bit_operations_syntax

text \<open>
  What the cycle benchmarks share: \<open>common/rdtsc.h\<close>, \<open>common/getns.h\<close>, a machine state that records
  the benchmarked operations in order, and the timed loop (the same operation a fixed number of
  times between two reads of the time-stamp counter). What the n-th \<open>rdtsc\<close> leaves in EAX and EDX
  is the parameter \<open>tsc\<close>.
\<close>

section \<open>Clocks\<close>

definition ins_rdtsc :: "u64 \<Rightarrow> u64 \<Rightarrow> u64" where
  "ins_rdtsc low high = low OR push_bit 32 high"

text \<open>
  The \<open>rdtsc\<close> instruction clears the upper halves of RAX and RDX, so the value is exactly the 64-bit
  counter.
\<close>

lemma disjoint_halves: "(ucast (lo :: u32) :: u64) AND push_bit 32 (ucast (hi :: u32)) = 0"
  by (rule bit_word_eqI) (auto simp: bit_simps dest: bit_imp_le_length)

lemma uint_ins_rdtsc:
  "uint (ins_rdtsc (ucast (lo :: u32)) (ucast (hi :: u32))) = uint lo + 2 ^ 32 * uint hi"
proof -
  have bnd: "0 \<le> uint w" "uint w < 2 ^ 32" for w :: u32
    using uint_lt2p [of w] by simp_all
  have lo: "uint (ucast lo :: u64) = uint lo"
    by (simp add: unsigned_ucast_eq take_bit_int_eq_self bnd order.strict_trans2 [OF bnd(2)])
  have hi: "uint (push_bit 32 (ucast hi) :: u64) = 2 ^ 32 * uint hi"
  proof -
    have h: "uint (ucast hi :: u64) = uint hi"
      by (simp add: unsigned_ucast_eq take_bit_int_eq_self bnd order.strict_trans2 [OF bnd(2)])
    have "uint (push_bit 32 (ucast hi) :: u64) = take_bit 64 (2 ^ 32 * uint hi)"
      by (subst unsigned_push_bit_eq) (simp add: h push_bit_eq_mult mult.commute)
    also have "\<dots> = 2 ^ 32 * uint hi"
      using bnd [of hi] by (intro take_bit_int_eq_self) auto
    finally show ?thesis .
  qed
  have "ins_rdtsc (ucast lo) (ucast hi) = ucast lo + push_bit 32 (ucast hi)"
    unfolding ins_rdtsc_def by (rule disjunctive_add_eq_or [symmetric]) (rule disjoint_halves)
  moreover have "uint lo + 2 ^ 32 * uint hi < 2 ^ 64"
  proof -
    have "uint lo \<le> 4294967295" "uint hi \<le> 4294967295"
      using bnd(2) [of lo] bnd(2) [of hi] by simp_all
    then show ?thesis by simp
  qed
  ultimately show ?thesis
    using bnd [of lo] bnd [of hi] by (simp add: uint_word_ariths lo hi)
qed

definition getns :: "u64 \<Rightarrow> u64" where
  "getns ktime = ktime"   \<comment> \<open>\<open>ktime_to_ns\<close> of the \<open>ktime_t\<close> that \<open>ktime_get\<close> returned\<close>

section \<open>The machine\<close>

datatype mach_op =
    Rdtsc
  | Wrmsr u32 u32 u32        \<comment> \<open>the \<open>wrmsr\<close> instruction: ECX, EAX, EDX\<close>
  | SafeWrmsr u32 u32 u32    \<comment> \<open>a call of \<open>native_write_msr_safe\<close>\<close>
  | Inb "16 word"             \<comment> \<open>the \<open>in\<close> instruction: a port has 16 bits\<close>
  | Readb u64
  | Ioremap u64
  | Iounmap u64
  | SendIpi string nat       \<comment> \<open>a call of the named \<open>send_IPI_mask\<close> for one CPU\<close>

record mach =
  reads :: nat               \<comment> \<open>how many times \<open>rdtsc\<close> has run\<close>
  ops :: "mach_op list"
  mlog :: "log_line list"

definition mach_init :: mach where
  "mach_init = \<lparr>reads = 0, ops = [], mlog = []\<rparr>"

definition emit :: "mach_op \<Rightarrow> mach \<Rightarrow> mach" where
  "emit e m = m\<lparr>ops := ops m @ [e]\<rparr>"

definition say :: "string \<Rightarrow> parg list \<Rightarrow> mach \<Rightarrow> mach" where
  "say f args m = m\<lparr>mlog := mlog m @ [(f, args)]\<rparr>"

definition rdtsc :: "(nat \<Rightarrow> u32 \<times> u32) \<Rightarrow> mach \<Rightarrow> u64 \<times> mach" where
  "rdtsc tsc m =
     (let (eax, edx) = tsc (reads m)
      in (ins_rdtsc (ucast eax) (ucast edx), emit Rdtsc (m\<lparr>reads := Suc (reads m)\<rparr>)))"

text \<open>\<open>for (loop = n; loop > 0; loop--) op;\<close>\<close>

fun loop_down :: "nat \<Rightarrow> (mach \<Rightarrow> mach) \<Rightarrow> mach \<Rightarrow> mach" where
  "loop_down 0 op m = m"
| "loop_down (Suc n) op m = loop_down n op (op m)"

section \<open>The timed loop\<close>

text \<open>
  The contract of a benchmarked operation: it appends its own event to the operations of the machine
  and does nothing else. Then the loop is that event \<open>n\<close> times.
\<close>

locale bench_op =
  fixes op :: "mach \<Rightarrow> mach"
    and ev :: mach_op
  assumes op_effect: "op m = m\<lparr>ops := ops m @ [ev]\<rparr>"
begin

lemma loop_effect: "loop_down n op m = m\<lparr>ops := ops m @ replicate n ev\<rparr>"
proof (induction n arbitrary: m)
  case (Suc n)
  then show ?case by (simp add: op_effect)
qed simp

lemma timed_loop_ops:
  assumes "rdtsc tsc m = (t0, m1)" and "rdtsc tsc (loop_down n op m1) = (t1, m2)"
  shows "ops m2 = ops m @ Rdtsc # replicate n ev @ [Rdtsc]" and "mlog m2 = mlog m"
    and "reads m2 = reads m + 2"
    and "t0 = ins_rdtsc (ucast (fst (tsc (reads m)))) (ucast (snd (tsc (reads m))))"
    and "t1 = ins_rdtsc (ucast (fst (tsc (Suc (reads m))))) (ucast (snd (tsc (Suc (reads m)))))"
  using assms by (auto simp: rdtsc_def emit_def loop_effect Let_def split: prod.splits)

end

interpretation emitted: bench_op "emit e" e for e
  by unfold_locales (simp add: emit_def)

lemma say_simps [simp]:
  "ops (say f args m) = ops m"
  "reads (say f args m) = reads m"
  "mlog (say f args m) = mlog m @ [(f, args)]"
  by (simp_all add: say_def)

lemma emit_simps [simp]:
  "ops (emit e m) = ops m @ [e]"
  "reads (emit e m) = reads m"
  "mlog (emit e m) = mlog m"
  by (simp_all add: emit_def)

lemma rdtsc_snd [simp]:
  "ops (snd (rdtsc tsc m)) = ops m @ [Rdtsc]"
  "reads (snd (rdtsc tsc m)) = Suc (reads m)"
  "mlog (snd (rdtsc tsc m)) = mlog m"
  by (simp_all add: rdtsc_def split_beta)

text \<open>The value of the \<open>n\<close>-th read of the time-stamp counter.\<close>

definition tsc_value :: "(nat \<Rightarrow> u32 \<times> u32) \<Rightarrow> nat \<Rightarrow> u64" where
  "tsc_value tsc n = ins_rdtsc (ucast (fst (tsc n))) (ucast (snd (tsc n)))"

lemma rdtsc_fst [simp]: "fst (rdtsc tsc m) = tsc_value tsc (reads m)"
  by (simp add: rdtsc_def tsc_value_def split_beta)

text \<open>A counter that advances by 1000 cycles from each read to the next, for the examples.\<close>

definition ex_tsc :: "nat \<Rightarrow> u32 \<times> u32" where
  "ex_tsc n = (of_nat n * 1000, 0)"

end
