(* ===== verification/Msr_Bench.thy ===== *)
theory Msr_Bench
  imports Bench_Machine
begin

text \<open>
  \<open>microbenchmark/msr-bench/msr.h\<close> and \<open>msr_bench.c\<close>: the benchmark of MSR writes. The return value of
  the kernel's \<open>native_write_msr_safe\<close> is the parameter \<open>safe\<close>, of its three arguments.
\<close>

section \<open>Writing an MSR\<close>

definition ins_wrmsr :: "u32 \<Rightarrow> u32 \<Rightarrow> u32 \<Rightarrow> mach \<Rightarrow> mach" where
  "ins_wrmsr msr low high m = emit (Wrmsr msr low high) m"

definition low32 :: "u64 \<Rightarrow> u32" where
  "low32 val = ucast (val AND 0xffffffff)"

definition high32 :: "u64 \<Rightarrow> u32" where
  "high32 val = ucast (drop_bit 32 val)"

definition ins_wrmsrl :: "u32 \<Rightarrow> u64 \<Rightarrow> mach \<Rightarrow> mach" where
  "ins_wrmsrl msr val m = ins_wrmsr msr (low32 val) (high32 val) m"

definition native_write_msr_safe ::
  "(u32 \<Rightarrow> u32 \<Rightarrow> u32 \<Rightarrow> int) \<Rightarrow> u32 \<Rightarrow> u32 \<Rightarrow> u32 \<Rightarrow> mach \<Rightarrow> int \<times> mach" where
  "native_write_msr_safe safe msr low high m =
     (safe msr low high, emit (SafeWrmsr msr low high) m)"

section \<open>The benchmark\<close>

definition IA32_TSCDEADLINE :: u32 where
  "IA32_TSCDEADLINE = 0x6e0"

definition IA32_POWER_CTL :: u32 where
  "IA32_POWER_CTL = 0x1fc"

definition MSR_LOOP :: nat where
  "MSR_LOOP = 100000"

definition msr_bench_report :: "string \<Rightarrow> u64 \<Rightarrow> mach \<Rightarrow> mach" where
  "msr_bench_report tag elapsed m =
     say ''msr_bench: %s loop = %d, elapsed = %ld cycles, average = %ld cycles''
       [AStr tag, AInt (int MSR_LOOP), ALong elapsed, ALong (elapsed div ulong_of_int (int MSR_LOOP))] m"

definition wrmsr_bench ::
  "(u32 \<Rightarrow> u32 \<Rightarrow> u32 \<Rightarrow> int) \<Rightarrow> string \<Rightarrow> u32 \<Rightarrow> u64 \<Rightarrow> mach \<Rightarrow> int \<times> mach" where
  "wrmsr_bench safe tag msr val m =
     (let low = low32 val; high = high32 val;
          (ret, m1) = native_write_msr_safe safe msr low high m in
      if ret = 0 then
        (0, loop_down MSR_LOOP (ins_wrmsrl IA32_TSCDEADLINE val)
              (say ''msr_bench: wrmsr %s OK, benchmark asm instrucion'' [AStr tag] m1))
      else
        (0, loop_down MSR_LOOP (\<lambda>m. snd (native_write_msr_safe safe msr low high m))
              (say ''msr_bench: wrmsr %s fail, benchmark native safe API'' [AStr tag] m1)))"

definition wrmsr_bench_tscdeadline ::
  "(nat \<Rightarrow> u32 \<times> u32) \<Rightarrow> (u32 \<Rightarrow> u32 \<Rightarrow> u32 \<Rightarrow> int) \<Rightarrow> mach \<Rightarrow> int \<times> mach" where
  "wrmsr_bench_tscdeadline tsc safe m =
     (let (now, m1) = rdtsc tsc m; val = now + 10000000000
      in wrmsr_bench safe ''MSR_IA32_TSCDEADLINE'' IA32_TSCDEADLINE val m1)"

definition wrmsr_bench_power :: "(u32 \<Rightarrow> u32 \<Rightarrow> u32 \<Rightarrow> int) \<Rightarrow> mach \<Rightarrow> int \<times> mach" where
  "wrmsr_bench_power safe m = wrmsr_bench safe ''MSR_IA32_POWER_CTL'' IA32_POWER_CTL 0 m"

definition msr_bench_init ::
  "(nat \<Rightarrow> u32 \<times> u32) \<Rightarrow> (u32 \<Rightarrow> u32 \<Rightarrow> u32 \<Rightarrow> int) \<Rightarrow> mach \<Rightarrow> int \<times> mach" where
  "msr_bench_init tsc safe m =
     (let m1 = say ''msr_bench: %s start'' [AStr ''msr_bench_init''] m;
          (starttime, m2) = rdtsc tsc m1;
          (r, m3) = wrmsr_bench_power safe m2;
          m4 = (if r = 0 then
                  let (t, m') = rdtsc tsc m3
                  in msr_bench_report ''MSR_IA32_POWER_CTL'' (t - starttime) m'
                else m3);
          (starttime', m5) = rdtsc tsc m4;
          (r', m6) = wrmsr_bench_tscdeadline tsc safe m5;
          m7 = (if r' = 0 then
                  let (t, m') = rdtsc tsc m6
                  in msr_bench_report ''MSR_IA32_TSCDEADLINE'' (t - starttime') m'
                else m6)
      in (-1, say ''msr_bench: %s finish'' [AStr ''msr_bench_init''] m7))"

definition msr_bench_exit :: "mach \<Rightarrow> mach" where
  "msr_bench_exit m = say ''msr_bench: %s'' [AStr ''msr_bench_exit''] m"

section \<open>The two halves of a value\<close>

lemma uint_low32: "uint (low32 val) = uint val mod 2 ^ 32"
proof -
  have "val AND 0xffffffff = take_bit 32 val"
    by (simp add: take_bit_eq_mask mask_eq_exp_minus_1)
  then show ?thesis
    by (simp add: low32_def unsigned_ucast_eq unsigned_take_bit_eq take_bit_eq_mod uint_mod)
qed

lemma uint_high32: "uint (high32 val) = uint val div 2 ^ 32"
proof -
  have "uint val < 2 ^ 64" using uint_lt2p [of val] by simp
  then have "uint val div 2 ^ 32 < 2 ^ 32" by simp
  moreover have "0 \<le> uint val div 2 ^ 32" by (simp add: pos_imp_zdiv_nonneg_iff)
  ultimately show ?thesis
    by (simp add: high32_def unsigned_ucast_eq unsigned_drop_bit_eq drop_bit_eq_div take_bit_int_eq_self
        uint_div)
qed

section \<open>The loops\<close>

interpretation wrmsr_op: bench_op "ins_wrmsrl msr val" "Wrmsr msr (low32 val) (high32 val)" for msr val
  by unfold_locales (simp add: ins_wrmsrl_def ins_wrmsr_def emit_def)

lemma native_write_msr_safe_simps [simp]:
  "fst (native_write_msr_safe safe msr low high m) = safe msr low high"
  "snd (native_write_msr_safe safe msr low high m) = emit (SafeWrmsr msr low high) m"
  by (simp_all add: native_write_msr_safe_def)

lemma wrmsr_bench_effect:
  "wrmsr_bench safe tag msr val m = (0, m\<lparr>
     ops := ops m @ SafeWrmsr msr (low32 val) (high32 val) #
       replicate MSR_LOOP
         (if safe msr (low32 val) (high32 val) = 0
          then Wrmsr IA32_TSCDEADLINE (low32 val) (high32 val)
          else SafeWrmsr msr (low32 val) (high32 val)),
     mlog := mlog m @
       [(if safe msr (low32 val) (high32 val) = 0
         then ''msr_bench: wrmsr %s OK, benchmark asm instrucion''
         else ''msr_bench: wrmsr %s fail, benchmark native safe API'', [AStr tag])]\<rparr>)"
  by (simp add: wrmsr_bench_def split_beta wrmsr_op.loop_effect emitted.loop_effect Let_def)

lemma halves_0: "low32 0 = 0" "high32 0 = 0"
  by (simp_all add: low32_def high32_def)

section \<open>Properties\<close>

text \<open>
  \<open>ins_wrmsrl\<close> executes one \<open>wrmsr\<close> whose EDX:EAX is exactly the 64-bit value: no bit of it is lost
  or duplicated by the split.
\<close>

theorem wrmsrl_value:
  "\<exists>lo hi. ins_wrmsrl msr val m = emit (Wrmsr msr lo hi) m \<and>
     uint lo + 2 ^ 32 * uint hi = uint val"
proof -
  have "uint val mod 2 ^ 32 + 2 ^ 32 * (uint val div 2 ^ 32) = uint val"
    by (simp only: mod_mult_div_eq)
  then show ?thesis
    by (intro exI [of _ "low32 val"] exI [of _ "high32 val"])
       (simp add: ins_wrmsrl_def ins_wrmsr_def uint_low32 uint_high32)
qed

text \<open>The instruction that \<open>wrmsr_bench\<close> repeats for one MSR.\<close>

definition timed_write :: "(u32 \<Rightarrow> u32 \<Rightarrow> u32 \<Rightarrow> int) \<Rightarrow> u32 \<Rightarrow> u64 \<Rightarrow> mach_op" where
  "timed_write safe msr val =
     (if safe msr (low32 val) (high32 val) = 0
      then Wrmsr IA32_TSCDEADLINE (low32 val) (high32 val)
      else SafeWrmsr msr (low32 val) (high32 val))"

lemma msr_bench_init_log:
  "\<exists>l1 l2 l3 l4. mlog (snd (msr_bench_init tsc safe m)) = mlog m @ [l1, l2] @
     [(''msr_bench: %s loop = %d, elapsed = %ld cycles, average = %ld cycles'',
       [AStr ''MSR_IA32_POWER_CTL'', AInt (int MSR_LOOP),
        ALong (tsc_value tsc (Suc (reads m)) - tsc_value tsc (reads m)),
        ALong ((tsc_value tsc (Suc (reads m)) - tsc_value tsc (reads m))
               div ulong_of_int (int MSR_LOOP))]), l3,
      (''msr_bench: %s loop = %d, elapsed = %ld cycles, average = %ld cycles'',
       [AStr ''MSR_IA32_TSCDEADLINE'', AInt (int MSR_LOOP),
        ALong (tsc_value tsc (reads m + 4) - tsc_value tsc (reads m + 2)),
        ALong ((tsc_value tsc (reads m + 4) - tsc_value tsc (reads m + 2))
               div ulong_of_int (int MSR_LOOP))]), l4]"
  by (simp add: msr_bench_init_def wrmsr_bench_power_def wrmsr_bench_tscdeadline_def
      wrmsr_bench_effect split_beta Let_def msr_bench_report_def eval_nat_numeral)

lemma msr_bench_init_ops:
  assumes "reads m = 0"
  shows "ops (snd (msr_bench_init tsc safe m)) =
    (let d = tsc_value tsc 3 + 10000000000 in
     ops m @
       [Rdtsc, SafeWrmsr IA32_POWER_CTL 0 0] @
       replicate MSR_LOOP (timed_write safe IA32_POWER_CTL 0) @
       [Rdtsc, Rdtsc, Rdtsc, SafeWrmsr IA32_TSCDEADLINE (low32 d) (high32 d)] @
       replicate MSR_LOOP (timed_write safe IA32_TSCDEADLINE d) @ [Rdtsc])"
  using assms
  by (simp add: msr_bench_init_def wrmsr_bench_power_def wrmsr_bench_tscdeadline_def
      wrmsr_bench_effect split_beta Let_def msr_bench_report_def timed_write_def halves_0
      numeral_3_eq_3)

text \<open>
  C19: the whole run of the module. It fails to load (-1) after exactly these operations: for each of
  the two MSRs a probing write followed by 100000 timed ones between two reads of the counter, the
  deadline being ten billion cycles after a further read.
\<close>

theorem msr_bench_run:
  assumes "reads m = 0"
  shows "\<exists>t. msr_bench_init tsc safe m = (-1, t) \<and>
    (let d = tsc_value tsc 3 + 10000000000 in
     ops t = ops m @
       [Rdtsc, SafeWrmsr IA32_POWER_CTL 0 0] @
       replicate MSR_LOOP (timed_write safe IA32_POWER_CTL 0) @
       [Rdtsc, Rdtsc, Rdtsc, SafeWrmsr IA32_TSCDEADLINE (low32 d) (high32 d)] @
       replicate MSR_LOOP (timed_write safe IA32_TSCDEADLINE d) @ [Rdtsc])"
  using msr_bench_init_ops [OF assms, of tsc safe]
  by (intro exI [of _ "snd (msr_bench_init tsc safe m)"] conjI prod_eqI)
     (simp_all add: msr_bench_init_def split_beta Let_def)

theorem msr_bench_run_witness:
  "\<exists>t. msr_bench_init (\<lambda>n. (0, 0)) (\<lambda>_ _ _. 1) mach_init = (-1, t) \<and>
     ops t = [Rdtsc, SafeWrmsr IA32_POWER_CTL 0 0] @
       replicate MSR_LOOP (SafeWrmsr IA32_POWER_CTL 0 0) @
       [Rdtsc, Rdtsc, Rdtsc, SafeWrmsr IA32_TSCDEADLINE 0x540BE400 2] @
       replicate MSR_LOOP (SafeWrmsr IA32_TSCDEADLINE 0x540BE400 2) @ [Rdtsc]"
proof -
  have "low32 10000000000 = 0x540BE400" "high32 10000000000 = 2"
    by (simp_all add: low32_def high32_def drop_bit_eq_div)
  moreover have "reads mach_init = 0" by (simp add: mach_init_def)
  ultimately show ?thesis
    using msr_bench_run [of mach_init "\<lambda>n. (0, 0)" "\<lambda>_ _ _. 1"]
    by (simp add: tsc_value_def ins_rdtsc_def timed_write_def halves_0 Let_def mach_init_def)
qed

text \<open>
  the two reported averages are the elapsed cycles divided by the 100000 writes of the loop,
  rounded down, when the counter did not go backwards: multiplied back they differ from the elapsed
  count by less than 100000 cycles.
\<close>

theorem msr_bench_average:
  assumes "reads m = 0" and "uint (tsc_value tsc 0) \<le> uint (tsc_value tsc 1)"
  shows "\<exists>avg. (''msr_bench: %s loop = %d, elapsed = %ld cycles, average = %ld cycles'',
      [AStr ''MSR_IA32_POWER_CTL'', AInt 100000,
       ALong (tsc_value tsc 1 - tsc_value tsc 0), ALong avg])
      \<in> set (mlog (snd (msr_bench_init tsc safe m))) \<and>
    uint avg = (uint (tsc_value tsc 1) - uint (tsc_value tsc 0)) div 100000"
proof -
  let ?d = "tsc_value tsc 1 - tsc_value tsc 0"
  have l: "int MSR_LOOP = 100000" "ulong_of_int 100000 = 100000"
    by (simp_all add: ulong_of_int_def MSR_LOOP_def)
  have "uint ?d = uint (tsc_value tsc 1) - uint (tsc_value tsc 0)"
    using assms(2) by (simp add: uint_sub_lem)
  then have "uint (?d div 100000) = (uint (tsc_value tsc 1) - uint (tsc_value tsc 0)) div 100000"
    by (simp add: uint_div)
  moreover have "(''msr_bench: %s loop = %d, elapsed = %ld cycles, average = %ld cycles'',
      [AStr ''MSR_IA32_POWER_CTL'', AInt 100000, ALong ?d, ALong (?d div 100000)])
      \<in> set (mlog (snd (msr_bench_init tsc safe m)))"
    using msr_bench_init_log [of tsc safe m] assms(1) l by auto
  ultimately show ?thesis by blast
qed

theorem msr_bench_average_witness:
  "\<exists>avg. (''msr_bench: %s loop = %d, elapsed = %ld cycles, average = %ld cycles'',
      [AStr ''MSR_IA32_POWER_CTL'', AInt 100000,
       ALong (tsc_value (\<lambda>n. (of_nat n * 1000, 0)) 1 - tsc_value (\<lambda>n. (of_nat n * 1000, 0)) 0),
       ALong avg])
      \<in> set (mlog (snd (msr_bench_init (\<lambda>n. (of_nat n * 1000, 0)) (\<lambda>_ _ _. 0) mach_init))) \<and>
    uint avg = (uint (tsc_value (\<lambda>n. (of_nat n * 1000, 0)) 1)
                - uint (tsc_value (\<lambda>n. (of_nat n * 1000, 0)) 0)) div 100000"
  by (rule msr_bench_average) (simp_all add: mach_init_def tsc_value_def ins_rdtsc_def)

text \<open>
  when the probing write of the power MSR succeeds, the loop reported under the name
  MSR_IA32_POWER_CTL writes the deadline MSR instead: the module executes no timed \<open>wrmsr\<close> to the
  power MSR at all, while the deadline MSR is written with zero.
\<close>

theorem msr_bench_power_never_timed:
  assumes "safe IA32_POWER_CTL 0 0 = 0" and "reads m = 0" and "ops m = []"
  shows "Wrmsr IA32_TSCDEADLINE 0 0 \<in> set (ops (snd (msr_bench_init tsc safe m))) \<and>
    (\<forall>lo hi. Wrmsr IA32_POWER_CTL lo hi \<notin> set (ops (snd (msr_bench_init tsc safe m))))"
proof -
  have "IA32_TSCDEADLINE \<noteq> IA32_POWER_CTL" "MSR_LOOP \<noteq> 0"
    by (simp_all add: IA32_TSCDEADLINE_def IA32_POWER_CTL_def MSR_LOOP_def)
  then show ?thesis
    using assms by (auto simp: msr_bench_init_ops timed_write_def halves_0 Let_def)
qed

theorem msr_bench_power_never_timed_witness:
  "Wrmsr IA32_TSCDEADLINE 0 0
     \<in> set (ops (snd (msr_bench_init (\<lambda>_. (0, 0)) (\<lambda>_ _ _. 0) mach_init))) \<and>
   (\<forall>lo hi. Wrmsr IA32_POWER_CTL lo hi
     \<notin> set (ops (snd (msr_bench_init (\<lambda>_. (0, 0)) (\<lambda>_ _ _. 0) mach_init))))"
  by (rule msr_bench_power_never_timed) (simp_all add: mach_init_def)

end
