(* ===== verification/Pio_Mmio_Bench.thy ===== *)
theory Pio_Mmio_Bench
  imports Bench_Machine
begin

text \<open>
  \<open>microbenchmark/pio-mmio-bench/pio_mmio_bench.c\<close>: the benchmark of port and memory-mapped I/O, the
  two walks over the kernel's resource trees that choose what to benchmark, the plan each walk
  refines, and the exact trace of a load of the module. The resource trees \<open>ioport_resource\<close> and
  \<open>iomem_resource\<close> and the kernel's \<open>ioremap\<close> (0 when it returns NULL) are parameters.
\<close>

section \<open>One benchmark\<close>

definition PIO_LOOP :: nat where
  "PIO_LOOP = 10000"

definition pio_mmio_bench_report :: "string \<Rightarrow> string \<Rightarrow> u64 \<Rightarrow> u64 \<Rightarrow> mach \<Rightarrow> mach" where
  "pio_mmio_bench_report tag name addr elapsed m =
     say ''pio_mmio_bench: %4s %18s, address = 0x%lx,  elapsed = %ld cycles, average = %ld cycles''
       [AStr tag, AStr name, ALong addr, ALong elapsed,
        ALong (elapsed div ulong_of_int (int PIO_LOOP))] m"

definition pio_bench ::
  "(nat \<Rightarrow> u32 \<times> u32) \<Rightarrow> string \<Rightarrow> string \<Rightarrow> u64 \<Rightarrow> mach \<Rightarrow> int \<times> mach" where
  "pio_bench tsc tag name addr m =
     (let (starttime, m1) = rdtsc tsc m;
          m2 = loop_down PIO_LOOP (emit (Inb (ucast addr))) m1;
          (t, m3) = rdtsc tsc m2
      in (0, pio_mmio_bench_report tag name addr (t - starttime) m3))"

text \<open>\<open>readb\<close> of a null address is a page fault.\<close>

definition readb :: "u64 \<Rightarrow> mach \<Rightarrow> mach res" where
  "readb va m = (if va = 0 then Inl NullDeref else Inr (emit (Readb va) m))"

fun loop_downR :: "nat \<Rightarrow> (mach \<Rightarrow> mach res) \<Rightarrow> mach \<Rightarrow> mach res" where
  "loop_downR 0 op m = Inr m"
| "loop_downR (Suc n) op m = bindR (op m) (loop_downR n op)"

definition mmio_bench ::
  "(nat \<Rightarrow> u32 \<times> u32) \<Rightarrow> (u64 \<Rightarrow> u64) \<Rightarrow> string \<Rightarrow> string \<Rightarrow> u64 \<Rightarrow> mach \<Rightarrow> (int \<times> mach) res" where
  "mmio_bench tsc ioremap tag name addr m =
     (let va = ioremap addr;
          m1 = emit (Ioremap addr) m;
          (starttime, m2) = rdtsc tsc m1
      in bindR (loop_downR PIO_LOOP (readb va) m2) (\<lambda>m3.
         let (t, m4) = rdtsc tsc m3;
             m5 = emit (Iounmap va) m4
         in Inr (0, pio_mmio_bench_report tag name addr (t - starttime) m5)))"

section \<open>The resource tree\<close>

text \<open>A \<open>struct resource *\<close>: its name (which may be NULL), its range, its sibling and first child.\<close>

datatype resource =
    NullRes
  | Res (rname: "string option") (rstart: u64) (rend: u64) (sibling: resource) (child: resource)

fun strstr :: "string \<Rightarrow> string \<Rightarrow> bool" where
  "strstr [] needle = (needle = [])"
| "strstr (c # cs) needle = (take (length needle) (c # cs) = needle \<or> strstr cs needle)"

definition PCI_BUS :: string where
  "PCI_BUS = ''PCI Bus 0000:00''"

text \<open>The inner loop of \<open>pio_walk_resource\<close>, from \<open>tmp\<close> on.\<close>

fun pio_walk_bus :: "(nat \<Rightarrow> u32 \<times> u32) \<Rightarrow> resource \<Rightarrow> mach \<Rightarrow> mach res" where
  "pio_walk_bus tsc NullRes m = Inr m"
| "pio_walk_bus tsc (Res nm st en sib ch) m =
     (case nm of
        None \<Rightarrow> Inl NullDeref
      | Some name \<Rightarrow>
          if name = ''pic1'' \<or> name = ''timer0'' then
            pio_walk_bus tsc sib (snd (pio_bench tsc ''PIO'' name st m))
          else if name = ''keyboard'' then
            (let m1 = snd (pio_bench tsc ''PIO'' ''empty'' (st - 1) m)
             in Inr (snd (pio_bench tsc ''PIO'' name st m1)))   \<comment> \<open>\<open>break\<close>\<close>
          else pio_walk_bus tsc sib m)"

text \<open>The outer loop, from \<open>res\<close> on.\<close>

fun pio_walk_from :: "(nat \<Rightarrow> u32 \<times> u32) \<Rightarrow> resource \<Rightarrow> mach \<Rightarrow> mach res" where
  "pio_walk_from tsc NullRes m = Inr m"
| "pio_walk_from tsc (Res nm st en sib ch) m =
     (case nm of
        None \<Rightarrow> Inl NullDeref
      | Some name \<Rightarrow>
          bindR (if name = PCI_BUS then pio_walk_bus tsc ch m else Inr m) (pio_walk_from tsc sib))"

definition pio_walk_resource :: "(nat \<Rightarrow> u32 \<times> u32) \<Rightarrow> resource \<Rightarrow> mach \<Rightarrow> mach res" where
  "pio_walk_resource tsc ioport_resource m = pio_walk_from tsc (child ioport_resource) m"

text \<open>The call of \<open>mmio_bench\<close> as a statement: its result is ignored.\<close>

definition mmio_stmt ::
  "(nat \<Rightarrow> u32 \<times> u32) \<Rightarrow> (u64 \<Rightarrow> u64) \<Rightarrow> string \<Rightarrow> u64 \<Rightarrow> mach \<Rightarrow> mach res" where
  "mmio_stmt tsc ioremap name addr m =
     bindR (mmio_bench tsc ioremap ''MMIO'' name addr m) (\<lambda>(_, m'). Inr m')"

text \<open>The inner loop of \<open>mmio_walk_resource\<close>: it looks at the first child of each device.\<close>

definition mmio_device ::
  "(nat \<Rightarrow> u32 \<times> u32) \<Rightarrow> (u64 \<Rightarrow> u64) \<Rightarrow> resource \<Rightarrow> mach \<Rightarrow> mach res" where
  "mmio_device tsc ioremap dev m =
     (case dev of
        NullRes \<Rightarrow> Inr m
      | Res nm st en sib ch \<Rightarrow>
         (case nm of
            None \<Rightarrow> Inl NullDeref
          | Some name \<Rightarrow>
              if strstr name ''vram'' then mmio_stmt tsc ioremap name st m
              else if strstr name ''virtio-pci-modern'' then mmio_stmt tsc ioremap name st m
              else Inr m))"

fun mmio_walk_bus ::
  "(nat \<Rightarrow> u32 \<times> u32) \<Rightarrow> (u64 \<Rightarrow> u64) \<Rightarrow> resource \<Rightarrow> mach \<Rightarrow> mach res" where
  "mmio_walk_bus tsc ioremap NullRes m = Inr m"
| "mmio_walk_bus tsc ioremap (Res nm st en sib ch) m =
     bindR (mmio_device tsc ioremap ch m) (mmio_walk_bus tsc ioremap sib)"

fun mmio_walk_from ::
  "(nat \<Rightarrow> u32 \<times> u32) \<Rightarrow> (u64 \<Rightarrow> u64) \<Rightarrow> resource \<Rightarrow> mach \<Rightarrow> mach res" where
  "mmio_walk_from tsc ioremap NullRes m = Inr m"
| "mmio_walk_from tsc ioremap (Res nm st en sib ch) m =
     (case nm of
        None \<Rightarrow> Inl NullDeref
      | Some name \<Rightarrow>
          bindR (if name = ''IOAPIC 0'' \<or> name = ''Local APIC''
                 then mmio_stmt tsc ioremap name st m else Inr m) (\<lambda>m1.
          bindR (if name = PCI_BUS
                 then bindR (mmio_stmt tsc ioremap name st m1) (mmio_walk_bus tsc ioremap ch)
                 else Inr m1) (mmio_walk_from tsc ioremap sib)))"

definition mmio_walk_resource ::
  "(nat \<Rightarrow> u32 \<times> u32) \<Rightarrow> (u64 \<Rightarrow> u64) \<Rightarrow> resource \<Rightarrow> mach \<Rightarrow> mach res" where
  "mmio_walk_resource tsc ioremap iomem_resource m =
     mmio_walk_from tsc ioremap (child iomem_resource) m"

definition pio_mmio_bench_init ::
  "(nat \<Rightarrow> u32 \<times> u32) \<Rightarrow> (u64 \<Rightarrow> u64) \<Rightarrow> resource \<Rightarrow> resource \<Rightarrow> mach \<Rightarrow> (int \<times> mach) res" where
  "pio_mmio_bench_init tsc ioremap ioport_resource iomem_resource m =
     bindR (pio_walk_resource tsc ioport_resource
             (say ''pio_mmio_bench: %s start'' [AStr ''pio_mmio_bench_init''] m)) (\<lambda>m1.
     bindR (mmio_walk_resource tsc ioremap iomem_resource m1) (\<lambda>m2.
     Inr (-1, say ''pio_mmio_bench: %s finish'' [AStr ''pio_mmio_bench_init''] m2)))"

definition pio_mmio_bench_exit :: "mach \<Rightarrow> mach" where
  "pio_mmio_bench_exit m = say ''pio_mmio_bench: %s'' [AStr ''pio_mmio_bench_exit''] m"

section \<open>The plan\<close>

text \<open>
  The abstract specification of a walk: the list of benchmarks it runs, as a function of the tree.
\<close>

datatype job = Pio string u64 | Mmio string u64

fun siblings :: "resource \<Rightarrow> resource list" where
  "siblings NullRes = []"
| "siblings (Res nm st en sib ch) = Res nm st en sib ch # siblings sib"

definition legacy_jobs :: "resource \<Rightarrow> job list" where
  "legacy_jobs t =
     (if rname t = Some ''pic1'' \<or> rname t = Some ''timer0''
      then [Pio (the (rname t)) (rstart t)] else [])"

definition keyboard_jobs :: "resource list \<Rightarrow> job list" where
  "keyboard_jobs ts =
     (case ts of [] \<Rightarrow> [] | k # _ \<Rightarrow> [Pio ''empty'' (rstart k - 1), Pio ''keyboard'' (rstart k)])"

definition pio_bus_plan :: "resource list \<Rightarrow> job list" where
  "pio_bus_plan ts =
     concat (map legacy_jobs (takeWhile (\<lambda>t. rname t \<noteq> Some ''keyboard'') ts)) @
     keyboard_jobs (dropWhile (\<lambda>t. rname t \<noteq> Some ''keyboard'') ts)"

definition is_bus :: "resource \<Rightarrow> bool" where
  "is_bus r = (rname r = Some PCI_BUS)"

definition pio_plan :: "resource \<Rightarrow> job list" where
  "pio_plan root =
     concat (map (\<lambda>r. pio_bus_plan (siblings (child r))) (filter is_bus (siblings (child root))))"

definition device_jobs :: "resource \<Rightarrow> job list" where
  "device_jobs t =
     (if child t \<noteq> NullRes \<and>
         (strstr (the (rname (child t))) ''vram'' \<or>
          strstr (the (rname (child t))) ''virtio-pci-modern'')
      then [Mmio (the (rname (child t))) (rstart (child t))] else [])"

definition mmio_jobs :: "resource \<Rightarrow> job list" where
  "mmio_jobs r =
     (if rname r = Some ''IOAPIC 0'' \<or> rname r = Some ''Local APIC''
      then [Mmio (the (rname r)) (rstart r)] else []) @
     (if is_bus r
      then Mmio (the (rname r)) (rstart r) # concat (map device_jobs (siblings (child r))) else [])"

definition mmio_plan :: "resource \<Rightarrow> job list" where
  "mmio_plan root = concat (map mmio_jobs (siblings (child root)))"

fun all_named :: "resource \<Rightarrow> bool" where
  "all_named NullRes = True"
| "all_named (Res nm st en sib ch) = (nm \<noteq> None \<and> all_named sib \<and> all_named ch)"

text \<open>What running one job does to the machine.\<close>

fun job_ops :: "(u64 \<Rightarrow> u64) \<Rightarrow> job \<Rightarrow> mach_op list" where
  "job_ops ioremap (Pio name addr) = Rdtsc # replicate PIO_LOOP (Inb (ucast addr)) @ [Rdtsc]"
| "job_ops ioremap (Mmio name addr) =
     Ioremap addr # Rdtsc # replicate PIO_LOOP (Readb (ioremap addr)) @
     [Rdtsc, Iounmap (ioremap addr)]"

fun job_tag :: "job \<Rightarrow> string \<times> string \<times> u64" where
  "job_tag (Pio name addr) = (''PIO'', name, addr)"
| "job_tag (Mmio name addr) = (''MMIO'', name, addr)"

fun job_maps :: "(u64 \<Rightarrow> u64) \<Rightarrow> job \<Rightarrow> bool" where
  "job_maps ioremap (Pio name addr) = True"
| "job_maps ioremap (Mmio name addr) = (ioremap addr \<noteq> 0)"

definition job_line :: "(nat \<Rightarrow> u32 \<times> u32) \<Rightarrow> nat \<Rightarrow> job \<Rightarrow> log_line" where
  "job_line tsc k j =
     (case job_tag j of (tag, name, addr) \<Rightarrow>
       (''pio_mmio_bench: %4s %18s, address = 0x%lx,  elapsed = %ld cycles, average = %ld cycles'',
        [AStr tag, AStr name, ALong addr, ALong (tsc_value tsc (Suc k) - tsc_value tsc k),
         ALong ((tsc_value tsc (Suc k) - tsc_value tsc k) div ulong_of_int (int PIO_LOOP))]))"

fun run_job :: "(nat \<Rightarrow> u32 \<times> u32) \<Rightarrow> (u64 \<Rightarrow> u64) \<Rightarrow> job \<Rightarrow> mach \<Rightarrow> mach res" where
  "run_job tsc ioremap (Pio name addr) m = Inr (snd (pio_bench tsc ''PIO'' name addr m))"
| "run_job tsc ioremap (Mmio name addr) m = mmio_stmt tsc ioremap name addr m"

section \<open>Running one job\<close>

lemma loop_readb:
  "loop_downR n (readb va) m =
     (if n = 0 \<or> va \<noteq> 0 then Inr (m\<lparr>ops := ops m @ replicate n (Readb va)\<rparr>) else Inl NullDeref)"
proof (induction n arbitrary: m)
  case (Suc n)
  then show ?case by (cases "va = 0") (simp_all add: readb_def emit_def)
qed simp

lemma PIO_LOOP_pos [simp]: "PIO_LOOP \<noteq> 0"
  by (simp add: PIO_LOOP_def)

lemma run_job_effect:
  "run_job tsc ioremap j m =
     (if job_maps ioremap j
      then Inr (m\<lparr>reads := reads m + 2, ops := ops m @ job_ops ioremap j,
                  mlog := mlog m @ [job_line tsc (reads m) j]\<rparr>)
      else Inl NullDeref)"
proof (cases j)
  case (Pio name addr)
  then show ?thesis
    by (simp add: pio_bench_def rdtsc_def split_beta emitted.loop_effect Let_def emit_def say_def
        pio_mmio_bench_report_def job_line_def tsc_value_def)
next
  case (Mmio name addr)
  then show ?thesis
    by (simp add: mmio_stmt_def mmio_bench_def rdtsc_def split_beta loop_readb Let_def emit_def say_def
        pio_mmio_bench_report_def job_line_def tsc_value_def)
qed

lemma run_jobs_effect:
  "\<forall>j \<in> set js. job_maps ioremap j \<Longrightarrow>
   foldR (run_job tsc ioremap) js m =
     Inr (m\<lparr>reads := reads m + 2 * length js,
            ops := ops m @ concat (map (job_ops ioremap) js),
            mlog := mlog m @ map (\<lambda>k. job_line tsc (reads m + 2 * k) (js ! k)) [0..<length js]\<rparr>)"
proof (induction js rule: rev_induct)
  case (snoc j js)
  then show ?case
    by (simp add: foldR_append run_job_effect nth_append)
qed simp

lemma run_jobs_fault:
  "\<not> (\<forall>j \<in> set js. job_maps ioremap j) \<Longrightarrow> foldR (run_job tsc ioremap) js m = Inl NullDeref"
  by (induction js arbitrary: m) (auto simp: run_job_effect)

section \<open>The walks refine the plan\<close>

lemma take_length_eq_iff: "take (length needle) xs = needle \<longleftrightarrow> (\<exists>ss. xs = needle @ ss)"
  by (metis append_eq_conv_conj)

lemma strstr_iff: "strstr hay needle \<longleftrightarrow> (\<exists>ps ss. hay = ps @ needle @ ss)"
proof (induction hay)
  case (Cons c cs)
  have "(\<exists>ps ss. c # cs = ps @ needle @ ss) \<longleftrightarrow>
      (\<exists>ss. c # cs = needle @ ss) \<or> (\<exists>ps ss. cs = ps @ needle @ ss)" (is "?l \<longleftrightarrow> ?r")
  proof
    assume ?l
    then obtain ps ss where "c # cs = ps @ needle @ ss" by blast
    then show ?r by (cases ps) auto
  next
    show "?r \<Longrightarrow> ?l" by (metis append_Cons append_Nil)
  qed
  with Cons show ?case by (simp add: take_length_eq_iff)
qed simp

lemma bindR_right [simp]: "bindR m Inr = m"
  by (cases m) simp_all

lemma bindR_assoc: "bindR (bindR m f) g = bindR m (\<lambda>x. bindR (f x) g)"
  by (cases m) simp_all

lemma foldR_Nil [simp]: "foldR f [] = Inr"
  by (rule ext) simp

lemma is_bus_Res [simp]: "is_bus (Res nm st en sib ch) \<longleftrightarrow> nm = Some PCI_BUS"
  by (simp add: is_bus_def)

lemma foldR_if: "foldR f (if b then xs else []) m = (if b then foldR f xs m else Inr m)"
  by simp

lemma pio_bus_plan_simps [simp]:
  "pio_bus_plan [] = []"
  "pio_bus_plan (Res nm st en sib ch # ts) =
     (if nm = Some ''keyboard'' then [Pio ''empty'' (st - 1), Pio ''keyboard'' st]
      else (if nm = Some ''pic1'' \<or> nm = Some ''timer0'' then [Pio (the nm) st] else []) @
        pio_bus_plan ts)"
  by (simp_all add: pio_bus_plan_def keyboard_jobs_def legacy_jobs_def)

lemma pio_walk_bus_plan:
  "all_named r \<Longrightarrow> pio_walk_bus tsc r m = foldR (run_job tsc ioremap) (pio_bus_plan (siblings r)) m"
proof (induction r arbitrary: m)
  case (Res nm st en sib ch)
  then obtain name where nm: "nm = Some name" by auto
  consider "name = ''pic1'' \<or> name = ''timer0''" | "name = ''keyboard''"
    | "name \<noteq> ''pic1''" "name \<noteq> ''timer0''" "name \<noteq> ''keyboard''" by blast
  then show ?case
    using Res nm by cases (auto simp: Let_def)
qed simp

lemma pio_walk_from_plan:
  "all_named r \<Longrightarrow> pio_walk_from tsc r m =
     foldR (run_job tsc ioremap)
       (concat (map (\<lambda>r. pio_bus_plan (siblings (child r))) (filter is_bus (siblings r)))) m"
proof (induction r arbitrary: m)
  case (Res nm st en sib ch)
  then obtain name where nm: "nm = Some name" by auto
  have ch: "pio_walk_bus tsc ch m' = foldR (run_job tsc ioremap) (pio_bus_plan (siblings ch)) m'" for m'
    using Res.prems by (intro pio_walk_bus_plan) simp
  have ih: "pio_walk_from tsc sib = foldR (run_job tsc ioremap)
      (concat (map (\<lambda>r. pio_bus_plan (siblings (child r))) (filter is_bus (siblings sib))))"
    using Res by (intro ext) simp
  show ?case
    by (cases "name = PCI_BUS") (simp_all add: nm ih ch foldR_append)
qed simp

lemma mmio_walk_bus_plan:
  "all_named r \<Longrightarrow> mmio_walk_bus tsc ioremap r m =
     foldR (run_job tsc ioremap) (concat (map device_jobs (siblings r))) m"
proof (induction r arbitrary: m)
  case (Res nm st en sib ch)
  have "mmio_device tsc ioremap ch m =
      foldR (run_job tsc ioremap) (device_jobs (Res nm st en sib ch)) m"
    using Res.prems by (cases ch) (auto simp: mmio_device_def device_jobs_def bindR_def split: sum.splits)
  moreover have "mmio_walk_bus tsc ioremap sib =
      foldR (run_job tsc ioremap) (concat (map device_jobs (siblings sib)))"
    using Res by (intro ext) simp
  ultimately show ?case by (simp add: foldR_append)
qed simp

lemma mmio_jobs_Res:
  "mmio_jobs (Res (Some name) st en sib ch) =
      (if name = ''IOAPIC 0'' \<or> name = ''Local APIC'' then [Mmio name st] else []) @
      (if name = PCI_BUS then Mmio name st # concat (map device_jobs (siblings ch)) else [])"
  by (simp only: mmio_jobs_def is_bus_Res resource.sel option.inject option.sel)

lemma foldR_Cons: "foldR f (x # xs) m = bindR (f x m) (foldR f xs)"
  by simp

lemma mmio_walk_from_plan:
  "all_named r \<Longrightarrow> mmio_walk_from tsc ioremap r m =
     foldR (run_job tsc ioremap) (concat (map mmio_jobs (siblings r))) m"
proof (induction r arbitrary: m)
  case (Res nm st en sib ch)
  then obtain name where nm: "nm = Some name" by auto
  have ch: "mmio_walk_bus tsc ioremap ch =
      foldR (run_job tsc ioremap) (concat (map device_jobs (siblings ch)))"
    using Res.prems by (intro ext mmio_walk_bus_plan) simp
  have ih: "mmio_walk_from tsc ioremap sib =
      foldR (run_job tsc ioremap) (concat (map mmio_jobs (siblings sib)))"
    using Res by (intro ext) simp
  have stmt: "mmio_stmt tsc ioremap = (\<lambda>n a. run_job tsc ioremap (Mmio n a))"
    by (intro ext) simp
  show ?case
    unfolding siblings.simps list.map concat.simps nm mmio_jobs_Res foldR_append foldR_if foldR_Cons
      mmio_walk_from.simps option.case stmt ch ih
    by (simp only: bindR_right bindR_assoc foldR_Nil bindR_simps)
qed simp

section \<open>Properties\<close>

definition bench_plan :: "resource \<Rightarrow> resource \<Rightarrow> job list" where
  "bench_plan ports mem = pio_plan ports @ mmio_plan mem"

lemma init_plan:
  assumes "all_named (child ports)" and "all_named (child mem)"
  shows "pio_mmio_bench_init tsc ioremap ports mem m =
    bindR (foldR (run_job tsc ioremap) (bench_plan ports mem)
             (say ''pio_mmio_bench: %s start'' [AStr ''pio_mmio_bench_init''] m))
      (\<lambda>m2. Inr (-1, say ''pio_mmio_bench: %s finish'' [AStr ''pio_mmio_bench_init''] m2))"
  unfolding pio_mmio_bench_init_def pio_walk_resource_def mmio_walk_resource_def bench_plan_def
    foldR_append pio_plan_def mmio_plan_def
  by (simp add: pio_walk_from_plan [OF assms(1), where ioremap = ioremap]
      mmio_walk_from_plan [OF assms(2)] bindR_assoc)

text \<open>
  C20: loading the module runs exactly the plan: when every named resource maps, the load fails with -1
  as intended, the machine executes the operations of the jobs of the plan one after the other and
  nothing else, and the log has one report per job, in order, computed from the two counter reads
  around that job. When some mapping of the plan fails, the module reads through the null pointer
  that \<open>ioremap\<close> returned, since \<open>mmio_bench\<close> does not check it.
\<close>

theorem pio_mmio_bench_run:
  assumes "all_named (child ports)" and "all_named (child mem)" and "reads m = 0"
  shows "pio_mmio_bench_init tsc ioremap ports mem m =
    (let js = bench_plan ports mem in
     if \<forall>j \<in> set js. job_maps ioremap j
     then Inr (-1,
       \<lparr>reads = 2 * length js,
        ops = ops m @ concat (map (job_ops ioremap) js),
        mlog = mlog m @ [(''pio_mmio_bench: %s start'', [AStr ''pio_mmio_bench_init''])] @
          map (\<lambda>k. job_line tsc (2 * k) (js ! k)) [0..<length js] @
          [(''pio_mmio_bench: %s finish'', [AStr ''pio_mmio_bench_init''])]\<rparr>)
     else Inl NullDeref)"
  by (simp add: init_plan [OF assms(1,2)] run_jobs_effect run_jobs_fault assms(3) Let_def say_def)

definition ex_ports :: resource where
  "ex_ports = Res (Some ''PCI IO'') 0 0xffff NullRes
     (Res (Some PCI_BUS) 0 0xcf7 NullRes
       (Res (Some ''dma1'') 0 0x1f
         (Res (Some ''pic1'') 0x20 0x21
           (Res (Some ''keyboard'') 0x60 0x60
             (Res (Some ''timer0'') 0x40 0x43 NullRes NullRes) NullRes) NullRes) NullRes))"

definition ex_mem :: resource where
  "ex_mem = Res (Some ''PCI mem'') 0 0 NullRes
     (Res (Some PCI_BUS) 0xc0000000 0xfebfffff
       (Res (Some ''IOAPIC 0'') 0xfec00000 0xfec003ff NullRes NullRes)
       (Res (Some ''0000:00:04.0'') 0xfd000000 0xfd003fff
         (Res (Some ''0000:00:05.0'') 0xfd004000 0xfd007fff NullRes
           (Res (Some ''virtio-pci-modern'') 0xfd004000 0xfd007fff NullRes NullRes))
         (Res (Some ''virtio-pci-modern'') 0xfd000000 0xfd003fff NullRes NullRes)))"

lemma ex_plan: "bench_plan ex_ports ex_mem =
  [Pio ''pic1'' 0x20, Pio ''empty'' 0x5f, Pio ''keyboard'' 0x60,
   Mmio PCI_BUS 0xc0000000, Mmio ''virtio-pci-modern'' 0xfd000000,
   Mmio ''virtio-pci-modern'' 0xfd004000, Mmio ''IOAPIC 0'' 0xfec00000]"
  by (simp add: bench_plan_def pio_plan_def mmio_plan_def ex_ports_def ex_mem_def mmio_jobs_def
      device_jobs_def PCI_BUS_def pio_bus_plan_def keyboard_jobs_def legacy_jobs_def)

theorem pio_mmio_bench_run_witness:
  "pio_mmio_bench_init ex_tsc (\<lambda>a. a + 0x1000) ex_ports ex_mem mach_init =
    (let js = bench_plan ex_ports ex_mem in
     if \<forall>j \<in> set js. job_maps (\<lambda>a. a + 0x1000) j
     then Inr (-1,
       \<lparr>reads = 2 * length js,
        ops = ops mach_init @ concat (map (job_ops (\<lambda>a. a + 0x1000)) js),
        mlog = mlog mach_init @ [(''pio_mmio_bench: %s start'', [AStr ''pio_mmio_bench_init''])] @
          map (\<lambda>k. job_line ex_tsc (2 * k) (js ! k)) [0..<length js] @
          [(''pio_mmio_bench: %s finish'', [AStr ''pio_mmio_bench_init''])]\<rparr>)
     else Inl NullDeref)"
  by (rule pio_mmio_bench_run) (simp_all add: ex_ports_def ex_mem_def mach_init_def)

lemma siblings_Res: "t \<in> set (siblings r) \<Longrightarrow> \<exists>nm st en sib ch. t = Res nm st en sib ch"
  by (induction r) auto

lemma pio_bus_plan_simp2:
  "pio_bus_plan (t # ts) =
     (if rname t = Some ''keyboard'' then [Pio ''empty'' (rstart t - 1), Pio ''keyboard'' (rstart t)]
      else legacy_jobs t @ pio_bus_plan ts)"
  by (simp add: pio_bus_plan_def keyboard_jobs_def legacy_jobs_def)

definition legacy_name :: "string \<Rightarrow> bool" where
  "legacy_name n = (n = ''pic1'' \<or> n = ''timer0'' \<or> n = ''keyboard'')"

lemma pio_bus_plan_jobs:
  "j \<in> set (pio_bus_plan ts) \<Longrightarrow>
    \<exists>t \<in> set ts. \<exists>n. rname t = Some n \<and> legacy_name n \<and>
      (j = Pio n (rstart t) \<or> n = ''keyboard'' \<and> j = Pio ''empty'' (rstart t - 1))"
proof (induction ts)
  case (Cons t ts)
  show ?case
  proof (cases "rname t = Some ''keyboard''")
    case True
    then show ?thesis using Cons.prems
      by (simp add: pio_bus_plan_simp2 legacy_name_def) blast
  next
    case False
    then consider "j \<in> set (legacy_jobs t)" | "j \<in> set (pio_bus_plan ts)"
      using Cons.prems by (auto simp: pio_bus_plan_simp2)
    then show ?thesis
    proof cases
      case 1
      then have "\<exists>n. rname t = Some n \<and> legacy_name n \<and> j = Pio n (rstart t)"
        by (cases "rname t") (auto simp: legacy_jobs_def legacy_name_def split: if_splits)
      then show ?thesis by auto
    next
      case 2
      then show ?thesis using Cons.IH by (meson list.set_intros(2))
    qed
  qed
qed simp

definition is_keyboard :: "job \<Rightarrow> bool" where
  "is_keyboard j = (case j of Pio n a \<Rightarrow> n = ''keyboard'' | Mmio n a \<Rightarrow> False)"

lemma is_keyboard_Pio [simp]: "is_keyboard (Pio n a) \<longleftrightarrow> n = ''keyboard''"
  by (simp add: is_keyboard_def)

lemma bus_keyboards: "length (filter is_keyboard (pio_bus_plan ts)) \<le> 1"
proof (induction ts)
  case (Cons t ts)
  have "filter is_keyboard (legacy_jobs t) = []" 
    by (auto simp: legacy_jobs_def)
  with Cons show ?case by (simp add: pio_bus_plan_simp2)
qed simp

lemma length_filter_concat_le:
  "(\<And>x. x \<in> set xs \<Longrightarrow> length (filter P (f x)) \<le> 1) \<Longrightarrow>
   length (filter P (concat (map f xs))) \<le> length xs"
proof (induction xs)
  case (Cons x xs)
  from Cons.prems [of x] Cons.IH Cons.prems show ?case by fastforce
qed simp

text \<open>
  what the port walk benchmarks comes from the tree: every benchmarked port is the first port of a
  resource named \<open>pic1\<close>, \<open>timer0\<close> or \<open>keyboard\<close> directly below a bus \<open>PCI Bus 0000:00\<close>, and is
  reported under that name, except the port one below a keyboard's, reported as \<open>empty\<close>; and since the
  walk stops at the keyboard, each bus yields at most one.
\<close>

theorem pio_plan_sound:
  "(\<forall>j \<in> set (pio_plan ports).
     \<exists>bus \<in> set (siblings (child ports)). rname bus = Some PCI_BUS \<and>
     (\<exists>t \<in> set (siblings (child bus)). \<exists>n. rname t = Some n \<and> legacy_name n \<and>
       (j = Pio n (rstart t) \<or> n = ''keyboard'' \<and> j = Pio ''empty'' (rstart t - 1)))) \<and>
   length (filter is_keyboard (pio_plan ports)) \<le> length (filter is_bus (siblings (child ports)))"
proof (intro conjI ballI)
  fix j assume "j \<in> set (pio_plan ports)"
  then obtain bus where "bus \<in> set (siblings (child ports))" "is_bus bus"
    "j \<in> set (pio_bus_plan (siblings (child bus)))"
    by (auto simp: pio_plan_def)
  with pio_bus_plan_jobs [of j "siblings (child bus)"]
  show "\<exists>bus \<in> set (siblings (child ports)). rname bus = Some PCI_BUS \<and>
     (\<exists>t \<in> set (siblings (child bus)). \<exists>n. rname t = Some n \<and> legacy_name n \<and>
       (j = Pio n (rstart t) \<or> n = ''keyboard'' \<and> j = Pio ''empty'' (rstart t - 1)))"
    unfolding is_bus_def by blast
next
  show "length (filter is_keyboard (pio_plan ports)) \<le> length (filter is_bus (siblings (child ports)))"
    unfolding pio_plan_def by (rule length_filter_concat_le) (rule bus_keyboards)
qed

theorem pio_plan_sound_witness:
  "Pio ''empty'' 0x5f \<in> set (pio_plan ex_ports) \<and>
   length (filter is_keyboard (pio_plan ex_ports)) \<le> length (filter is_bus (siblings (child ex_ports)))"
  using pio_plan_sound [of ex_ports]
  by (simp add: pio_plan_def ex_ports_def PCI_BUS_def pio_bus_plan_simp2 legacy_jobs_def is_bus_def)

text \<open>
  every virtio device is benchmarked, not only the first one as the comment in the walk has it: each
  device of the bus whose first child is a virtio region contributes a job to the plan.
\<close>

theorem every_virtio_device_benched:
  assumes "bus \<in> set (siblings (child mem))" and "rname bus = Some PCI_BUS"
    and "dev \<in> set (siblings (child bus))" and "child dev = Res (Some n) st en sib ch"
    and "strstr n ''virtio-pci-modern''"
  shows "Mmio n st \<in> set (mmio_plan mem)"
proof -
  have "Mmio n st \<in> set (device_jobs dev)"
    using assms(4,5) by (simp add: device_jobs_def)
  then have "Mmio n st \<in> set (mmio_jobs bus)"
    using assms(2,3) by (auto simp: mmio_jobs_def is_bus_def)
  with assms(1) show ?thesis by (auto simp: mmio_plan_def)
qed

theorem every_virtio_device_benched_witness:
  "Mmio ''virtio-pci-modern'' 0xfd000000 \<in> set (mmio_plan ex_mem) \<and>
   Mmio ''virtio-pci-modern'' 0xfd004000 \<in> set (mmio_plan ex_mem)"
proof
  let ?bus = "child ex_mem"
  show "Mmio ''virtio-pci-modern'' 0xfd000000 \<in> set (mmio_plan ex_mem)"
    by (rule every_virtio_device_benched [of ?bus _ "child ?bus"]) (simp_all add: ex_mem_def)
  show "Mmio ''virtio-pci-modern'' 0xfd004000 \<in> set (mmio_plan ex_mem)"
    by (rule every_virtio_device_benched [of ?bus _ "sibling (child ?bus)"]) (simp_all add: ex_mem_def)
qed

end
