(* ===== verification/Apic_Ipi.thy ===== *)
theory Apic_Ipi
  imports Bench_Machine
begin

text \<open>
  \<open>microbenchmark/apic-ipi/apic_ipi.c\<close>: the benchmark of the kernel's functions that send an IPI to a
  CPU mask. What the module reads of the kernel is the record \<open>apic_env\<close>; \<open>cpu_to_node\<close> is total
  because the code also asks for the node of a CPU that does not exist.
\<close>

section \<open>The code\<close>

definition APIC_LOOP :: nat where
  "APIC_LOOP = 100000"

definition MAXNUMA :: nat where
  "MAXNUMA = 4"

definition ipi_funcs :: "string list" where
  "ipi_funcs = [''kvm_send_ipi_mask'', ''default_send_IPI_mask_sequence_phys'',
     ''flat_send_IPI_mask'', ''x2apic_send_IPI_mask'']"

record apic_env =
  online_cpus :: "nat list"          \<comment> \<open>the online mask, in ascending order\<close>
  nr_cpu_ids :: nat
  cpu_to_node :: "nat \<Rightarrow> int"
  num_online_nodes :: int
  this_cpu :: nat                    \<comment> \<open>what \<open>get_cpu\<close> returns\<close>
  kallsyms :: "string \<Rightarrow> u64"        \<comment> \<open>0 for an unknown name\<close>
  apic_name :: string
  apic_send_IPI :: u64
  apic_send_IPI_mask :: u64
  sprint_symbol :: "u64 \<Rightarrow> string"   \<comment> \<open>what it writes into the buffer\<close>

text \<open>
  The search: after the body of \<open>for_each_online_cpu\<close> ran for every CPU without \<open>break\<close>, the variable
  is \<open>nr_cpu_ids\<close>.
\<close>

fun find_target :: "apic_env \<Rightarrow> nat \<Rightarrow> u8 list \<Rightarrow> nat list \<Rightarrow> nat res" where
  "find_target env currentcpu numa [] = Inr (nr_cpu_ids env)"
| "find_target env currentcpu numa (targetcpu # cpus) =
     (if targetcpu = currentcpu then find_target env currentcpu numa cpus
      else bindR (arr_get numa (cpu_to_node env targetcpu)) (\<lambda>v.
        if v \<noteq> 0 then find_target env currentcpu numa cpus else Inr targetcpu))"

definition send_IPI_mask :: "u64 \<Rightarrow> string \<Rightarrow> nat \<Rightarrow> mach \<Rightarrow> mach res" where
  "send_IPI_mask fptr func targetcpu m =
     (if fptr = 0 then Inl NullDeref else Inr (emit (SendIpi func targetcpu) m))"

definition bench_node ::
  "(nat \<Rightarrow> u32 \<times> u32) \<Rightarrow> apic_env \<Rightarrow> string \<Rightarrow> u64 \<Rightarrow> nat \<Rightarrow> u8 list \<times> mach \<Rightarrow> (u8 list \<times> mach) res" where
  "bench_node tsc env func fptr currentcpu = (\<lambda>(numa, m).
     bindR (find_target env currentcpu numa (online_cpus env)) (\<lambda>targetcpu.
     let m1 = say (''apic_ipi: '' @ tab @ ''IPI[%s] from CPU[%d] to CPU[%d]'')
                [AStr func, AUInt (of_nat currentcpu), AUInt (of_nat targetcpu)] m;
         (start, m2) = rdtsc tsc m1
     in bindR (for_range APIC_LOOP (\<lambda>_. send_IPI_mask fptr func targetcpu) m2) (\<lambda>m3.
     let (t, m4) = rdtsc tsc m3;
         m5 = say (''apic_ipi:'' @ tab @ tab @ ''total cycles %ld, avg %ld'')
                [ALong (t - start), ALong ((t - start) div ulong_of_int (int APIC_LOOP))] m4
     in bindR (arr_set numa (cpu_to_node env targetcpu) 1) (\<lambda>numa'.
        Inr (numa', m5)))))"

definition bench :: "(nat \<Rightarrow> u32 \<times> u32) \<Rightarrow> apic_env \<Rightarrow> string \<Rightarrow> int \<Rightarrow> mach \<Rightarrow> mach res" where
  "bench tsc env func nodes m =
     (let fptr = kallsyms env func;
          currentcpu = this_cpu env
      in bindR (for_range (nat (min nodes (int MAXNUMA)))
                  (\<lambda>node. bench_node tsc env func fptr currentcpu)
                  (replicate MAXNUMA 0, m))
           (\<lambda>(numa, m'). Inr m'))"

definition print_symbol :: "apic_env \<Rightarrow> string \<Rightarrow> string \<Rightarrow> u64 \<Rightarrow> mach \<Rightarrow> mach" where
  "print_symbol env f_name f_addr addr m =
     (let name = sprint_symbol env addr in
      if length name > 0 then say f_name [AStr name] m else say f_addr [ALong addr] m)"

definition apic_help :: "mach \<Rightarrow> mach" where
  "apic_help m =
     foldl (\<lambda>m i. say (''apic_ipi:'' @ tab @ ''bit[%d] %s'') [AInt (int i), AStr (ipi_funcs ! i)] m)
       (say ''apic_ipi: you should run insmod apic_ipi.ko options=XX, bit flags:'' [] m)
       [0..<length ipi_funcs]"

definition apic_ipi_init ::
  "(nat \<Rightarrow> u32 \<times> u32) \<Rightarrow> apic_env \<Rightarrow> int \<Rightarrow> mach \<Rightarrow> (int \<times> mach) res" where
  "apic_ipi_init tsc env options m =
     (let nodes = num_online_nodes env in
      if options = 0 then Inr (-1, apic_help m)
      else
        let m1 = say ''apic_ipi: %d NUMA node(s)'' [AInt nodes] m;
            m2 = say ''apic_ipi: apic [%s]'' [AStr (apic_name env)] m1;
            m3 = print_symbol env ''apic_ipi: apic->send_IPI[%s]'' ''apic_ipi: apic->send_IPI[%lx]''
                   (apic_send_IPI env) m2;
            m4 = print_symbol env ''apic_ipi: apic->send_IPI_mask[%s]''
                   ''apic_ipi: apic->send_IPI_mask[%lx]'' (apic_send_IPI_mask env) m3
        in bindR (for_range (length ipi_funcs)
                    (\<lambda>i m. if bit options (nat i) then bench tsc env (ipi_funcs ! nat i) nodes m
                           else Inr m) m4)
             (\<lambda>m5. Inr (-1, m5)))"

definition apic_ipi_exit :: "mach \<Rightarrow> mach" where
  "apic_ipi_exit m = say ''apic_ipi: %s'' [AStr ''apic_ipi_exit''] m"

section \<open>The abstract choice of targets\<close>

text \<open>The CPUs that are the first of their node, nodes in \<open>S\<close> aside.\<close>

fun node_firsts :: "(nat \<Rightarrow> int) \<Rightarrow> int set \<Rightarrow> nat list \<Rightarrow> nat list" where
  "node_firsts c2n S [] = []"
| "node_firsts c2n S (c # cs) =
     (if c2n c \<in> S then node_firsts c2n S cs else c # node_firsts c2n (insert (c2n c) S) cs)"

text \<open>The targets of \<open>k\<close> rounds: one CPU per node other than the current CPU, then the absent CPU.\<close>

definition targets :: "apic_env \<Rightarrow> nat \<Rightarrow> nat list" where
  "targets env k =
     take k (node_firsts (cpu_to_node env) {} (filter (\<lambda>c. c \<noteq> this_cpu env) (online_cpus env)) @
             replicate k (nr_cpu_ids env))"

definition target_ops :: "string \<Rightarrow> nat \<Rightarrow> mach_op list" where
  "target_ops func t = Rdtsc # replicate APIC_LOOP (SendIpi func t) @ [Rdtsc]"

section \<open>Facts on the choice\<close>

lemma node_firsts_tl: "node_firsts c2n S cs = c # r \<Longrightarrow> node_firsts c2n (insert (c2n c) S) cs = r"
  by (induction cs arbitrary: S c r) (auto split: if_splits simp: insert_commute)

lemma node_firsts_Nil_insert: "node_firsts c2n S cs = [] \<Longrightarrow> node_firsts c2n (insert d S) cs = []"
  by (induction cs arbitrary: S) (auto split: if_splits)

lemma set_node_firsts: "set (node_firsts c2n S cs) \<subseteq> set cs"
  by (induction cs arbitrary: S) auto

lemma node_firsts_nodes: "c2n ` set (node_firsts c2n S cs) = c2n ` set cs - S"
  by (induction cs arbitrary: S) auto

lemma distinct_node_firsts: "distinct (map c2n (node_firsts c2n S cs))"
proof (induction cs arbitrary: S)
  case (Cons c cs)
  then show ?case using node_firsts_nodes [of c2n "insert (c2n c) S" cs] by auto
qed simp

lemma length_node_firsts: "length (node_firsts c2n {} cs) = card (c2n ` set cs)"
  using distinct_card [OF distinct_node_firsts [of c2n "{}" cs]] node_firsts_nodes [of c2n "{}" cs] by simp

section \<open>The search\<close>

definition seen :: "u8 list \<Rightarrow> int set" where
  "seen numa = {d. 0 \<le> d \<and> d < int (length numa) \<and> numa ! nat d \<noteq> 0}"

lemma seen_init [simp]: "seen (replicate n 0) = {}"
  by (auto simp: seen_def)

lemma seen_set: "0 \<le> d \<Longrightarrow> d < int (length numa) \<Longrightarrow> seen (numa[nat d := 1]) = insert d (seen numa)"
  by (auto simp: seen_def nth_list_update split: if_splits)

text \<open>The node of a CPU is an index of the array \<open>numa\<close>; that of every online CPU is.\<close>

definition node_in_array :: "apic_env \<Rightarrow> nat \<Rightarrow> bool" where
  "node_in_array env c \<longleftrightarrow> 0 \<le> cpu_to_node env c \<and> cpu_to_node env c < int MAXNUMA"

definition nodes_ok :: "apic_env \<Rightarrow> bool" where
  "nodes_ok env \<longleftrightarrow> (\<forall>c \<in> set (online_cpus env). node_in_array env c)"

lemma find_target_spec:
  assumes "\<forall>c \<in> set cs. 0 \<le> cpu_to_node env c \<and> cpu_to_node env c < int (length numa)"
  shows "find_target env cur numa cs =
    Inr (case node_firsts (cpu_to_node env) (seen numa) (filter (\<lambda>c. c \<noteq> cur) cs) of
           [] \<Rightarrow> nr_cpu_ids env | c # _ \<Rightarrow> c)"
  using assms by (induction cs) (auto simp: seen_def)


section \<open>The rounds\<close>

lemma send_loop:
  "fptr \<noteq> 0 \<Longrightarrow> for_range n (\<lambda>_. send_IPI_mask fptr func t) m =
     Inr (m\<lparr>ops := ops m @ replicate n (SendIpi func t)\<rparr>)"
  by (induction n) (simp_all add: for_range_Suc send_IPI_mask_def emit_def replicate_append_same)

definition round_log :: "(nat \<Rightarrow> u32 \<times> u32) \<Rightarrow> string \<Rightarrow> nat \<Rightarrow> nat \<Rightarrow> nat \<Rightarrow> log_line list" where
  "round_log tsc func cur k t =
     (let d = tsc_value tsc (Suc k) - tsc_value tsc k in
      [(''apic_ipi: '' @ tab @ ''IPI[%s] from CPU[%d] to CPU[%d]'',
        [AStr func, AUInt (of_nat cur), AUInt (of_nat t)]),
       (''apic_ipi:'' @ tab @ tab @ ''total cycles %ld, avg %ld'',
        [ALong d, ALong (d div ulong_of_int (int APIC_LOOP))])])"

lemma bench_node_effect:
  assumes "fptr \<noteq> 0" and "nodes_ok env" and "length numa = MAXNUMA"
    and "t = (case node_firsts (cpu_to_node env) (seen numa) (filter (\<lambda>c. c \<noteq> cur) (online_cpus env)) of
           [] \<Rightarrow> nr_cpu_ids env | c # _ \<Rightarrow> c)"
    and "node_in_array env t"
  shows "bench_node tsc env func fptr cur (numa, m) =
    Inr (numa[nat (cpu_to_node env t) := 1],
         \<lparr>reads = reads m + 2, ops = ops m @ target_ops func t,
          mlog = mlog m @ round_log tsc func cur (reads m) t\<rparr>)"
proof -
  have find: "find_target env cur numa (online_cpus env) = Inr t"
    unfolding assms(4) by (rule find_target_spec) (use assms(2,3) in \<open>simp add: nodes_ok_def node_in_array_def\<close>)
  have t: "0 \<le> cpu_to_node env t" "cpu_to_node env t < int (length numa)"
    using assms(3,5) by (simp_all add: node_in_array_def)
  show ?thesis
    by (simp add: bench_node_def find t send_loop [OF assms(1)] rdtsc_def split_beta Let_def
        emit_def say_def target_ops_def round_log_def tsc_value_def)
qed

definition choice :: "apic_env \<Rightarrow> nat \<Rightarrow> int set \<Rightarrow> nat \<Rightarrow> nat list" where
  "choice env cur S k =
     take k (node_firsts (cpu_to_node env) S (filter (\<lambda>c. c \<noteq> cur) (online_cpus env)) @
             replicate k (nr_cpu_ids env))"

lemma choice_Suc:
  fixes env cur S
  defines "t \<equiv> (case node_firsts (cpu_to_node env) S (filter (\<lambda>c. c \<noteq> cur) (online_cpus env)) of
           [] \<Rightarrow> nr_cpu_ids env | c # _ \<Rightarrow> c)"
  shows "choice env cur S (Suc k) = t # choice env cur (insert (cpu_to_node env t) S) k"
proof (cases "node_firsts (cpu_to_node env) S (filter (\<lambda>c. c \<noteq> cur) (online_cpus env))")
  case Nil
  then show ?thesis by (simp add: t_def choice_def node_firsts_Nil_insert)
next
  case (Cons c r)
  have "take k (r @ nr_cpu_ids env # replicate k (nr_cpu_ids env)) =
      take k (r @ replicate k (nr_cpu_ids env))"
    by (simp del: replicate.simps flip: replicate_Suc)
  then show ?thesis using Cons by (simp add: t_def choice_def node_firsts_tl [OF Cons])
qed

lemma rounds_effect:
  assumes "fptr \<noteq> 0" and "nodes_ok env" and "length numa = MAXNUMA"
    and "\<forall>t \<in> set (choice env cur (seen numa) (length ks)). node_in_array env t"
  shows "\<exists>numa'. length numa' = MAXNUMA \<and>
    seen numa' = cpu_to_node env ` set (choice env cur (seen numa) (length ks)) \<union> seen numa \<and> foldR (\<lambda>_. bench_node tsc env func fptr cur) ks (numa, m) =
    Inr (numa',
      let ts = choice env cur (seen numa) (length ks) in
      \<lparr>reads = reads m + 2 * length ks, ops = ops m @ concat (map (target_ops func) ts),
       mlog = mlog m @
         concat (map (\<lambda>k. round_log tsc func cur (reads m + 2 * k) (ts ! k)) [0..<length ks])\<rparr>)"
  using assms(3,4)
proof (induction ks arbitrary: numa m)
  case Nil
  then show ?case by (simp add: choice_def)
next
  case (Cons x ks)
  define t where "t = (case node_firsts (cpu_to_node env) (seen numa)
      (filter (\<lambda>c. c \<noteq> cur) (online_cpus env)) of [] \<Rightarrow> nr_cpu_ids env | c # _ \<Rightarrow> c)"
  let ?numa = "numa[nat (cpu_to_node env t) := 1]"
  note choice = choice_Suc [of env cur "seen numa", folded t_def]
  have t: "node_in_array env t" using Cons.prems(2) by (simp add: choice)
  then have seen: "seen ?numa = insert (cpu_to_node env t) (seen numa)"
    using Cons.prems(1) by (intro seen_set) (simp_all add: node_in_array_def)
  have upt: "map f [0..<Suc n] = f 0 # map (\<lambda>k. f (Suc k)) [0..<n]" for f :: "nat \<Rightarrow> log_line list" and n
    by (simp add: upt_conv_Cons map_Suc_upt [symmetric] del: upt_Suc)
  let ?m = "\<lparr>reads = reads m + 2, ops = ops m @ target_ops func t,
          mlog = mlog m @ round_log tsc func cur (reads m) t\<rparr>"
  from Cons.IH [of ?numa ?m] Cons.prems show ?case
    by (simp add: bench_node_effect [OF assms(1,2) Cons.prems(1) t_def t] seen choice Let_def upt del: upt_Suc)
qed

lemma targets_choice: "targets env k = choice env (this_cpu env) {} k"
  by (simp add: targets_def choice_def)

definition rounds :: "int \<Rightarrow> nat" where
  "rounds nodes = nat (min nodes (int MAXNUMA))"

lemma bench_effect:
  assumes "kallsyms env func \<noteq> 0" and "nodes_ok env"
    and "\<forall>t \<in> set (targets env (rounds nodes)). node_in_array env t"
  shows "bench tsc env func nodes m = Inr
    (let ts = targets env (rounds nodes) in
     \<lparr>reads = reads m + 2 * rounds nodes,
      ops = ops m @ concat (map (target_ops func) ts),
      mlog = mlog m @ concat (map (\<lambda>k. round_log tsc func (this_cpu env) (reads m + 2 * k) (ts ! k))
               [0..<rounds nodes])\<rparr>)"
  using rounds_effect [OF assms(1,2), where numa = "replicate MAXNUMA 0" and m = m and tsc = tsc
      and cur = "this_cpu env" and func = func and ks = "map int [0..<rounds nodes]"] assms(3)
  by (auto simp: bench_def for_range_def Let_def targets_choice rounds_def)

lemma length_targets: "length (targets env k) = k"
  by (simp add: targets_def)

lemma targets_firsts:
  assumes "k \<le> card (cpu_to_node env ` (set (online_cpus env) - {this_cpu env}))"
  shows "targets env k =
    take k (node_firsts (cpu_to_node env) {} (filter (\<lambda>c. c \<noteq> this_cpu env) (online_cpus env)))"
proof -
  have "set (filter (\<lambda>c. c \<noteq> this_cpu env) (online_cpus env)) = set (online_cpus env) - {this_cpu env}"
    by auto
  with assms show ?thesis
    by (simp add: targets_def length_node_firsts)
qed

lemma targets_spread:
  assumes "k \<le> card (cpu_to_node env ` (set (online_cpus env) - {this_cpu env}))"
  shows "set (targets env k) \<subseteq> set (online_cpus env) - {this_cpu env} \<and>
    distinct (map (cpu_to_node env) (targets env k))"
proof -
  let ?f = "node_firsts (cpu_to_node env) {} (filter (\<lambda>c. c \<noteq> this_cpu env) (online_cpus env))"
  have "set (take k ?f) \<subseteq> set (online_cpus env) - {this_cpu env}"
    using set_take_subset [of k ?f]
      set_node_firsts [of "cpu_to_node env" "{}" "filter (\<lambda>c. c \<noteq> this_cpu env) (online_cpus env)"] by auto
  moreover have "distinct (map (cpu_to_node env) (take k ?f))"
    by (simp add: distinct_node_firsts flip: take_map)
  ultimately show ?thesis by (simp add: targets_firsts [OF assms])
qed

lemma set_targets: "set (targets env k) \<subseteq> insert (nr_cpu_ids env) (set (online_cpus env))"
  using set_node_firsts [of "cpu_to_node env" "{}" "filter (\<lambda>c. c \<noteq> this_cpu env) (online_cpus env)"]
  by (auto simp: targets_def dest: in_set_takeD)

text \<open>
  The code also looks up the node of the CPU it found when that is the absent one. Nothing is known of the result;
  the rounds are not enough to come to it, or it happens to be a node number.
\<close>

definition lookups_ok :: "apic_env \<Rightarrow> int \<Rightarrow> bool" where
  "lookups_ok env nodes \<longleftrightarrow>
     rounds nodes \<le> card (cpu_to_node env ` (set (online_cpus env) - {this_cpu env})) \<or> node_in_array env (nr_cpu_ids env)"

lemma targets_in_array:
  assumes "nodes_ok env" and "lookups_ok env nodes"
  shows "\<forall>t \<in> set (targets env (rounds nodes)). node_in_array env t"
  using assms targets_spread [of "rounds nodes" env] set_targets [of env "rounds nodes"]
  by (auto simp: lookups_ok_def nodes_ok_def)

lemma bench_effect_ok:
  assumes "kallsyms env func \<noteq> 0" and "nodes_ok env" and "lookups_ok env nodes"
  shows "bench tsc env func nodes m = Inr
    (let ts = targets env (rounds nodes) in
     \<lparr>reads = reads m + 2 * rounds nodes,
      ops = ops m @ concat (map (target_ops func) ts),
      mlog = mlog m @ concat (map (\<lambda>k. round_log tsc func (this_cpu env) (reads m + 2 * k) (ts ! k))
               [0..<rounds nodes])\<rparr>)"
  by (rule bench_effect [OF assms(1,2) targets_in_array [OF assms(2,3)]])

lemma node_firsts_none: "c2n ` set cs \<subseteq> S \<Longrightarrow> node_firsts c2n S cs = []"
  by (induction cs arbitrary: S) auto

text \<open>One round more than other CPUs have nodes, when the absent CPU has no node number.\<close>

lemma bench_absent_fault:
  assumes "kallsyms env func \<noteq> 0" and "nodes_ok env" and "\<not> node_in_array env (nr_cpu_ids env)"
    and "card (cpu_to_node env ` (set (online_cpus env) - {this_cpu env})) < rounds nodes"
  shows "bench tsc env func nodes m = Inl OutOfBounds"
proof -
  let ?cs = "filter (\<lambda>c. c \<noteq> this_cpu env) (online_cpus env)"
  let ?step = "\<lambda>_. bench_node tsc env func (kallsyms env func) (this_cpu env)"
  define n where "n = card (cpu_to_node env ` (set (online_cpus env) - {this_cpu env}))"
  have cs: "set (online_cpus env) - {this_cpu env} = set ?cs" by auto
  have ts: "targets env n = node_firsts (cpu_to_node env) {} ?cs"
    using targets_firsts [of n env] length_node_firsts [of "cpu_to_node env" ?cs] by (simp add: n_def cs)
  have "\<forall>t \<in> set (targets env n). node_in_array env t"
    using assms(2) set_node_firsts [of "cpu_to_node env" "{}" ?cs] by (auto simp: ts nodes_ok_def)
  with rounds_effect [OF assms(1,2), where numa = "replicate MAXNUMA 0" and m = m and tsc = tsc
      and cur = "this_cpu env" and func = func and ks = "map int [0..<n]"]
  obtain numa m1 where first: "foldR ?step (map int [0..<n]) (replicate MAXNUMA 0, m) = Inr (numa, m1)"
    and numa: "length numa = MAXNUMA" "seen numa = cpu_to_node env ` set (targets env n)"
    by (auto simp: targets_choice)
  have "find_target env (this_cpu env) numa (online_cpus env) = Inr (nr_cpu_ids env)"
    using assms(2) numa(1) find_target_spec [of "online_cpus env" env numa "this_cpu env"]
      node_firsts_none [of "cpu_to_node env" ?cs "seen numa"] node_firsts_nodes [of "cpu_to_node env" "{}" ?cs]
    by (simp add: nodes_ok_def node_in_array_def numa(2) ts)
  then have last: "?step x (numa, m1) = Inl OutOfBounds" for x :: int
    using assms(3) numa(1)
    by (auto simp: bench_node_def send_loop [OF assms(1)] split_beta Let_def arr_set_def node_in_array_def)
  obtain r where r: "rounds nodes = n + Suc r" using assms(4) by (auto simp: n_def less_iff_Suc_add)
  have "map int [0..<rounds nodes] = map int [0..<n] @ int n # map int [Suc n..<n + Suc r]"
  proof -
    have "[0..<n + Suc r] = [0..<n] @ [n..<n + Suc r]" by (rule upt_add_eq_append) simp
    moreover have "[n..<n + Suc r] = n # [Suc n..<n + Suc r]" by (rule upt_conv_Cons) simp
    ultimately show ?thesis unfolding r by (simp only: list.map map_append)
  qed
  then have "foldR ?step (map int [0..<rounds nodes]) (replicate MAXNUMA 0, m) = Inl OutOfBounds"
    by (simp add: foldR_append first last)
  then show ?thesis by (simp add: bench_def for_range_def Let_def rounds_def)
qed

section \<open>Properties\<close>

text \<open>
  C21: one run of \<open>bench\<close>, when the looked-up function exists, the node numbers of all online CPUs are below MAXNUMA,
  and so is what the code reads as the node of the absent CPU if it comes to that: as
  many rounds as there are nodes, four at most; round \<open>k\<close> sends 100000 IPIs to the \<open>k\<close>-th CPU of the
  abstract choice (the first online CPU, the current one aside, of each node) between two counter reads,
  and logs the pair of CPUs, the cycles and their average. Rounds beyond the nodes of other CPUs all
  target the CPU number \<open>nr_cpu_ids\<close>.
\<close>

theorem apic_bench_run:
  assumes "kallsyms env func \<noteq> 0" and "nodes_ok env" and "lookups_ok env nodes"
  shows "\<exists>m'. bench tsc env func nodes m = Inr m' \<and>
    (let ts = take (rounds nodes)
         (node_firsts (cpu_to_node env) {} (filter (\<lambda>c. c \<noteq> this_cpu env) (online_cpus env)) @
          replicate (rounds nodes) (nr_cpu_ids env)) in
     ops m' = ops m @ concat (map (target_ops func) ts) \<and>
     mlog m' = mlog m @ concat (map (\<lambda>k. round_log tsc func (this_cpu env) (reads m + 2 * k) (ts ! k))
               [0..<rounds nodes]))"
  by (simp add: bench_effect_ok [OF assms] Let_def targets_def)

text \<open>A machine of two nodes with two CPUs each, and one with a single CPU.\<close>

definition ex_env :: apic_env where
  "ex_env = \<lparr>online_cpus = [0, 1, 2, 3], nr_cpu_ids = 4,
     cpu_to_node = (\<lambda>c. if c = 2 \<or> c = 3 then 1 else 0), num_online_nodes = 2, this_cpu = 1,
     kallsyms = (\<lambda>f. if f = ''flat_send_IPI_mask'' then 0xffffffff81000000 else 0),
     apic_name = ''flat'', apic_send_IPI = 0x10, apic_send_IPI_mask = 0x20,
     sprint_symbol = (\<lambda>a. ''sym'')\<rparr>"

definition ex_up :: apic_env where
  "ex_up = ex_env\<lparr>online_cpus := [0], nr_cpu_ids := 1, num_online_nodes := 1, this_cpu := 0\<rparr>"

lemma ex_nodes_ok: "nodes_ok ex_env" "nodes_ok ex_up"
  by (simp_all add: nodes_ok_def node_in_array_def ex_env_def ex_up_def MAXNUMA_def)

lemma ex_lookups_ok: "lookups_ok ex_env nodes" "node_in_array ex_up (nr_cpu_ids ex_up)"
  by (simp_all add: lookups_ok_def node_in_array_def ex_env_def ex_up_def MAXNUMA_def)

lemma ex_kallsyms:
  "kallsyms ex_env ''flat_send_IPI_mask'' \<noteq> 0" "kallsyms ex_up ''flat_send_IPI_mask'' \<noteq> 0"
  by (simp_all add: ex_env_def ex_up_def)

theorem apic_bench_run_witness:
  "\<exists>m'. bench ex_tsc ex_env ''flat_send_IPI_mask'' 2 mach_init = Inr m' \<and>
     ops m' = target_ops ''flat_send_IPI_mask'' 0 @ target_ops ''flat_send_IPI_mask'' 2"
  using apic_bench_run [OF ex_kallsyms(1) ex_nodes_ok(1) ex_lookups_ok(1), where nodes = 2 and m = mach_init and tsc = ex_tsc]
  by (simp add: Let_def rounds_def MAXNUMA_def ex_env_def mach_init_def numeral_2_eq_2) blast

text \<open>
  C22: when no more rounds are run than other CPUs have nodes, the targets of a run of \<open>bench\<close> are real:
  each round sends its 100000 IPIs to one CPU, which is online and not the one that sends, and no two
  rounds target CPUs on the same node.
\<close>

theorem apic_targets_spread:
  assumes "kallsyms env func \<noteq> 0" and "nodes_ok env"
    and "rounds nodes \<le> card (cpu_to_node env ` (set (online_cpus env) - {this_cpu env}))"
  shows "\<exists>m' ts. bench tsc env func nodes m = Inr m' \<and>
    ops m' = ops m @ concat (map (target_ops func) ts) \<and> length ts = rounds nodes \<and>
    set ts \<subseteq> set (online_cpus env) - {this_cpu env} \<and> distinct (map (cpu_to_node env) ts)"
proof -
  have "lookups_ok env nodes" using assms(3) by (simp add: lookups_ok_def)
  from bench_effect_ok [OF assms(1,2) this, of tsc m] targets_spread [OF assms(3)] length_targets [of env "rounds nodes"]
  show ?thesis by (auto simp: Let_def)
qed

theorem apic_targets_spread_witness:
  "\<exists>m' ts. bench ex_tsc ex_env ''flat_send_IPI_mask'' 2 mach_init = Inr m' \<and>
    ops m' = ops mach_init @ concat (map (target_ops ''flat_send_IPI_mask'') ts) \<and> length ts = rounds 2 \<and>
    set ts \<subseteq> set (online_cpus ex_env) - {this_cpu ex_env} \<and> distinct (map (cpu_to_node ex_env) ts)"
proof (rule apic_targets_spread [OF ex_kallsyms(1) ex_nodes_ok(1)])
  have "cpu_to_node ex_env ` (set (online_cpus ex_env) - {this_cpu ex_env}) = {0, 1}"
    by (auto simp: ex_env_def)
  then show "rounds 2 \<le> card (cpu_to_node ex_env ` (set (online_cpus ex_env) - {this_cpu ex_env}))"
    by (simp add: rounds_def MAXNUMA_def)
qed

text \<open>
  C23: when more rounds are run than other CPUs have nodes (one CPU alone on its node is enough), IPIs are
  sent to a CPU that is not online: the search falls off the end of the mask and its result is used
  unchecked. What the code then reads as the node of that CPU is used as an index: the run goes on when it happens
  to be below MAXNUMA, and writes outside the array otherwise.
\<close>

theorem apic_absent_target:
  assumes "kallsyms env func \<noteq> 0" and "nodes_ok env"
    and "\<forall>c \<in> set (online_cpus env). c < nr_cpu_ids env"
    and "card (cpu_to_node env ` (set (online_cpus env) - {this_cpu env})) < rounds nodes"
  shows "if node_in_array env (nr_cpu_ids env)
    then \<exists>m' t. bench tsc env func nodes m = Inr m' \<and> SendIpi func t \<in> set (ops m') \<and> t \<notin> set (online_cpus env)
    else bench tsc env func nodes m = Inl OutOfBounds"
proof (cases "node_in_array env (nr_cpu_ids env)")
  case False
  then show ?thesis using bench_absent_fault [OF assms(1,2) False assms(4)] by simp
next
  case True
  then have ok: "lookups_ok env nodes" by (simp add: lookups_ok_def)
  let ?cs = "filter (\<lambda>c. c \<noteq> this_cpu env) (online_cpus env)"
  have "set ?cs = set (online_cpus env) - {this_cpu env}" by auto
  with assms(4) have "length (node_firsts (cpu_to_node env) {} ?cs) < rounds nodes"
    by (simp add: length_node_firsts)
  then have "nr_cpu_ids env \<in> set (targets env (rounds nodes))"
    by (auto simp: targets_def)
  moreover have "APIC_LOOP \<noteq> 0" by (simp add: APIC_LOOP_def)
  ultimately have "SendIpi func (nr_cpu_ids env)
      \<in> set (concat (map (target_ops func) (targets env (rounds nodes))))"
    by (auto simp: target_ops_def intro!: bexI [of _ "nr_cpu_ids env"])
  moreover have "nr_cpu_ids env \<notin> set (online_cpus env)" using assms(3) by blast
  ultimately show ?thesis
    unfolding if_P [OF True] by (intro exI [of _ "nr_cpu_ids env"] exI) (auto simp: bench_effect_ok [OF assms(1,2) ok] Let_def)
qed

theorem apic_absent_target_witness:
  "\<exists>m' t. bench ex_tsc ex_up ''flat_send_IPI_mask'' 1 mach_init = Inr m' \<and>
     SendIpi ''flat_send_IPI_mask'' t \<in> set (ops m') \<and> t \<notin> set (online_cpus ex_up)"
  using apic_absent_target [OF ex_kallsyms(2) ex_nodes_ok(2), of 1 ex_tsc mach_init] ex_lookups_ok(2)
  by (simp add: ex_up_def ex_env_def rounds_def MAXNUMA_def)

text \<open>
  the node number of a candidate indexes the array \<open>numa\<close> unchecked: when the first online CPU other
  than the current one is on a node numbered 4 or more (or on no node), the first round reads outside the
  array.
\<close>

theorem apic_numa_overflow:
  assumes "filter (\<lambda>c. c \<noteq> this_cpu env) (online_cpus env) = c # cs" and "0 < nodes"
    and "cpu_to_node env c < 0 \<or> int MAXNUMA \<le> cpu_to_node env c"
  shows "bench tsc env func nodes m = Inl OutOfBounds"
proof -
  have find: "find_target env (this_cpu env) (replicate MAXNUMA 0) xs = Inl OutOfBounds"
    if "filter (\<lambda>c. c \<noteq> this_cpu env) xs = c # cs" for xs
    using that
  proof (induction xs)
    case (Cons x xs)
    then show ?case using assms(3) by (cases "x = this_cpu env") auto
  qed simp
  obtain k where "nat (min nodes (int MAXNUMA)) = Suc k"
    using assms(2) by (cases "nat (min nodes (int MAXNUMA))") (auto simp: MAXNUMA_def)
  moreover have "foldR (\<lambda>_. bench_node tsc env func fptr (this_cpu env)) (i # ks) (replicate MAXNUMA 0, m)
      = Inl OutOfBounds" for fptr and i :: int and ks
    by (simp add: bench_node_def find [OF assms(1)])
  ultimately show ?thesis
    by (simp add: bench_def for_range_def upt_conv_Cons Let_def del: upt_Suc)
qed

theorem apic_numa_overflow_witness:
  "bench ex_tsc (ex_env\<lparr>cpu_to_node := \<lambda>c. int c + 4, num_online_nodes := 4\<rparr>) ''flat_send_IPI_mask'' 4 mach_init
     = Inl OutOfBounds"
  by (rule apic_numa_overflow [of _ 0 "[2, 3]"]) (simp_all add: ex_env_def MAXNUMA_def)

section \<open>Loading the module\<close>

definition enabled :: "int \<Rightarrow> string list" where
  "enabled options = map ((!) ipi_funcs) (filter (\<lambda>i. bit options i) [0..<length ipi_funcs])"

lemma bench_list:
  assumes "nodes_ok env" and ok: "lookups_ok env nodes" and "\<forall>i \<in> set is. bit options i \<longrightarrow> kallsyms env (ipi_funcs ! i) \<noteq> 0"
  shows "\<exists>m'. foldR (\<lambda>i m. if bit options (nat i) then bench tsc env (ipi_funcs ! nat i) nodes m else Inr m)
      (map int is) m = Inr m' \<and>
    ops m' = ops m @ concat (map (\<lambda>f. concat (map (target_ops f) (targets env (rounds nodes))))
      (map ((!) ipi_funcs) (filter (\<lambda>i. bit options i) is)))"
  using assms(3)
proof (induction "is" arbitrary: m)
  case (Cons i "is")
  show ?case
  proof (cases "bit options i")
    case True
    then obtain m1 where m1: "bench tsc env (ipi_funcs ! i) nodes m = Inr m1"
      "ops m1 = ops m @ concat (map (target_ops (ipi_funcs ! i)) (targets env (rounds nodes)))"
      using Cons.prems bench_effect_ok [OF _ assms(1) ok, of "ipi_funcs ! i" tsc m]
      by (auto simp: Let_def)
    from Cons.IH [of m1] Cons.prems True m1 show ?thesis by auto
  next
    case False
    with Cons show ?thesis by auto
  qed
qed simp

lemma print_symbol_ops [simp]: "ops (print_symbol env a b c m) = ops m"
  by (simp add: print_symbol_def Let_def)

text \<open>
  loading the module always fails with -1 once its work is done. With the option word 0 it only prints
  the help. Otherwise it benchmarks exactly the functions whose bits are set among the four lowest, in the
  order of the table, each against the same targets, provided those functions exist.
\<close>

theorem apic_init_run:
  assumes "nodes_ok env" and "lookups_ok env (num_online_nodes env)" and "\<forall>f \<in> set (enabled options). kallsyms env f \<noteq> 0"
  shows "\<exists>m'. apic_ipi_init tsc env options m = Inr (-1, m') \<and>
    ops m' = ops m @ concat (map (\<lambda>f.
      concat (map (target_ops f) (targets env (rounds (num_online_nodes env))))) (enabled options))"
proof (cases "options = 0")
  case True
  have "ops (foldl (\<lambda>m i. say (f i) (g i) m) m xs) = ops m" for f g m and xs :: "nat list"
    by (induction xs arbitrary: m) auto
  then show ?thesis using True by (simp add: apic_ipi_init_def apic_help_def enabled_def)
next
  case False
  have h: "\<forall>i \<in> set [0..<length ipi_funcs]. bit options i \<longrightarrow> kallsyms env (ipi_funcs ! i) \<noteq> 0"
    using assms(3) by (auto simp: enabled_def)
  have step: "\<exists>m'. bindR (for_range (length ipi_funcs)
        (\<lambda>i m. if bit options (nat i)
          then bench tsc env (ipi_funcs ! nat i) (num_online_nodes env) m else Inr m) m4)
      (\<lambda>m5. Inr (-1, m5)) = Inr (-1, m') \<and> ops m' = ops m @ concat (map (\<lambda>f.
      concat (map (target_ops f) (targets env (rounds (num_online_nodes env))))) (enabled options))"
    if "ops m4 = ops m" for m4
    using that bench_list [OF assms(1,2) h, where tsc = tsc and m = m4]
    by (auto simp: for_range_def enabled_def)
  show ?thesis
    unfolding apic_ipi_init_def Let_def if_not_P [OF False] by (rule step) simp
qed

theorem apic_init_run_witness:
  "\<exists>m'. apic_ipi_init ex_tsc ex_env 4 mach_init = Inr (-1, m') \<and>
    ops m' = ops mach_init @ concat (map (\<lambda>f.
      concat (map (target_ops f) (targets ex_env (rounds (num_online_nodes ex_env))))) (enabled 4))"
proof (rule apic_init_run [OF ex_nodes_ok(1) ex_lookups_ok(1)])
  have "enabled 4 = [''flat_send_IPI_mask'']"
    by (simp add: enabled_def ipi_funcs_def upt_rec)
  then show "\<forall>f \<in> set (enabled 4). kallsyms ex_env f \<noteq> 0"
    by (simp add: ex_env_def)
qed

end
