(* ===== verification/C_Text.thy ===== *)
theory C_Text
  imports Kvm_Prelude
begin

text \<open>
  Decimal numbers as text: what the conversion \<open>%d\<close> of \<open>snprintf\<close> writes, and bounds on its length.
\<close>

definition digit_char :: "nat \<Rightarrow> char" where
  "digit_char d = char_of (48 + d)"

lemma of_char_digit: "d < 10 \<Longrightarrow> (of_char (digit_char d) :: nat) = 48 + d"
  by (simp add: digit_char_def)

text \<open>The decimal digits of a number, most significant first.\<close>

fun digits :: "nat \<Rightarrow> nat list" where
  "digits n = (if n < 10 then [n] else digits (n div 10) @ [n mod 10])"

declare digits.simps [simp del]

definition dec :: "int \<Rightarrow> string" where
  "dec i = (if i < 0 then CHR ''-'' # map digit_char (digits (nat (- i)))
            else map digit_char (digits (nat i)))"

definition snprintf :: "nat \<Rightarrow> string \<Rightarrow> string" where   \<comment> \<open>what a buffer of that size holds of the text\<close>
  "snprintf n text = take (n - 1) text"

lemma digits_bound: "d \<in> set (digits n) \<Longrightarrow> d < 10"
proof (induction n rule: digits.induct)
  case (1 n)
  then show ?case by (subst (asm) (2) digits.simps) (auto split: if_splits)
qed

lemma digits_foldl: "foldl (\<lambda>a d. 10 * a + d) 0 (digits n) = n"
proof (induction n rule: digits.induct)
  case (1 n)
  then show ?case by (subst digits.simps) auto
qed

lemma digits_nonempty [simp]: "digits n \<noteq> []"
  by (subst digits.simps) auto

lemma length_digits: "n < 10 ^ Suc k \<Longrightarrow> length (digits n) \<le> Suc k"
proof (induction k arbitrary: n)
  case 0
  then show ?case by (subst digits.simps) simp
next
  case (Suc k)
  then have "n div 10 < 10 ^ Suc k" by simp
  from Suc.IH [OF this] show ?case by (subst digits.simps) auto
qed

lemma length_dec: "- (2 ^ 31) \<le> i \<Longrightarrow> i < 2 ^ 31 \<Longrightarrow> length (dec i) \<le> 11"
proof -
  assume "- (2 ^ 31) \<le> i" "i < 2 ^ 31"
  then have "nat (- i) < 10 ^ Suc 9" "nat i < 10 ^ Suc 9" by auto
  then have "length (digits (nat (- i))) \<le> 10" "length (digits (nat i)) \<le> 10"
    using length_digits [of _ 9] by fastforce+
  then show ?thesis by (auto simp: dec_def)
qed

lemma digits_inj: "digits m = digits n \<longleftrightarrow> m = n"
  by (metis digits_foldl)

lemma digit_char_inj: "a < 10 \<Longrightarrow> b < 10 \<Longrightarrow> digit_char a = digit_char b \<longleftrightarrow> a = b"
  by (metis add_left_cancel of_char_digit)

lemma map_digit_char_inj:
  "map digit_char (digits m) = map digit_char (digits n) \<longleftrightarrow> m = n"
proof
  assume "map digit_char (digits m) = map digit_char (digits n)"
  moreover have "inj_on digit_char {..<10}" by (auto simp: inj_on_def digit_char_inj)
  moreover have "set (digits m) \<subseteq> {..<10}" "set (digits n) \<subseteq> {..<10}" by (auto dest: digits_bound)
  ultimately have "digits m = digits n"
    by (metis inj_on_map_eq_map inj_on_subset Un_least)
  then show "m = n" by (simp add: digits_inj)
qed simp

lemma digit_char_not: "d < 10 \<Longrightarrow> digit_char d \<noteq> CHR ''-''" "d < 10 \<Longrightarrow> digit_char d \<noteq> CHR ''_''"
  using of_char_digit [of d] by auto

lemma dec_underscore: "CHR ''_'' \<notin> set (dec i)"
proof -
  have "digit_char d \<noteq> CHR ''_''" if "d \<in> set (digits n)" for d n
    using digit_char_not(2) [OF digits_bound [OF that]] .
  then show ?thesis by (auto simp: dec_def) (metis+)
qed

lemma dec_sign: "hd (dec i) = CHR ''-'' \<longleftrightarrow> i < 0"
proof (cases "i < 0")
  case False
  have "hd (digits (nat i)) < 10" by (rule digits_bound [of _ "nat i"]) simp
  with False show ?thesis by (simp add: dec_def hd_map digit_char_not)
qed (simp add: dec_def)

lemma dec_inj: "dec i = dec j \<longleftrightarrow> i = j"
proof
  assume eq: "dec i = dec j"
  then have "i < 0 \<longleftrightarrow> j < 0" by (metis dec_sign)
  with eq show "i = j" by (auto simp: dec_def map_digit_char_inj split: if_splits)
qed simp

text \<open>Two numbers joined by an underscore can be told apart.\<close>

lemma dec_pair_inj: "dec a @ ''_'' @ dec b = dec c @ ''_'' @ dec d \<longleftrightarrow> a = c \<and> b = d"
proof
  assume eq: "dec a @ ''_'' @ dec b = dec c @ ''_'' @ dec d"
  have tw: "takeWhile (\<lambda>x. x \<noteq> CHR ''_'') (dec i @ ''_'' @ xs) = dec i" for i xs
    using dec_underscore [of i] by (subst takeWhile_append2) auto
  from arg_cong [OF eq, of "takeWhile (\<lambda>x. x \<noteq> CHR ''_'')"] have "dec a = dec c"
    by (simp only: tw)
  with eq show "a = c \<and> b = d" by (simp add: dec_inj)
qed simp

end
