(* ===== verification/Tlb_Shootdown.thy ===== *)
theory Tlb_Shootdown
  imports C_Text
begin

text \<open>
  \<open>microbenchmark/tlb-shootdown-bench/tlb-shootdown-bench.c\<close>: the user-space benchmark whose threads
  fill a private mapping and give its pages back, by \<open>madvise\<close> or by \<open>munmap\<close> and \<open>mmap\<close>. The results
  of the system calls a thread makes are the record \<open>tlb_env\<close>; the state of a thread's part of the
  address space, the calls made so far and the output are the record \<open>vm\<close>. The threads of a process
  share the address space but each one only touches its own mapping, so \<open>tlb_main\<close> gives each thread
  its own \<open>vm\<close>.
\<close>

section \<open>Globals and records\<close>

record tl_globals =
  buf_size :: nat
  bench_loops :: int
  use_unmap :: int
  use_interleave :: int

definition tl_globals0 :: tl_globals where
  "tl_globals0 = \<lparr>buf_size = 256*1024*1024, bench_loops = 1, use_unmap = 0, use_interleave = 0\<rparr>"

record thread_info =
  core_id :: int
  tid :: int
  usec_fill :: u64
  usec_leak :: u64
  tret :: int                          \<comment> \<open>the field \<open>ret\<close>\<close>

definition thread_info0 :: thread_info where   \<comment> \<open>\<open>calloc\<close> clears it\<close>
  "thread_info0 = \<lparr>core_id = 0, tid = 0, usec_fill = 0, usec_leak = 0, tret = 0\<rparr>"

datatype tl_op = Fill u64 | Madvise u64 | Munmap u64 | Mmap u64

record vm =
  mapped :: "u64 \<Rightarrow> bool"
  nmmap :: nat                         \<comment> \<open>calls of \<open>mmap\<close> so far\<close>
  nclock :: nat                        \<comment> \<open>calls of \<open>gettimeofday\<close> so far\<close>
  vtrace :: "tl_op list"
  vout :: "log_line list"

definition vm0 :: vm where
  "vm0 = \<lparr>mapped = (\<lambda>a. False), nmmap = 0, nclock = 0, vtrace = [], vout = []\<rparr>"

record timeval =
  tv_sec :: u64
  tv_usec :: u64

record tlb_env =
  mmap_addr :: "nat \<Rightarrow> u64"           \<comment> \<open>of the n-th call; all ones is \<open>MAP_FAILED\<close>\<close>
  munmap_ret :: "u64 \<Rightarrow> int"
  madvise_ret :: "nat \<Rightarrow> u64 \<Rightarrow> int"   \<comment> \<open>of the address, after so many \<open>gettimeofday\<close> calls\<close>
  timeofday :: "nat \<Rightarrow> timeval"
  setaffinity_ret :: "int list \<Rightarrow> int"
  getaffinity_ret :: int
  gettid :: int

section \<open>The thread\<close>

definition time_diff :: "timeval \<Rightarrow> timeval \<Rightarrow> u64" where
  "time_diff s e = (tv_sec e - tv_sec s) * 1000 * 1000 + tv_usec e - tv_usec s"

definition gettimeofday :: "tlb_env \<Rightarrow> vm \<Rightarrow> timeval \<times> vm" where
  "gettimeofday env v = (timeofday env (nclock v), v\<lparr>nclock := Suc (nclock v)\<rparr>)"

definition in_range :: "u64 \<Rightarrow> nat \<Rightarrow> u64 \<Rightarrow> bool" where
  "in_range p len a = (unat p \<le> unat a \<and> unat a < unat p + len)"

definition do_mmap :: "tlb_env \<Rightarrow> tl_globals \<Rightarrow> vm \<Rightarrow> u64 \<times> vm" where
  "do_mmap env g v =
     (let p = mmap_addr env (nmmap v) in
      (p, v\<lparr>mapped := if p = -1 then mapped v else (\<lambda>a. in_range p (buf_size g) a \<or> mapped v a),
            nmmap := Suc (nmmap v), vtrace := vtrace v @ [Mmap p]\<rparr>))"

definition do_munmap :: "tl_globals \<Rightarrow> u64 \<Rightarrow> vm \<Rightarrow> vm" where
  "do_munmap g p v =
     v\<lparr>mapped := \<lambda>a. mapped v a \<and> \<not> in_range p (buf_size g) a, vtrace := vtrace v @ [Munmap p]\<rparr>"

definition store_byte :: "u64 \<Rightarrow> vm \<Rightarrow> vm res" where
  "store_byte a v = (if mapped v a then Inr (v\<lparr>vtrace := vtrace v @ [Fill a]\<rparr>) else Inl Unmapped)"

text \<open>
  \<open>for (index = 0; index < buf_size; index += 4096) *(p+index) = 0\<close>, from \<open>index\<close> on. The size is never
  changed, so the \<open>int\<close> index stays below \<open>2 ^ 28 + 4096\<close> and its comparison with an \<open>unsigned long\<close> is
  one of naturals.
\<close>

function fill_loop :: "tl_globals \<Rightarrow> u64 \<Rightarrow> nat \<Rightarrow> vm \<Rightarrow> vm res" where
  "fill_loop g p index v =
     (if index < buf_size g
      then bindR (store_byte (p + of_nat index) v) (fill_loop g p (index + 4096))
      else Inr v)"
  by pat_completeness auto
termination by (relation "measure (\<lambda>(g, p, index, v). buf_size g - index)") auto

function madvise_loop ::
  "tlb_env \<Rightarrow> tl_globals \<Rightarrow> u64 \<Rightarrow> nat \<Rightarrow> thread_info \<times> vm \<Rightarrow> thread_info \<times> vm" where
  "madvise_loop env g p index (th, v) =
     (if index < buf_size g then
        let ret = madvise_ret env (nclock v) (p + of_nat index);
            v1 = v\<lparr>vtrace := vtrace v @ [Madvise (p + of_nat index)]\<rparr>
        in if ret \<noteq> 0 then (th\<lparr>tret := ret\<rparr>, v1\<lparr>vout := vout v1 @ [(''madvise'', [])]\<rparr>)
           else madvise_loop env g p (index + 4096) (th, v1)
      else (th, v))"
  by pat_completeness auto
termination by (relation "measure (\<lambda>(env, g, p, index, s). buf_size g - index)") auto

declare fill_loop.simps [simp del] madvise_loop.simps [simp del]

text \<open>
  The second half of a round. In the branch of \<open>munmap\<close> the new mapping goes to a variable \<open>p\<close> declared
  in that block, which shadows the one of the function: the address is lost at the end of the block.
\<close>

definition give_back ::
  "tlb_env \<Rightarrow> tl_globals \<Rightarrow> u64 \<Rightarrow> thread_info \<times> vm \<Rightarrow> (thread_info \<times> vm) res" where
  "give_back env g p = (\<lambda>(th, v).
     if use_unmap g \<noteq> 0 then
       if munmap_ret env p \<noteq> 0 then Inl (Exit ''munmap'')
       else let (p', v2) = do_mmap env g (do_munmap g p v) in Inr (th, v2)
     else Inr (madvise_loop env g p 0 (th, v)))"

definition bench_round ::
  "tlb_env \<Rightarrow> tl_globals \<Rightarrow> u64 \<Rightarrow> thread_info \<times> vm \<Rightarrow> (thread_info \<times> vm) res" where
  "bench_round env g p = (\<lambda>(th, v).
     let (s, v1) = gettimeofday env v
     in bindR (fill_loop g p 0 v1) (\<lambda>v2.
     let (e, v3) = gettimeofday env v2;
         th1 = th\<lparr>usec_fill := usec_fill th + time_diff s e\<rparr>;
         (s', v4) = gettimeofday env v3
     in bindR (give_back env g p (th1, v4)) (\<lambda>(th2, v5).
     let (e', v6) = gettimeofday env v5
     in Inr (th2\<lparr>usec_leak := usec_leak th2 + time_diff s' e'\<rparr>, v6))))"

definition CPU_SETSIZE :: int where
  "CPU_SETSIZE = 1024"

definition cpu_set :: "int \<Rightarrow> int list" where   \<comment> \<open>\<open>CPU_ZERO\<close>, then \<open>CPU_SET\<close>, which checks the range\<close>
  "cpu_set cpu = (if 0 \<le> cpu \<and> cpu < CPU_SETSIZE then [cpu] else [])"

definition tlb_routine ::
  "tlb_env \<Rightarrow> tl_globals \<Rightarrow> thread_info \<times> vm \<Rightarrow> (thread_info \<times> vm) res" where
  "tlb_routine env g = (\<lambda>(th, v).
     let v1 = v\<lparr>vout := vout v @ [(''[TID %d]TRACE : %s'', [AInt (gettid env), AStr ''__routine''])]\<rparr>;
         th1 = th\<lparr>tid := gettid env\<rparr>
     in if setaffinity_ret env (cpu_set (core_id th)) \<noteq> 0 then Inl (Exit ''pthread_setaffinity_np'')
        else if getaffinity_ret env \<noteq> 0 then Inl (Exit ''pthread_getaffinity_np'')
        else let (p, v2) = do_mmap env g v1
             in for_range (nat (bench_loops g)) (\<lambda>loop. bench_round env g p) (th1, v2))"

section \<open>The process\<close>

text \<open>
  \<open>atoi\<close> of a string: leading white space, a sign, digits; what follows is ignored. The manual page gives it as
  \<open>strtol\<close>, which stays within \<open>long\<close>, with a cast to \<open>int\<close>.
\<close>

definition is_space :: "char \<Rightarrow> bool" where
  "is_space c = (of_char c = (32::nat) \<or> (9 \<le> (of_char c :: nat) \<and> (of_char c :: nat) \<le> 13))"

definition is_digit :: "char \<Rightarrow> bool" where
  "is_digit c = (48 \<le> (of_char c :: nat) \<and> (of_char c :: nat) \<le> 57)"

fun digits_value :: "int \<Rightarrow> string \<Rightarrow> int" where
  "digits_value acc [] = acc"
| "digits_value acc (c # cs) =
     (if is_digit c then digits_value (10 * acc + (int (of_char c) - 48)) cs else acc)"

definition decimal_value :: "string \<Rightarrow> int" where
  "decimal_value s =
     (case dropWhile is_space s of
        [] \<Rightarrow> 0
      | c # cs \<Rightarrow>
          if c = CHR ''-'' then - digits_value 0 cs
          else if c = CHR ''+'' then digits_value 0 cs
          else digits_value 0 (c # cs))"

definition strtol :: "string \<Rightarrow> int" where
  "strtol s = max (- (2 ^ 63)) (min (2 ^ 63 - 1) (decimal_value s))"

definition atoi :: "string \<Rightarrow> int" where
  "atoi s = to_int32 (strtol s)"

text \<open>
  The option loop of \<open>main\<close>, over what the calls of \<open>getopt\<close> returned: an option character (a question
  mark for an unknown one) and its argument. The number of threads is the second component.
\<close>

definition tl_option :: "tl_globals \<times> int \<Rightarrow> char \<times> string \<Rightarrow> tl_globals \<times> int" where
  "tl_option = (\<lambda>(g, n) (opt, optarg).
     if opt = CHR ''i'' then (g\<lparr>use_interleave := 1\<rparr>, n)
     else if opt = CHR ''l'' then (g\<lparr>bench_loops := atoi optarg\<rparr>, n)
     else if opt = CHR ''n'' then (g, atoi optarg)
     else if opt = CHR ''u'' then (g\<lparr>use_unmap := 1\<rparr>, n)
     else (g, n))"

definition tl_options :: "(char \<times> string) list \<Rightarrow> tl_globals \<times> int" where
  "tl_options opts = foldl tl_option (tl_globals0, 8) opts"

definition thread_core :: "tl_globals \<Rightarrow> int \<Rightarrow> int" where
  "thread_core g tnum = (if use_interleave g \<noteq> 0 then tnum * 2 else tnum)"

definition header_lines :: "tl_globals \<Rightarrow> int \<Rightarrow> log_line list" where
  "header_lines g num_threads =
     (''Test %d threads'', [AInt num_threads]) #
     (if use_unmap g \<noteq> 0 then [(tab @ ''use_unamp flag = %d'', [AInt (use_unmap g)])] else []) @
     (if use_interleave g \<noteq> 0
      then [(tab @ ''use_interleave flag = %d'', [AInt (use_interleave g)])] else [])"

text \<open>
  The creation of the threads: thread \<open>tnum\<close> runs in the environment \<open>envs tnum\<close>. What is printed so far is carried
  along; a thread adds its own lines.
\<close>

definition create_thread ::
  "(int \<Rightarrow> int) \<Rightarrow> (int \<Rightarrow> tlb_env) \<Rightarrow> tl_globals \<Rightarrow> int \<Rightarrow> thread_info list \<times> log_line list \<Rightarrow>
   (thread_info list \<times> log_line list) res" where
  "create_thread create_ret envs g tnum = (\<lambda>(ths, lines).
     if create_ret tnum \<noteq> 0 then Inl (Exit ''pthread_create'')
      else bindR (tlb_routine (envs tnum) g (thread_info0\<lparr>core_id := thread_core g tnum\<rparr>, vm0))
             (\<lambda>(th, v). Inr (ths @ [th], lines @ vout v)))"

text \<open>Joining them, in order: a report line for each and the two sums.\<close>

definition join_thread :: "thread_info \<Rightarrow> u64 \<times> u64 \<times> log_line list \<Rightarrow> u64 \<times> u64 \<times> log_line list" where
  "join_thread th = (\<lambda>(fill, leak, lines).
     (fill + usec_fill th, leak + usec_leak th,
      lines @ [(''Joined with thread %d; tid %d, ret = %d'',
                [AInt (core_id th), AInt (tid th), AInt (tret th)])]))"

definition join_step ::
  "(int \<Rightarrow> int) \<Rightarrow> thread_info list \<Rightarrow> int \<Rightarrow> u64 \<times> u64 \<times> log_line list \<Rightarrow>
   (u64 \<times> u64 \<times> log_line list) res" where
  "join_step join_ret ths tnum acc =
     (if join_ret tnum \<noteq> 0 then Inl (Exit ''pthread_join'')
      else bindR (arr_get ths tnum) (\<lambda>th. Inr (join_thread th acc)))"

definition tlb_main ::
  "(int \<Rightarrow> bool) \<Rightarrow> (int \<Rightarrow> int) \<Rightarrow> (int \<Rightarrow> int) \<Rightarrow> (int \<Rightarrow> tlb_env) \<Rightarrow> (char \<times> string) list \<Rightarrow>
   (int \<times> log_line list) res" where
  "tlb_main calloc_ok create_ret join_ret envs opts =
     (let (g, num_threads) = tl_options opts;
          hd = header_lines g num_threads
      in if \<not> calloc_ok num_threads then Inr (0, hd @ [(''calloc'', [])])
         else bindR (for_range (nat num_threads) (create_thread create_ret envs g) ([], hd)) (\<lambda>(ths, lines0).
              bindR (for_range (nat num_threads) (join_step join_ret ths) (0, 0, lines0))
                (\<lambda>(fill, leak, lines).
                 Inr (0, lines @ [(''fill_elapled %ld usec, leak_elapled %ld usec'',
                                   [ALong fill, ALong leak])]))))"

section \<open>The loops over the pages\<close>

definition npages :: "tl_globals \<Rightarrow> nat" where
  "npages g = (buf_size g + 4095) div 4096"

definition page :: "u64 \<Rightarrow> nat \<Rightarrow> u64" where
  "page p k = p + of_nat (4096 * k)"

definition pages_mapped :: "tl_globals \<Rightarrow> u64 \<Rightarrow> vm \<Rightarrow> bool" where
  "pages_mapped g p v = (\<forall>k < npages g. mapped v (page p k))"

lemma page_lt: "4096 * k < buf_size g \<longleftrightarrow> k < npages g"
  unfolding npages_def by linarith

lemma fill_loop_from:
  "fill_loop g p (4096 * k) v =
     (if \<forall>j \<in> {k..<npages g}. mapped v (page p j)
      then Inr (v\<lparr>vtrace := vtrace v @ map (\<lambda>j. Fill (page p j)) [k..<npages g]\<rparr>)
      else Inl Unmapped)"
proof (induction "npages g - k" arbitrary: k v)
  case 0
  then have "npages g \<le> k" by simp
  moreover from this have "\<not> 4096 * k < buf_size g" by (simp only: page_lt not_less)
  ultimately show ?case by (subst fill_loop.simps) simp
next
  case (Suc n)
  then have k: "k < npages g" by simp
  then have lt: "4096 * k < buf_size g" by (simp only: page_lt)
  have next_k: "4096 * k + 4096 = 4096 * Suc k" by simp
  have upt: "[k..<npages g] = k # [Suc k..<npages g]" by (rule upt_conv_Cons [OF k])
  have split: "{k..<npages g} = insert k {Suc k..<npages g}" using k by auto
  show ?case
  proof (cases "mapped v (page p k)")
    case True
    then have "fill_loop g p (4096 * k) v =
        fill_loop g p (4096 * Suc k) (v\<lparr>vtrace := vtrace v @ [Fill (page p k)]\<rparr>)"
      by (subst fill_loop.simps) (simp only: lt next_k store_byte_def page_def if_True bindR_simps)
    with Suc.hyps(1) [of "Suc k" "v\<lparr>vtrace := vtrace v @ [Fill (page p k)]\<rparr>"] Suc.hyps(2) True
    show ?thesis by (simp add: upt split)
  next
    case False
    then have "fill_loop g p (4096 * k) v = Inl Unmapped"
      by (subst fill_loop.simps) (simp only: lt store_byte_def page_def if_True if_False bindR_simps)
    with False show ?thesis by (simp add: split)
  qed
qed

lemma fill_loop_effect:
  "fill_loop g p 0 v =
     (if pages_mapped g p v
      then Inr (v\<lparr>vtrace := vtrace v @ map (\<lambda>j. Fill (page p j)) [0..<npages g]\<rparr>)
      else Inl Unmapped)"
  using fill_loop_from [of g p 0 v] by (simp add: pages_mapped_def atLeast0LessThan)

lemma madvise_loop_from:
  assumes "\<forall>n a. madvise_ret env n a = 0"
  shows "madvise_loop env g p (4096 * k) (th, v) =
    (th, v\<lparr>vtrace := vtrace v @ map (\<lambda>j. Madvise (page p j)) [k..<npages g]\<rparr>)"
proof (induction "npages g - k" arbitrary: k v)
  case 0
  then have "npages g \<le> k" by simp
  moreover from this have "\<not> 4096 * k < buf_size g" by (simp only: page_lt not_less)
  ultimately show ?case by (subst madvise_loop.simps) simp
next
  case (Suc n)
  then have k: "k < npages g" by simp
  then have lt: "4096 * k < buf_size g" by (simp only: page_lt)
  have next_k: "4096 * k + 4096 = 4096 * Suc k" by simp
  have upt: "[k..<npages g] = k # [Suc k..<npages g]" by (rule upt_conv_Cons [OF k])
  have "madvise_loop env g p (4096 * k) (th, v) =
      madvise_loop env g p (4096 * Suc k) (th, v\<lparr>vtrace := vtrace v @ [Madvise (page p k)]\<rparr>)"
    by (subst madvise_loop.simps) (simp add: lt next_k page_def assms Let_def)
  with Suc.hyps(1) [of "Suc k" "v\<lparr>vtrace := vtrace v @ [Madvise (page p k)]\<rparr>"] Suc.hyps(2)
  show ?case by (simp add: upt)
qed

lemma in_range_page:
  assumes "unat p + buf_size g \<le> 2 ^ 64" and "k < npages g"
  shows "in_range p (buf_size g) (page p k)"
proof -
  have lt: "4096 * k < buf_size g" using assms(2) by (simp only: page_lt)
  have small: "unat (of_nat (4096 * k) :: u64) = 4096 * k"
    using lt assms(1) by (intro unat_of_nat_small) simp
  have "unat (page p k) = unat p + 4096 * k"
    unfolding page_def using lt assms(1) small
    by (subst unat_plus_simple [THEN iffD1]) (simp_all add: no_olen_add_nat del: of_nat_mult)
  with lt show ?thesis by (simp add: in_range_def)
qed

section \<open>The rounds\<close>

text \<open>
  The contract of the second half of a round, whichever way it gives the pages back: while \<open>ok\<close> holds,
  the pages of the buffer are accessible, and giving them back adds the calls \<open>ev\<close> to the trace, reads no
  clock and keeps \<open>ok\<close>. A thread whose second half meets it completes all its rounds.
\<close>

definition fill_time :: "tlb_env \<Rightarrow> nat \<Rightarrow> u64" where
  "fill_time env c = time_diff (timeofday env c) (timeofday env (c + 1))"

definition leak_time :: "tlb_env \<Rightarrow> nat \<Rightarrow> u64" where
  "leak_time env c = time_diff (timeofday env (c + 2)) (timeofday env (c + 3))"

definition fills :: "tl_globals \<Rightarrow> u64 \<Rightarrow> tl_op list" where
  "fills g p = map (\<lambda>k. Fill (page p k)) [0..<npages g]"

locale page_release =
  fixes env :: tlb_env and g :: tl_globals and p :: u64 and ev :: "tl_op list"
    and ok :: "vm \<Rightarrow> bool"
  assumes give: "ok v \<Longrightarrow> \<exists>v'. give_back env g p (th, v) = Inr (th, v') \<and> ok v' \<and>
      vtrace v' = vtrace v @ ev \<and> nclock v' = nclock v"
    and ok_mapped: "ok v \<Longrightarrow> pages_mapped g p v"
    and ok_frame: "ok v \<Longrightarrow> mapped v' = mapped v \<Longrightarrow> nmmap v' = nmmap v \<Longrightarrow> ok v'"
begin

lemma one_round:
  assumes "ok v"
  shows "\<exists>v'. bench_round env g p (th, v) = Inr (th\<lparr>usec_fill := usec_fill th + fill_time env (nclock v),
        usec_leak := usec_leak th + leak_time env (nclock v)\<rparr>, v') \<and> ok v' \<and>
      vtrace v' = vtrace v @ fills g p @ ev \<and> nclock v' = nclock v + 4"
proof -
  let ?v = "v\<lparr>vtrace := vtrace v @ fills g p, nclock := Suc (Suc (Suc (nclock v)))\<rparr>"
  let ?th = "th\<lparr>usec_fill := usec_fill th + fill_time env (nclock v)\<rparr>"
  have "ok ?v" by (rule ok_frame [OF assms]) simp_all
  then obtain v' where "give_back env g p (?th, ?v) = Inr (?th, v')" "ok v'"
    "vtrace v' = vtrace ?v @ ev" "nclock v' = nclock ?v"
    using give by blast
  moreover have "pages_mapped g p (v\<lparr>nclock := Suc (nclock v)\<rparr>)"
    using ok_mapped [OF assms] by (simp add: pages_mapped_def)
  moreover have "ok (v'\<lparr>nclock := n\<rparr>)" for n
    by (rule ok_frame [OF \<open>ok v'\<close>]) simp_all
  ultimately show ?thesis
    by (auto simp: bench_round_def gettimeofday_def fill_loop_effect Let_def fill_time_def leak_time_def
        fills_def numeral_3_eq_3)
qed

lemma all_rounds:
  "ok v \<Longrightarrow> \<exists>v'. foldR (\<lambda>_. bench_round env g p) ks (th, v) = Inr (th
       \<lparr>usec_fill := usec_fill th + (\<Sum>i<length ks. fill_time env (nclock v + 4 * i)),
        usec_leak := usec_leak th + (\<Sum>i<length ks. leak_time env (nclock v + 4 * i))\<rparr>, v') \<and> ok v' \<and>
      vtrace v' = vtrace v @ concat (replicate (length ks) (fills g p @ ev))"
proof (induction ks arbitrary: th v)
  case (Cons k ks)
  let ?th = "th\<lparr>usec_fill := usec_fill th + fill_time env (nclock v),
        usec_leak := usec_leak th + leak_time env (nclock v)\<rparr>"
  obtain v1 where v1: "bench_round env g p (th, v) = Inr (?th, v1)" "ok v1"
    "vtrace v1 = vtrace v @ fills g p @ ev" "nclock v1 = nclock v + 4"
    using one_round [OF Cons.prems] by blast
  from Cons.IH [OF v1(2), of ?th] v1 show ?case
    by (auto simp: sum.lessThan_Suc_shift ac_simps simp del: sum.lessThan_Suc)
qed simp

end


text \<open>Giving the pages back by \<open>madvise\<close>, when every call succeeds.\<close>

definition madvise_ok :: "tlb_env \<Rightarrow> tl_globals \<Rightarrow> u64 \<Rightarrow> vm \<Rightarrow> bool" where
  "madvise_ok env g p v \<longleftrightarrow>
     use_unmap g = 0 \<and> (\<forall>n a. madvise_ret env n a = 0) \<and> pages_mapped g p v"

definition madvises :: "tl_globals \<Rightarrow> u64 \<Rightarrow> tl_op list" where
  "madvises g p = map (\<lambda>k. Madvise (page p k)) [0..<npages g]"

interpretation madv: page_release env g p "madvises g p" "madvise_ok env g p" for env g p
proof unfold_locales
  fix v :: vm and th :: thread_info
  assume ok: "madvise_ok env g p v"
  then have "madvise_loop env g p 0 (th, v) = (th, v\<lparr>vtrace := vtrace v @ madvises g p\<rparr>)"
    using madvise_loop_from [of env g p 0 th v] by (simp add: madvise_ok_def madvises_def)
  with ok show "\<exists>v'. give_back env g p (th, v) = Inr (th, v') \<and> madvise_ok env g p v' \<and>
      vtrace v' = vtrace v @ madvises g p \<and> nclock v' = nclock v"
    by (simp add: give_back_def madvise_ok_def pages_mapped_def)
qed (simp_all add: madvise_ok_def pages_mapped_def)

text \<open>
  Giving them back by \<open>munmap\<close> and \<open>mmap\<close>, when the new mapping is made at the old address.
\<close>

definition remap_ok :: "tlb_env \<Rightarrow> tl_globals \<Rightarrow> u64 \<Rightarrow> vm \<Rightarrow> bool" where
  "remap_ok env g p v \<longleftrightarrow>
     use_unmap g \<noteq> 0 \<and> munmap_ret env p = 0 \<and> p \<noteq> -1 \<and> unat p + buf_size g \<le> 2 ^ 64 \<and>
     (\<forall>n. mmap_addr env n = p) \<and> pages_mapped g p v"

interpretation remap: page_release env g p "[Munmap p, Mmap p]" "remap_ok env g p" for env g p
proof unfold_locales
  fix v :: vm and th :: thread_info
  assume "remap_ok env g p v"
  then show "\<exists>v'. give_back env g p (th, v) = Inr (th, v') \<and> remap_ok env g p v' \<and>
      vtrace v' = vtrace v @ [Munmap p, Mmap p] \<and> nclock v' = nclock v"
    by (auto simp: give_back_def remap_ok_def pages_mapped_def do_mmap_def do_munmap_def Let_def
        in_range_page)
qed (simp_all add: remap_ok_def pages_mapped_def)

section \<open>Properties of a thread\<close>

text \<open>The affinity calls succeed for the core of the thread, and the first mapping is a proper range.\<close>

definition starts_ok :: "tlb_env \<Rightarrow> tl_globals \<Rightarrow> thread_info \<Rightarrow> bool" where
  "starts_ok env g th \<longleftrightarrow>
     setaffinity_ret env (cpu_set (core_id th)) = 0 \<and> getaffinity_ret env = 0 \<and>
     mmap_addr env 0 \<noteq> -1 \<and> unat (mmap_addr env 0) + buf_size g \<le> 2 ^ 64"

definition mapped_vm :: "tlb_env \<Rightarrow> tl_globals \<Rightarrow> vm" where
  "mapped_vm env g =
     \<lparr>mapped = (\<lambda>a. in_range (mmap_addr env 0) (buf_size g) a), nmmap = 1, nclock = 0,
      vtrace = [Mmap (mmap_addr env 0)],
      vout = [(''[TID %d]TRACE : %s'', [AInt (gettid env), AStr ''__routine''])]\<rparr>"

lemma routine_start:
  assumes "starts_ok env g th"
  shows "tlb_routine env g (th, vm0) =
    foldR (\<lambda>_. bench_round env g (mmap_addr env 0)) (map int [0..<nat (bench_loops g)])
      (th\<lparr>tid := gettid env\<rparr>, mapped_vm env g)"
  using assms
  by (simp add: tlb_routine_def starts_ok_def do_mmap_def Let_def vm0_def mapped_vm_def for_range_def)

lemma mapped_vm_pages:
  "starts_ok env g th \<Longrightarrow> pages_mapped g (mmap_addr env 0) (mapped_vm env g)"
  by (simp add: starts_ok_def pages_mapped_def mapped_vm_def in_range_page)

lemma mapped_vm_simps [simp]:
  "nclock (mapped_vm env g) = 0" "nmmap (mapped_vm env g) = 1"
  "vtrace (mapped_vm env g) = [Mmap (mmap_addr env 0)]"
  by (simp_all add: mapped_vm_def)

text \<open>
  C24: a thread in the default mode whose system calls succeed completes: it maps the buffer once, and each
  loop stores to every page of it once and then advises every page once, in address order; the two times
  it reports are the sums over the loops of the differences of the clock readings around each half.
\<close>

theorem tlb_madvise_thread:
  assumes "starts_ok env g th" and "use_unmap g = 0" and "\<forall>n a. madvise_ret env n a = 0"
  defines "p \<equiv> mmap_addr env 0" and "n \<equiv> nat (bench_loops g)"
  shows "\<exists>v. tlb_routine env g (th, vm0) = Inr (th
      \<lparr>tid := gettid env,
       usec_fill := usec_fill th + (\<Sum>i<n. fill_time env (4 * i)),
       usec_leak := usec_leak th + (\<Sum>i<n. leak_time env (4 * i))\<rparr>, v) \<and>
    vtrace v = Mmap p # concat (replicate n (fills g p @ madvises g p))"
proof -
  have "madvise_ok env g p (mapped_vm env g)"
    using assms mapped_vm_pages [OF assms(1)] by (simp add: madvise_ok_def)
  from madv.all_rounds [OF this, of "map int [0..<n]" "th\<lparr>tid := gettid env\<rparr>"]
  show ?thesis by (auto simp: routine_start [OF assms(1)] p_def n_def)
qed

definition ex_tlb :: tlb_env where
  "ex_tlb = \<lparr>mmap_addr = (\<lambda>n. 0x7f0000000000), munmap_ret = (\<lambda>a. 0), madvise_ret = (\<lambda>n a. 0),
     timeofday = (\<lambda>n. \<lparr>tv_sec = 100, tv_usec = of_nat n * 10\<rparr>),
     setaffinity_ret = (\<lambda>s. 0), getaffinity_ret = 0, gettid = 4242\<rparr>"

definition ex_g :: tl_globals where
  "ex_g = tl_globals0\<lparr>buf_size := 8192, bench_loops := 2\<rparr>"

lemma ex_pages: "npages ex_g = 2"
  by (simp add: npages_def ex_g_def)

lemma ex_starts: "starts_ok ex_tlb ex_g thread_info0"
  by (simp add: starts_ok_def ex_tlb_def ex_g_def)

theorem tlb_madvise_thread_witness:
  "\<exists>th v. tlb_routine ex_tlb ex_g (thread_info0, vm0) = Inr (th, v) \<and> usec_fill th = 20 \<and>
     vtrace v = [Mmap 0x7f0000000000,
       Fill 0x7f0000000000, Fill 0x7f0000001000, Madvise 0x7f0000000000, Madvise 0x7f0000001000,
       Fill 0x7f0000000000, Fill 0x7f0000001000, Madvise 0x7f0000000000, Madvise 0x7f0000001000]"
proof -
  have "use_unmap ex_g = 0" "\<forall>n a. madvise_ret ex_tlb n a = 0"
    by (simp_all add: ex_g_def tl_globals0_def ex_tlb_def)
  from tlb_madvise_thread [OF ex_starts this] show ?thesis
  proof (elim exE conjE, intro exI conjI)
    fix v :: vm
    assume tr: "vtrace v = Mmap (mmap_addr ex_tlb 0) # concat (replicate (nat (bench_loops ex_g))
      (fills ex_g (mmap_addr ex_tlb 0) @ madvises ex_g (mmap_addr ex_tlb 0)))"
    then show "vtrace v = [Mmap 0x7f0000000000,
       Fill 0x7f0000000000, Fill 0x7f0000001000, Madvise 0x7f0000000000, Madvise 0x7f0000001000,
       Fill 0x7f0000000000, Fill 0x7f0000001000, Madvise 0x7f0000000000, Madvise 0x7f0000001000]"
      by (simp add: fills_def madvises_def ex_pages page_def upt_rec)
         (simp add: ex_g_def ex_tlb_def numeral_2_eq_2)
  qed (assumption, simp add: ex_g_def ex_tlb_def numeral_2_eq_2 fill_time_def time_diff_def thread_info0_def)
qed

text \<open>
  with \<open>-u\<close>, provided that every \<open>mmap\<close> returns the address that was just unmapped, each loop stores to
  every page once, unmaps the buffer and maps it again, and the thread completes.
\<close>

theorem tlb_munmap_thread:
  assumes "starts_ok env g th" and "use_unmap g \<noteq> 0" and "munmap_ret env (mmap_addr env 0) = 0"
    and "\<forall>n. mmap_addr env n = mmap_addr env 0"
  defines "p \<equiv> mmap_addr env 0" and "n \<equiv> nat (bench_loops g)"
  shows "\<exists>th' v. tlb_routine env g (th, vm0) = Inr (th', v) \<and>
    vtrace v = Mmap p # concat (replicate n (fills g p @ [Munmap p, Mmap p]))"
proof -
  have "remap_ok env g p (mapped_vm env g)"
    using assms mapped_vm_pages [OF assms(1)] by (simp add: remap_ok_def starts_ok_def)
  from remap.all_rounds [OF this, of "map int [0..<n]" "th\<lparr>tid := gettid env\<rparr>"]
  show ?thesis by (auto simp: routine_start [OF assms(1)] p_def n_def)
qed

theorem tlb_munmap_thread_witness:
  "\<exists>th v. tlb_routine ex_tlb (ex_g\<lparr>use_unmap := 1\<rparr>) (thread_info0, vm0) = Inr (th, v) \<and>
     vtrace v = Mmap 0x7f0000000000 # concat (replicate 2
       (fills ex_g 0x7f0000000000 @ [Munmap 0x7f0000000000, Mmap 0x7f0000000000]))"
proof -
  have "starts_ok ex_tlb (ex_g\<lparr>use_unmap := 1\<rparr>) thread_info0"
    using ex_starts by (simp add: starts_ok_def)
  from tlb_munmap_thread [OF this] show ?thesis
    by (simp add: ex_tlb_def ex_g_def fills_def npages_def)
qed

text \<open>
  C25: with \<open>-u\<close> and two loops or more, a thread crashes as soon as the second \<open>mmap\<close> returns another
  place, or fails: the pointer it returns is assigned to a shadowing local, so the next loop stores through
  the unmapped old address.
\<close>

theorem tlb_munmap_shadowed:
  assumes "starts_ok env g th" and "use_unmap g \<noteq> 0" and "munmap_ret env (mmap_addr env 0) = 0"
    and "2 \<le> bench_loops g" and "0 < buf_size g"
    and "mmap_addr env 1 = -1 \<or> \<not> in_range (mmap_addr env 1) (buf_size g) (mmap_addr env 0)"
  shows "tlb_routine env g (th, vm0) = Inl Unmapped"
proof -
  let ?p = "mmap_addr env 0"
  have pages: "pages_mapped g ?p ((mapped_vm env g)\<lparr>nclock := Suc 0\<rparr>)"
    using mapped_vm_pages [OF assms(1)] by (simp add: pages_mapped_def)
  have np: "0 < npages g" using page_lt [of 0 g] assms(5) by simp
  have round1: "\<exists>th' v. bench_round env g ?p (th0, mapped_vm env g) = Inr (th', v) \<and> \<not> mapped v ?p" for th0
    using assms(2,3,5,6) pages
    by (auto simp: bench_round_def gettimeofday_def fill_loop_effect give_back_def do_mmap_def do_munmap_def
        Let_def in_range_def)
  have round2: "bench_round env g ?p (th0, v) = Inl Unmapped" if "\<not> mapped v ?p" for th0 v
  proof -
    have "\<not> pages_mapped g ?p (v\<lparr>nclock := Suc (nclock v)\<rparr>)"
      using that np by (auto simp: pages_mapped_def page_def intro!: exI [of _ 0])
    then show ?thesis by (simp add: bench_round_def gettimeofday_def fill_loop_effect)
  qed
  have "2 \<le> nat (bench_loops g)" using assms(4) by simp
  then obtain k where "nat (bench_loops g) = Suc (Suc k)" by (auto simp: le_iff_add)
  then have upt: "map int [0..<nat (bench_loops g)] = 0 # 1 # map int [2..<Suc (Suc k)]"
    by (simp add: upt_conv_Cons numeral_2_eq_2 del: upt_Suc)
  obtain th' v where "bench_round env g ?p (th\<lparr>tid := gettid env\<rparr>, mapped_vm env g) = Inr (th', v)"
    "\<not> mapped v ?p"
    using round1 by blast
  then show ?thesis
    by (simp add: routine_start [OF assms(1)] upt round2 del: upt_Suc)
qed

theorem tlb_munmap_shadowed_witness:
  "tlb_routine (ex_tlb\<lparr>mmap_addr := \<lambda>n. 0x7f0000000000 - of_nat n * 0x10000\<rparr>)
     (ex_g\<lparr>use_unmap := 1\<rparr>) (thread_info0, vm0) = Inl Unmapped"
  by (rule tlb_munmap_shadowed) (simp_all add: starts_ok_def ex_tlb_def ex_g_def in_range_def)

text \<open>
  the reported interval is exact: for two normalised times less than \<open>2 ^ 31\<close> seconds the 64-bit
  difference, read signed, is the difference of the times in microseconds, whichever comes first.
\<close>

theorem time_diff_exact:
  assumes "unat (tv_sec s) < 2 ^ 31" and "unat (tv_sec e) < 2 ^ 31"
    and "unat (tv_usec s) < 1000000" and "unat (tv_usec e) < 1000000"
  shows "sint (time_diff s e) =
    (int (unat (tv_sec e)) * 1000000 + int (unat (tv_usec e))) -
    (int (unat (tv_sec s)) * 1000000 + int (unat (tv_usec s)))"
proof -
  define a where "a = unat (tv_sec s) * 1000000 + unat (tv_usec s)"
  define b where "b = unat (tv_sec e) * 1000000 + unat (tv_usec e)"
  have "a < 2 ^ 62" "b < 2 ^ 62" using assms by (simp_all add: a_def b_def)
  moreover have "time_diff s e = of_nat b - of_nat a"
    by (simp add: time_diff_def a_def b_def algebra_simps)
  ultimately have "sint (time_diff s e) = int b - int a"
    by (simp only: sint_diff_of_nat)
  then show ?thesis by (simp add: a_def b_def)
qed

theorem time_diff_exact_witness:
  "sint (time_diff \<lparr>tv_sec = 9, tv_usec = 999999\<rparr> \<lparr>tv_sec = 11, tv_usec = 1\<rparr>) = 1000002"
  using time_diff_exact [of "\<lparr>tv_sec = 9, tv_usec = 999999\<rparr>" "\<lparr>tv_sec = 11, tv_usec = 1\<rparr>"] by simp

section \<open>Properties of the process\<close>

lemma tl_options_snoc: "tl_options (opts @ [o']) = tl_option (tl_options opts) o'"
  by (simp add: tl_options_def)

definition last_arg :: "char \<Rightarrow> (char \<times> string) list \<Rightarrow> string option" where
  "last_arg c opts = map_of (rev opts) c"

lemma last_arg_simps [simp]:
  "last_arg c [] = None"
  "last_arg c (opts @ [(d, a)]) = (if c = d then Some a else last_arg c opts)"
  by (simp_all add: last_arg_def)

text \<open>
  what the command line means: a flag is set when its letter occurs, a number is that of the last
  occurrence of its letter and has its default (one loop, 8 threads) otherwise, unknown options are
  ignored, and the buffer keeps the size it starts with, 256 megabytes, that is 65536 pages.
\<close>

theorem tl_options_spec:
  "fst (tl_options opts) =
     \<lparr>buf_size = 65536 * 4096,
      bench_loops = (case last_arg (CHR ''l'') opts of None \<Rightarrow> 1 | Some a \<Rightarrow> atoi a),
      use_unmap = (if last_arg (CHR ''u'') opts = None then 0 else 1),
      use_interleave = (if last_arg (CHR ''i'') opts = None then 0 else 1)\<rparr> \<and>
   snd (tl_options opts) = (case last_arg (CHR ''n'') opts of None \<Rightarrow> 8 | Some a \<Rightarrow> atoi a)"
proof (induction opts rule: rev_induct)
  case Nil
  then show ?case by (simp add: tl_options_def tl_globals0_def)
next
  case (snoc op opts)
  obtain c a where op: "op = (c, a)" by (cases op)
  obtain g n where gn: "tl_options opts = (g, n)" by (cases "tl_options opts")
  consider "c = CHR ''i''" | "c = CHR ''l''" | "c = CHR ''n''" | "c = CHR ''u''"
    | "c \<noteq> CHR ''i''" "c \<noteq> CHR ''l''" "c \<noteq> CHR ''n''" "c \<noteq> CHR ''u''" by blast
  then show ?case
    by cases (use snoc in \<open>simp_all add: op gn tl_options_snoc tl_option_def\<close>)
qed

lemma digits_value_digits:
  "\<forall>d \<in> set ds. d < 10 \<Longrightarrow>
   digits_value acc (map digit_char ds) = foldl (\<lambda>a d. 10 * a + int d) acc ds"
proof (induction ds arbitrary: acc)
  case (Cons d ds)
  then have "d < 10" by simp
  have "(of_char (digit_char d) :: int) = int (of_char (digit_char d))"
    by (rule of_nat_of_char [symmetric])
  also have "\<dots> = 48 + int d"
    by (simp only: of_char_digit [OF \<open>d < 10\<close>] of_nat_add of_nat_numeral)
  finally have "(of_char (digit_char d) :: int) = 48 + int d" .
  with Cons show ?case by (simp add: is_digit_def of_char_digit)
qed simp

lemma decimal_value_aux:
  assumes "\<forall>c \<in> set ws. is_space c" and "\<forall>d \<in> set ds. d < 10" and "ds \<noteq> []"
  shows "decimal_value (ws @ map digit_char ds) = foldl (\<lambda>a d. 10 * a + int d) 0 ds \<and>
    decimal_value (ws @ CHR ''-'' # map digit_char ds) = - foldl (\<lambda>a d. 10 * a + int d) 0 ds"
proof -
  obtain d ds' where ds: "ds = d # ds'" using assms(3) by (cases ds) auto
  have d: "d < 10" using assms(2) ds by simp
  have "(of_char (digit_char d) :: nat) = 48 + d" by (rule of_char_digit [OF d])
  then have sp: "\<not> is_space (digit_char d)" "digit_char d \<noteq> CHR ''-''" "digit_char d \<noteq> CHR ''+''"
    using d by (auto simp: is_space_def)
  have drop: "dropWhile is_space (ws @ xs) = dropWhile is_space xs" for xs
    using assms(1) by simp
  have "decimal_value (ws @ map digit_char ds) = digits_value 0 (map digit_char ds)"
    using sp by (simp add: decimal_value_def drop ds)
  moreover have "decimal_value (ws @ CHR ''-'' # map digit_char ds) = - digits_value 0 (map digit_char ds)"
    by (simp add: decimal_value_def drop is_space_def)
  ultimately show ?thesis by (simp add: digits_value_digits [OF assms(2)])
qed

lemma atoi_small: "- (2 ^ 31) \<le> decimal_value s \<Longrightarrow> decimal_value s < 2 ^ 31 \<Longrightarrow> atoi s = decimal_value s"
  by (simp add: atoi_def strtol_def to_int32_small)

text \<open>
  \<open>atoi\<close> reads decimal numbers: after any white space, the digits of a number, with or without a
  minus sign, give its value, when an \<open>int\<close> can hold it.
\<close>

theorem atoi_decimal:
  assumes "\<forall>c \<in> set ws. is_space c" and "\<forall>d \<in> set ds. d < 10" and "ds \<noteq> []"
    and "foldl (\<lambda>a d. 10 * a + int d) 0 ds < 2 ^ 31" and "0 \<le> foldl (\<lambda>a d. 10 * a + int d) 0 ds"
  shows "atoi (ws @ map digit_char ds) = foldl (\<lambda>a d. 10 * a + int d) 0 ds \<and>
    atoi (ws @ CHR ''-'' # map digit_char ds) = - foldl (\<lambda>a d. 10 * a + int d) 0 ds"
  using decimal_value_aux [OF assms(1-3)] assms(4,5) by (simp add: atoi_small)

theorem atoi_decimal_witness: "atoi '' 16'' = 16 \<and> atoi '' -16'' = -16"
proof -
  have "is_space (CHR '' '')" by (simp add: is_space_def)
  moreover have "map digit_char [1, 6] = ''16''" by code_simp
  ultimately show ?thesis using atoi_decimal [of "'' ''" "[1, 6]"] by simp
qed

lemma decimal_value_dec: "decimal_value (dec i) = i"
proof -
  have conv: "foldl (\<lambda>a d. 10 * a + int d) (int acc) ds = int (foldl (\<lambda>a d. 10 * a + d) acc ds)" for acc ds
  proof (induction ds arbitrary: acc)
    case (Cons d ds)
    have "10 * int acc + int d = int (10 * acc + d)" by simp
    with Cons show ?case by (simp only: foldl.simps)
  qed simp
  have foldl_val: "foldl (\<lambda>a d. 10 * a + int d) 0 (digits n) = int n" for n
    using conv [of 0 "digits n"] by (simp add: digits_foldl)
  have "decimal_value (map digit_char (digits n)) = int n"
    "decimal_value (CHR ''-'' # map digit_char (digits n)) = - int n" for n
    using decimal_value_aux [of "[]" "digits n"] by (simp_all add: foldl_val digits_bound)
  then show ?thesis by (simp add: dec_def)
qed

lemma atoi_dec: "- (2 ^ 31) \<le> i \<Longrightarrow> i < 2 ^ 31 \<Longrightarrow> atoi (dec i) = i"
  by (simp add: atoi_small decimal_value_dec)

text \<open>A number in the range of \<open>int\<close>, written in decimal and passed to its option, is read back.\<close>

lemma options_roundtrip:
  assumes "- (2 ^ 31) \<le> i" and "i < 2 ^ 31"
  shows "tl_options (opts @ [(CHR ''n'', dec i)]) = (fst (tl_options opts), i) \<and>
   tl_options (opts @ [(CHR ''l'', dec i)]) =
     ((fst (tl_options opts))\<lparr>bench_loops := i\<rparr>, snd (tl_options opts))"
  by (simp add: tl_options_def tl_option_def atoi_dec [OF assms] split_beta)

lemma join_threads:
  "n \<le> length ths \<Longrightarrow> \<forall>i < n. join_ret (int i) = 0 \<Longrightarrow>
   for_range n (join_step join_ret ths) (f, l, lines) = Inr
     (f + (\<Sum>i<n. usec_fill (ths ! i)), l + (\<Sum>i<n. usec_leak (ths ! i)),
      lines @ map (\<lambda>i. (''Joined with thread %d; tid %d, ret = %d'',
                [AInt (core_id (ths ! i)), AInt (tid (ths ! i)), AInt (tret (ths ! i))])) [0..<n])"
  by (induction n) (simp_all add: for_range_Suc join_step_def join_thread_def ac_simps)

lemma create_threads:
  assumes "\<forall>i < n. create_ret (int i) = 0"
    and "\<forall>i < n. tlb_routine (envs (int i)) g
        (thread_info0\<lparr>core_id := thread_core g (int i)\<rparr>, vm0) = Inr (th i, v i)"
  shows "for_range n (create_thread create_ret envs g) ([], lines) =
    Inr (map th [0..<n], lines @ concat (map (\<lambda>i. vout (v i)) [0..<n]))"
  using assms by (induction n) (simp_all add: for_range_Suc create_thread_def)

text \<open>
  C26: when every thread is created and completes, the program returns 0; thread \<open>i\<close> was given core \<open>i\<close>, or
  core \<open>2 i\<close> with \<open>-i\<close>, no core twice; and it prints what the threads print, here one after the other, then one
  line per thread, in order, then the sums of the times of all threads.
\<close>

theorem tlb_main_completes:
  fixes th :: "nat \<Rightarrow> thread_info"
  assumes "tl_options opts = (g, int n)" and "calloc_ok (int n)"
    and "\<forall>i < n. create_ret (int i) = 0 \<and> join_ret (int i) = 0"
    and "\<forall>i < n. tlb_routine (envs (int i)) g
        (thread_info0\<lparr>core_id := thread_core g (int i)\<rparr>, vm0) = Inr (th i, v i)"
  shows "tlb_main calloc_ok create_ret join_ret envs opts = Inr (0,
      header_lines g (int n) @ concat (map (\<lambda>i. vout (v i)) [0..<n]) @
      map (\<lambda>i. (''Joined with thread %d; tid %d, ret = %d'',
                [AInt (core_id (th i)), AInt (tid (th i)), AInt (tret (th i))])) [0..<n] @
      [(''fill_elapled %ld usec, leak_elapled %ld usec'',
        [ALong (\<Sum>i<n. usec_fill (th i)), ALong (\<Sum>i<n. usec_leak (th i))])]) \<and>
    inj_on (\<lambda>i. thread_core g (int i)) {..<n}"
proof -
  let ?lines = "header_lines g (int n) @ concat (map (\<lambda>i. vout (v i)) [0..<n])"
  have "inj_on (\<lambda>i. thread_core g (int i)) {..<n}"
    by (auto simp: inj_on_def thread_core_def)
  moreover have "for_range n (create_thread create_ret envs g) ([], header_lines g (int n)) =
      Inr (map th [0..<n], ?lines)"
    by (rule create_threads) (use assms(3,4) in auto)
  moreover have "for_range n (join_step join_ret (map th [0..<n])) (0, 0, ?lines) = Inr
     (\<Sum>i<n. usec_fill (th i), \<Sum>i<n. usec_leak (th i), ?lines @
      map (\<lambda>i. (''Joined with thread %d; tid %d, ret = %d'',
                [AInt (core_id (th i)), AInt (tid (th i)), AInt (tret (th i))])) [0..<n])"
    using assms(3) by (subst join_threads) auto
  ultimately show ?thesis
    by (simp add: tlb_main_def assms(1,2))
qed

text \<open>
  a thread that fails takes the process with it: when the first \<open>n\<close> threads complete and thread \<open>n\<close>
  cannot be created, or stores to an unmapped page, the program prints no result.
\<close>

theorem tlb_main_fails:
  fixes th :: "nat \<Rightarrow> thread_info"
  assumes "tl_options opts = (g, num)" and "calloc_ok num" and "int n < num"
    and "\<forall>i < n. create_ret (int i) = 0"
    and "\<forall>i < n. tlb_routine (envs (int i)) g
        (thread_info0\<lparr>core_id := thread_core g (int i)\<rparr>, vm0) = Inr (th i, v i)"
    and "\<And>lines. create_thread create_ret envs g (int n) (map th [0..<n], lines) = Inl e"
  shows "tlb_main calloc_ok create_ret join_ret envs opts = Inl e"
proof -
  have "for_range (Suc (n + k)) (create_thread create_ret envs g) ([], lines) = Inl e" for k lines
  proof (induction k)
    case 0
    then show ?case
      by (simp add: for_range_Suc create_threads [OF assms(4,5)] assms(6))
  next
    case (Suc k)
    then show ?case by (subst add_Suc_right, subst for_range_Suc) simp
  qed
  moreover obtain k where "nat num = Suc (n + k)"
    using assms(3) by (metis less_iff_Suc_add zless_nat_eq_int_zless)
  ultimately show ?thesis
    by (simp add: tlb_main_def assms(1,2))
qed

text \<open>Two threads on a buffer of two pages, one loop each; and one whose second mapping fails.\<close>

definition ex_th :: "nat \<Rightarrow> thread_info" where
  "ex_th i = \<lparr>core_id = int i, tid = 4242, usec_fill = 10, usec_leak = 10, tret = 0\<rparr>"

definition ex_opts :: "(char \<times> string) list" where
  "ex_opts = [(CHR ''n'', ''1''), (CHR ''n'', ''2'')]"

lemma ex_opts: "tl_options ex_opts = (tl_globals0, 2)"
  by (simp add: tl_options_def ex_opts_def tl_option_def) code_simp

lemma ex_routine:
  "\<exists>v. tlb_routine ex_tlb tl_globals0 (thread_info0\<lparr>core_id := thread_core tl_globals0 (int i)\<rparr>, vm0)
     = Inr (ex_th i, v)"
proof -
  have "madvise_ok ex_tlb tl_globals0 (mmap_addr ex_tlb 0) (mapped_vm ex_tlb tl_globals0)"
    using mapped_vm_pages [of ex_tlb tl_globals0 thread_info0]
    by (simp add: madvise_ok_def starts_ok_def ex_tlb_def tl_globals0_def)
  from madv.all_rounds [OF this, of "[0]" "(ex_th i)\<lparr>usec_fill := 0, usec_leak := 0\<rparr>"]
  obtain v where v: "foldR (\<lambda>_. bench_round ex_tlb tl_globals0 (mmap_addr ex_tlb 0)) [0::int]
      ((ex_th i)\<lparr>usec_fill := 0, usec_leak := 0\<rparr>, mapped_vm ex_tlb tl_globals0) = Inr (ex_th i, v)"
    by (auto simp: fill_time_def leak_time_def time_diff_def ex_tlb_def ex_th_def)
  have "starts_ok ex_tlb tl_globals0 (thread_info0\<lparr>core_id := thread_core tl_globals0 (int i)\<rparr>)"
    by (simp add: starts_ok_def ex_tlb_def tl_globals0_def)
  from routine_start [OF this] v show ?thesis
    by (auto simp: thread_info0_def thread_core_def ex_th_def tl_globals0_def ex_tlb_def)
qed

lemma ex_routines: "\<exists>v. \<forall>i. tlb_routine ex_tlb tl_globals0
    (thread_info0\<lparr>core_id := thread_core tl_globals0 (int i)\<rparr>, vm0) = Inr (ex_th i, v i)"
  using ex_routine by (rule choice_iff [THEN iffD1, OF allI])

theorem tlb_main_completes_witness:
  "\<exists>out. tlb_main (\<lambda>n. True) (\<lambda>i. 0) (\<lambda>i. 0) (\<lambda>i. ex_tlb) ex_opts = Inr (0,
      header_lines tl_globals0 2 @ out @
      map (\<lambda>i. (''Joined with thread %d; tid %d, ret = %d'', [AInt (int i), AInt 4242, AInt 0])) [0, 1] @
      [(''fill_elapled %ld usec, leak_elapled %ld usec'', [ALong 20, ALong 20])])"
proof -
  have "tl_options ex_opts = (tl_globals0, int 2)" by (simp add: ex_opts)
  moreover obtain v where "\<forall>i. tlb_routine ex_tlb tl_globals0
      (thread_info0\<lparr>core_id := thread_core tl_globals0 (int i)\<rparr>, vm0) = Inr (ex_th i, v i)"
    using ex_routines by blast
  ultimately show ?thesis
    using tlb_main_completes [of ex_opts tl_globals0 2 "\<lambda>n. True" "\<lambda>i. 0" "\<lambda>i. 0" "\<lambda>i. ex_tlb" ex_th v]
    by (intro exI [of _ "concat (map (\<lambda>i. vout (v i)) [0..<2])"]) (simp add: ex_th_def upt_rec numeral_2_eq_2)
qed

theorem tlb_main_fails_witness:
  "tlb_main (\<lambda>n. True) (\<lambda>i. if i = 1 then 11 else 0) (\<lambda>i. 0) (\<lambda>i. ex_tlb) ex_opts = Inl (Exit ''pthread_create'')"
proof -
  obtain v where v: "\<forall>i. tlb_routine ex_tlb tl_globals0
      (thread_info0\<lparr>core_id := thread_core tl_globals0 (int i)\<rparr>, vm0) = Inr (ex_th i, v i)"
    using ex_routines by blast
  from v [rule_format, of 0] show ?thesis
    by (intro tlb_main_fails [of _ tl_globals0 2 _ 1 _ _ ex_th v]) (simp_all add: ex_opts create_thread_def)
qed

end
