(* ===== verification/Ipi_Params.thy ===== *)
theory Ipi_Params
  imports Kvm_Prelude
begin

text \<open>
  \<open>microbenchmark/ipi-bench/ipi_bench.c\<close>, first part: the module's variables and parameters, the list of
  options, and \<open>ipi_bench_init_params\<close>, which draws the CPUs that were not given. The values of
  \<open>get_random_long\<close> are the parameter \<open>rnd\<close>, by the number of the draw.
\<close>

section \<open>The variables of the module\<close>

record ipi_state =
  loops :: int
  srccpu :: int
  dstcpu :: int
  pairs :: int
  acrossnuma :: int
  broadcasts :: int
  wait :: int
  lock :: int
  options :: int
  timeoutms :: u64
  ready_to_run :: u64
  should_run :: u64
  complete_run :: u64
  draws :: nat               \<comment> \<open>calls of \<open>get_random_long\<close> so far\<close>
  ilog :: "log_line list"

definition ipi_static :: ipi_state where
  "ipi_static =
     \<lparr>loops = 1000000, srccpu = -1, dstcpu = -1, pairs = -1, acrossnuma = 1, broadcasts = -1,
      wait = 1, lock = 1, options = 0, timeoutms = 10000,
      ready_to_run = 0, should_run = 0, complete_run = 0, draws = 0, ilog = []\<rparr>"

definition isay :: "string \<Rightarrow> parg list \<Rightarrow> ipi_state \<Rightarrow> ipi_state" where
  "isay f args s = s\<lparr>ilog := ilog s @ [(f, args)]\<rparr>"

definition SELF_IPI :: int where "SELF_IPI = push_bit 0 1"
definition SINGLE_IPI :: int where "SINGLE_IPI = push_bit 1 1"
definition MESH_IPI :: int where "MESH_IPI = push_bit 2 1"
definition ALL_IPI :: int where "ALL_IPI = push_bit 3 1"

definition benchcases :: "string list" where
  "benchcases =
    [''self-ipi: send ipi to self, you can specify CPU by param srccpu=XX(default current CPU).'',
     ''single-ipi: send ipi from srccpu=XX to dstcpu=YY(default different random XX and YY), '' @
     ''wait=0/1 to specify wait or not.'',
     ''mesh-ipi: send single ipi from one CPU to another CPU for all the CPUs, use pairs=XX to set '' @
     ''number of benchmark pairs(default num_cpus / 2); use acrossnuma=0/1 to set IPI across '' @
     ''NUMA(default = 1).'',
     ''all-ipi: send ipi from one CPU to all the CPUs, use lock=0/1 to specify spin lock option in '' @
     ''callback function; wait=0/1 to specify wait or not; use broadcasts=XX to set '' @
     ''workers(default 1).'']"

definition ipi_bench_options :: "ipi_state \<Rightarrow> ipi_state" where
  "ipi_bench_options s =
     foldl (\<lambda>s i. isay (''ipi_bench:'' @ tab @ ''bit[%d] %s'') [AInt (int i), AStr (benchcases ! i)] s)
       (isay ''ipi_bench: you should run insmod ipi_bench.ko options=XX, bit flags:'' [] s)
       [0..<length benchcases]"

section \<open>Drawing CPUs\<close>

text \<open>\<open>__random() % num_cpus\<close>, assigned to an \<open>int\<close>.\<close>

definition random_cpu :: "(nat \<Rightarrow> u64) \<Rightarrow> int \<Rightarrow> nat \<Rightarrow> int" where
  "random_cpu rnd num_cpus k = int_of_ulong (rnd k mod ulong_of_int num_cpus)"

text \<open>
  The loops \<open>while ((cpu == -1) || (cpu == other)) cpu = __random() % num_cpus\<close>. They need not end,
  so the function is partial; \<open>None\<close> is a loop that runs for ever.
\<close>

partial_function (option) redraw ::
  "(nat \<Rightarrow> u64) \<Rightarrow> int \<Rightarrow> int \<Rightarrow> int \<Rightarrow> nat \<Rightarrow> (int \<times> nat) option" where
  [code]: "redraw rnd num_cpus other cpu k =
     (if cpu = -1 \<or> cpu = other
      then redraw rnd num_cpus other (random_cpu rnd num_cpus k) (Suc k)
      else Some (cpu, k))"

definition draw_srccpu :: "(nat \<Rightarrow> u64) \<Rightarrow> int \<Rightarrow> ipi_state \<Rightarrow> ipi_state option" where
  "draw_srccpu rnd num_cpus s =
     map_option (\<lambda>(cpu, k). s\<lparr>srccpu := cpu, draws := k\<rparr>)
       (redraw rnd num_cpus (dstcpu s) (srccpu s) (draws s))"

definition draw_dstcpu :: "(nat \<Rightarrow> u64) \<Rightarrow> int \<Rightarrow> ipi_state \<Rightarrow> ipi_state option" where
  "draw_dstcpu rnd num_cpus s =
     map_option (\<lambda>(cpu, k). s\<lparr>dstcpu := cpu, draws := k\<rparr>)
       (redraw rnd num_cpus (srccpu s) (dstcpu s) (draws s))"

text \<open>C's division of \<open>num_cpus / 2\<close>; the number of online CPUs is not negative.\<close>

definition ipi_bench_init_params ::
  "(nat \<Rightarrow> u64) \<Rightarrow> int \<Rightarrow> ipi_state \<Rightarrow> (int \<times> ipi_state) option" where
  "ipi_bench_init_params rnd num_cpus s =
     (if num_cpus < 2 then
        Some (-1, isay ''ipi_bench: total cpu num %d, no need to test'' [AInt num_cpus] s)
      else if num_cpus \<le> srccpu s \<or> num_cpus \<le> dstcpu s then
        Some (-1, isay ''ipi_bench: cpu out of range, total cpu num %d'' [AInt num_cpus] s)
      else if num_cpus div 2 < pairs s then
        Some (-1, isay ''ipi_bench: pairs out of range, total cpu num %d'' [AInt num_cpus] s)
      else
        Option.bind (draw_srccpu rnd num_cpus s) (\<lambda>s1.
        Option.bind (draw_dstcpu rnd num_cpus s1) (\<lambda>s2.
        let s3 = (if pairs s2 = -1 then s2\<lparr>pairs := num_cpus div 2\<rparr> else s2);
            s4 = (if broadcasts s3 = -1 then s3\<lparr>broadcasts := 1\<rparr> else s3)
        in Some (0, s4))))"

section \<open>Facts on the draws\<close>

lemma random_cpu_range:
  assumes "2 \<le> n" and "n < 2 ^ 31"
  shows "0 \<le> random_cpu rnd n k" and "random_cpu rnd n k < n"
  using assms int_of_ulong_mod [of n "rnd k"] by (simp_all add: random_cpu_def)

lemma redraw_stop: "cpu \<noteq> -1 \<Longrightarrow> cpu \<noteq> other \<Longrightarrow> redraw rnd n other cpu k = Some (cpu, k)"
  by (subst redraw.simps) simp

lemma redraw_again:
  "cpu = -1 \<or> cpu = other \<Longrightarrow> redraw rnd n other cpu k = redraw rnd n other (random_cpu rnd n k) (Suc k)"
  by (subst redraw.simps) simp

text \<open>A loop that does not end at once ends at the first draw that differs from the other CPU.\<close>

lemma redraw_first:
  assumes "2 \<le> n" and "n < 2 ^ 31" and "cpu = -1 \<or> cpu = other"
    and "\<forall>i < j. random_cpu rnd n (k + i) = other" and "random_cpu rnd n (k + j) \<noteq> other"
  shows "redraw rnd n other cpu k = Some (random_cpu rnd n (k + j), k + Suc j)"
  using assms(3-5)
proof (induction j arbitrary: cpu k)
  case 0
  then show ?case
    using random_cpu_range(1) [OF assms(1,2), of rnd k] by (simp add: redraw_again redraw_stop)
next
  case (Suc j)
  have "random_cpu rnd n k = other" using Suc.prems(2) by force
  moreover have "\<forall>i < j. random_cpu rnd n (Suc k + i) = other" using Suc.prems(2) by force
  ultimately show ?case
    using Suc.IH [of "random_cpu rnd n k" "Suc k"] Suc.prems(1,3) by (simp add: redraw_again)
qed

lemma redraw_result_aux:
  assumes "redraw rnd n other cpu k = Some r"
  shows "2 \<le> n \<longrightarrow> n < 2 ^ 31 \<longrightarrow> fst r \<noteq> -1 \<and> fst r \<noteq> other \<and> k \<le> snd r \<and>
    (fst r = cpu \<and> snd r = k \<or> 0 \<le> fst r \<and> fst r < n)"
proof (rule redraw.raw_induct [where P = "\<lambda>rnd n other cpu k r. 2 \<le> n \<longrightarrow> n < 2 ^ 31 \<longrightarrow>
    fst r \<noteq> -1 \<and> fst r \<noteq> other \<and> k \<le> snd r \<and>
    (fst r = cpu \<and> snd r = k \<or> 0 \<le> fst r \<and> fst r < n)", OF _ assms], intro impI)
  fix f :: "(nat \<Rightarrow> u64) \<Rightarrow> int \<Rightarrow> int \<Rightarrow> int \<Rightarrow> nat \<Rightarrow> (int \<times> nat) option"
  fix rnd n other cpu k r
  assume ih: "\<And>rnd n other cpu k r. f rnd n other cpu k = Some r \<Longrightarrow> 2 \<le> n \<longrightarrow> n < 2 ^ 31 \<longrightarrow>
      fst r \<noteq> -1 \<and> fst r \<noteq> other \<and> k \<le> snd r \<and>
      (fst r = cpu \<and> snd r = k \<or> 0 \<le> fst r \<and> fst r < n)"
    and body: "(if cpu = -1 \<or> cpu = other then f rnd n other (random_cpu rnd n k) (Suc k)
      else Some (cpu, k)) = Some r"
    and n: "2 \<le> n" "n < 2 ^ 31"
  show "fst r \<noteq> -1 \<and> fst r \<noteq> other \<and> k \<le> snd r \<and>
      (fst r = cpu \<and> snd r = k \<or> 0 \<le> fst r \<and> fst r < n)"
  proof (cases "cpu = -1 \<or> cpu = other")
    case True
    with body have "f rnd n other (random_cpu rnd n k) (Suc k) = Some r" by simp
    from ih [OF this] n random_cpu_range [OF n, of rnd k] show ?thesis by auto
  next
    case False
    with body show ?thesis by auto
  qed
qed

lemma redraw_result:
  assumes "2 \<le> n" and "n < 2 ^ 31" and "redraw rnd n other cpu k = Some (c, k')"
  shows "c \<noteq> -1 \<and> c \<noteq> other \<and> k \<le> k' \<and> (c = cpu \<and> k' = k \<or> 0 \<le> c \<and> c < n)"
  using redraw_result_aux [OF assms(3)] assms(1,2) by simp

lemma redraw_stuck_aux:
  assumes "redraw rnd n other cpu k = Some r"
  shows "(\<forall>j. random_cpu rnd n (k + j) = other) \<longrightarrow> cpu \<noteq> -1 \<and> cpu \<noteq> other"
proof (rule redraw.raw_induct [where P = "\<lambda>rnd n other cpu k r.
    (\<forall>j. random_cpu rnd n (k + j) = other) \<longrightarrow> cpu \<noteq> -1 \<and> cpu \<noteq> other", OF _ assms], intro impI)
  fix f :: "(nat \<Rightarrow> u64) \<Rightarrow> int \<Rightarrow> int \<Rightarrow> int \<Rightarrow> nat \<Rightarrow> (int \<times> nat) option"
  fix rnd n other cpu k r
  assume ih: "\<And>rnd n other cpu k r. f rnd n other cpu k = Some r \<Longrightarrow>
      (\<forall>j. random_cpu rnd n (k + j) = other) \<longrightarrow> cpu \<noteq> -1 \<and> cpu \<noteq> other"
    and body: "(if cpu = -1 \<or> cpu = other then f rnd n other (random_cpu rnd n k) (Suc k)
      else Some (cpu, k)) = Some r"
    and all: "\<forall>j. random_cpu rnd n (k + j) = other"
  show "cpu \<noteq> -1 \<and> cpu \<noteq> other"
  proof (rule ccontr)
    assume "\<not> (cpu \<noteq> -1 \<and> cpu \<noteq> other)"
    with body have "f rnd n other (random_cpu rnd n k) (Suc k) = Some r" by (auto split: if_splits)
    moreover have "random_cpu rnd n (Suc k + j) = other" for j
      using all [THEN spec, of "Suc j"] by simp
    ultimately have "random_cpu rnd n k \<noteq> other" using ih by blast
    then show False using all [THEN spec, of 0] by simp
  qed
qed

lemma redraw_ends_iff:
  assumes "2 \<le> n" and "n < 2 ^ 31"
  shows "redraw rnd n other cpu k \<noteq> None \<longleftrightarrow>
    (cpu \<noteq> -1 \<and> cpu \<noteq> other) \<or> (\<exists>j. random_cpu rnd n (k + j) \<noteq> other)"
proof (cases "cpu \<noteq> -1 \<and> cpu \<noteq> other")
  case True
  then show ?thesis by (simp add: redraw_stop)
next
  case False
  show ?thesis
  proof (cases "\<exists>j. random_cpu rnd n (k + j) \<noteq> other")
    case True
    define j where "j = (LEAST j. random_cpu rnd n (k + j) \<noteq> other)"
    have "random_cpu rnd n (k + j) \<noteq> other" "\<forall>i < j. random_cpu rnd n (k + i) = other"
      using LeastI_ex [OF True] not_less_Least unfolding j_def by blast+
    with False show ?thesis
      using redraw_first [OF assms, of cpu other j rnd k] True by auto
  next
    case all: False
    have "redraw rnd n other cpu k = None"
    proof (cases "redraw rnd n other cpu k")
      case (Some r)
      with redraw_stuck_aux [OF Some] all False show ?thesis by blast
    qed
    with False all show ?thesis by auto
  qed
qed

section \<open>Properties\<close>

lemma draw_srccpu_Some:
  assumes "2 \<le> n" and "n < 2 ^ 31" and "draw_srccpu rnd n s = Some s'"
  shows "\<exists>c k. s' = s\<lparr>srccpu := c, draws := k\<rparr> \<and> c \<noteq> -1 \<and> c \<noteq> dstcpu s \<and>
    (c = srccpu s \<or> 0 \<le> c \<and> c < n)"
  using assms(3) redraw_result [OF assms(1,2)] by (fastforce simp: draw_srccpu_def)

lemma draw_dstcpu_Some:
  assumes "2 \<le> n" and "n < 2 ^ 31" and "draw_dstcpu rnd n s = Some s'"
  shows "\<exists>c k. s' = s\<lparr>dstcpu := c, draws := k\<rparr> \<and> c \<noteq> -1 \<and> c \<noteq> srccpu s \<and>
    (c = dstcpu s \<or> 0 \<le> c \<and> c < n)"
  using assms(3) redraw_result [OF assms(1,2)] by (fastforce simp: draw_dstcpu_def)

definition bad_params :: "int \<Rightarrow> ipi_state \<Rightarrow> bool" where
  "bad_params n s \<longleftrightarrow> n < 2 \<or> n \<le> srccpu s \<or> n \<le> dstcpu s \<or> n div 2 < pairs s"

lemma init_params_good:
  "\<not> bad_params n s \<Longrightarrow> ipi_bench_init_params rnd n s =
     Option.bind (draw_srccpu rnd n s) (\<lambda>s1.
     Option.bind (draw_dstcpu rnd n s1) (\<lambda>s2.
     Some (0, s2\<lparr>pairs := if pairs s2 = -1 then n div 2 else pairs s2,
                 broadcasts := if broadcasts s2 = -1 then 1 else broadcasts s2\<rparr>)))"
  by (cases "draw_srccpu rnd n s"; cases "draw_dstcpu rnd n (the (draw_srccpu rnd n s))")
     (simp_all add: ipi_bench_init_params_def bad_params_def Let_def)

text \<open>
  when \<open>ipi_bench_init_params\<close> accepts the parameters, the two CPUs are different and below the number
  of online CPUs, each is the one that was given or was drawn from the range of CPU numbers, and the pairs
  and workers have their defaults where they were not given. Nothing else of the parameters changes.
\<close>

theorem init_params_result:
  assumes "2 \<le> n" and "n < 2 ^ 31" and "ipi_bench_init_params rnd n s = Some (0, s')"
  shows "\<exists>src dst k. s' = s\<lparr>srccpu := src, dstcpu := dst, draws := k,
      pairs := if pairs s = -1 then n div 2 else pairs s,
      broadcasts := if broadcasts s = -1 then 1 else broadcasts s\<rparr> \<and>
    src \<noteq> dst \<and> src < n \<and> dst < n \<and> src \<noteq> -1 \<and> dst \<noteq> -1 \<and>
    (src = srccpu s \<or> 0 \<le> src) \<and> (dst = dstcpu s \<or> 0 \<le> dst)"
proof -
  have good: "\<not> bad_params n s"
    using assms(3) by (auto simp: ipi_bench_init_params_def bad_params_def split: if_splits)
  then obtain s1 s2 where s1: "draw_srccpu rnd n s = Some s1" and s2: "draw_dstcpu rnd n s1 = Some s2"
    and s': "s' = s2\<lparr>pairs := if pairs s2 = -1 then n div 2 else pairs s2,
                 broadcasts := if broadcasts s2 = -1 then 1 else broadcasts s2\<rparr>"
    using assms(3) by (auto simp: init_params_good Option.bind_eq_Some_conv)
  obtain src k where src: "s1 = s\<lparr>srccpu := src, draws := k\<rparr>" "src \<noteq> -1" "src \<noteq> dstcpu s"
    "src = srccpu s \<or> 0 \<le> src \<and> src < n"
    using draw_srccpu_Some [OF assms(1,2) s1] by blast
  obtain dst k' where dst: "s2 = s1\<lparr>dstcpu := dst, draws := k'\<rparr>" "dst \<noteq> -1" "dst \<noteq> srccpu s1"
    "dst = dstcpu s1 \<or> 0 \<le> dst \<and> dst < n"
    using draw_dstcpu_Some [OF assms(1,2) s2] by blast
  from src dst s' good show ?thesis
    by (intro exI [of _ src] exI [of _ dst] exI [of _ k']) (auto simp: bad_params_def)
qed

text \<open>
  the parameters are refused, with -1 and one message and without drawing anything, exactly when there
  are fewer than two online CPUs, a CPU number is too large or more pairs are asked for than fit.
\<close>

theorem init_params_refuses:
  assumes "n < 2 ^ 31"
  shows "(\<exists>s'. ipi_bench_init_params rnd n s = Some (-1, s')) \<longleftrightarrow> bad_params n s"
proof
  assume "bad_params n s"
  then show "\<exists>s'. ipi_bench_init_params rnd n s = Some (-1, s')"
    by (auto simp: ipi_bench_init_params_def bad_params_def)
next
  assume "\<exists>s'. ipi_bench_init_params rnd n s = Some (-1, s')"
  then show "bad_params n s"
    by (rule contrapos_pp) (auto simp: init_params_good Option.bind_eq_Some_conv)
qed

text \<open>
  C40: the two loops that draw the CPUs end, and the function returns, on every stream of random numbers that
  does not stick to one CPU for ever; on a constant stream, which always gives the same CPU, it loops for ever when the
  parameters are accepted and both CPUs are to be drawn, since they must differ.
\<close>

theorem init_params_terminates:
  assumes "2 \<le> n" and "n < 2 ^ 31"
  shows "((\<forall>k c. \<exists>j. random_cpu rnd n (k + j) \<noteq> c) \<longrightarrow> ipi_bench_init_params rnd n s \<noteq> None) \<and>
    ((\<forall>k. random_cpu rnd n k = c) \<and> srccpu s = -1 \<and> dstcpu s = -1 \<and> \<not> bad_params n s \<longrightarrow>
      ipi_bench_init_params rnd n s = None)"
proof (intro conjI impI)
  assume h: "\<forall>k c. \<exists>j. random_cpu rnd n (k + j) \<noteq> c"
  have "draw_srccpu rnd n s \<noteq> None" and dst: "draw_dstcpu rnd n s' \<noteq> None" for s'
    using h redraw_ends_iff [OF assms] by (auto simp: draw_srccpu_def draw_dstcpu_def)
  then obtain s1 where s1: "draw_srccpu rnd n s = Some s1" by blast
  obtain s2 where "draw_dstcpu rnd n s1 = Some s2" using dst [of s1] by blast
  with s1 show "ipi_bench_init_params rnd n s \<noteq> None"
    by (cases "bad_params n s") (auto simp: init_params_good ipi_bench_init_params_def bad_params_def Let_def)
next
  assume h: "(\<forall>k. random_cpu rnd n k = c) \<and> srccpu s = -1 \<and> dstcpu s = -1 \<and> \<not> bad_params n s"
  have c: "c \<noteq> -1" using h random_cpu_range(1) [OF assms, of rnd 0] by auto
  have "draw_srccpu rnd n s = Some (s\<lparr>srccpu := c, draws := Suc (draws s)\<rparr>)"
    using h c by (simp add: draw_srccpu_def redraw_again redraw_stop)
  moreover have "redraw rnd n c (-1) (Suc (draws s)) = None"
    using redraw_ends_iff [OF assms, of rnd c "-1" "Suc (draws s)"] h by (simp del: not_None_eq)
  ultimately show "ipi_bench_init_params rnd n s = None"
    using h by (simp add: init_params_good draw_dstcpu_def)
qed

text \<open>Four CPUs; the draws are the CPUs 0, 1, 2, 3, 0 and so on.\<close>

definition ex_rnd :: "nat \<Rightarrow> u64" where
  "ex_rnd k = of_nat (k mod 4)"

lemma ex_random_cpu: "random_cpu ex_rnd 4 k = int (k mod 4)"
proof -
  have "k mod 4 < 4" by simp
  then have "uint (of_nat (k mod 4) :: u64) = int (k mod 4)"
    by (simp add: unsigned_of_nat take_bit_nat_eq_self)
  then show ?thesis by (simp add: random_cpu_def ex_rnd_def int_of_ulong_mod)
qed

lemma ex_init:
  "ipi_bench_init_params ex_rnd 4 ipi_static =
     Some (0, ipi_static\<lparr>srccpu := 0, dstcpu := 1, pairs := 2, broadcasts := 1, draws := 2\<rparr>)"
proof -
  have "redraw ex_rnd 4 (-1) (-1) 0 = Some (0, 1)"
    by (simp add: redraw_again redraw_stop ex_random_cpu)
  moreover have "redraw ex_rnd 4 0 (-1) 1 = Some (1, 2)"
    by (simp add: redraw_again redraw_stop ex_random_cpu)
  ultimately show ?thesis
    by (simp add: init_params_good bad_params_def ipi_static_def draw_srccpu_def draw_dstcpu_def)
qed

theorem init_params_result_witness:
  "\<exists>src dst k. ipi_static\<lparr>srccpu := 0, dstcpu := 1, pairs := 2, broadcasts := 1, draws := 2\<rparr> =
     ipi_static\<lparr>srccpu := src, dstcpu := dst, draws := k, pairs := 2, broadcasts := 1\<rparr> \<and> src \<noteq> dst \<and>
     0 \<le> src \<and> src < 4 \<and> 0 \<le> dst \<and> dst < 4"
  using init_params_result [OF _ _ ex_init] by (auto simp: ipi_static_def)

theorem init_params_refuses_witness:
  "\<exists>s'. ipi_bench_init_params ex_rnd 4 (ipi_static\<lparr>srccpu := 7\<rparr>) = Some (-1, s')"
  by (rule init_params_refuses [THEN iffD2]) (simp_all add: bad_params_def)

theorem init_params_terminates_witness:
  "ipi_bench_init_params ex_rnd 4 ipi_static \<noteq> None \<and>
   ipi_bench_init_params (\<lambda>k. 2) 4 ipi_static = None"
proof
  have "\<exists>j. random_cpu ex_rnd 4 (k + j) \<noteq> c" for k c
  proof (cases "random_cpu ex_rnd 4 k = c")
    case True
    have "(k + 1) mod 4 \<noteq> k mod 4" by presburger
    with True show ?thesis by (intro exI [of _ 1]) (simp add: ex_random_cpu flip: of_nat_mod)
  next
    case False
    then show ?thesis by (intro exI [of _ 0]) simp
  qed
  then show "ipi_bench_init_params ex_rnd 4 ipi_static \<noteq> None"
    using init_params_terminates [of 4 ex_rnd ipi_static] by simp
  have "random_cpu (\<lambda>k. 2) 4 k = 2" for k
    by (simp add: random_cpu_def int_of_ulong_mod)
  then show "ipi_bench_init_params (\<lambda>k. 2) 4 ipi_static = None"
    using init_params_terminates [of 4 "\<lambda>k. 2" ipi_static 2]
    by (simp add: bad_params_def ipi_static_def)
qed

text \<open>
  only -1 stands for a CPU that is not given, and the checks only bound the numbers from above: a smaller
  number is accepted and handed to the benchmarks as it is.
\<close>

theorem init_params_negative_cpu:
  assumes "srccpu s < -1" and "dstcpu s \<noteq> srccpu s" and "dstcpu s \<noteq> -1" and "\<not> bad_params n s"
  shows "\<exists>s'. ipi_bench_init_params rnd n s = Some (0, s') \<and> srccpu s' = srccpu s"
  using assms by (simp add: init_params_good draw_srccpu_def draw_dstcpu_def redraw_stop)

theorem init_params_negative_cpu_witness:
  "\<exists>s'. ipi_bench_init_params ex_rnd 4 (ipi_static\<lparr>srccpu := -5, dstcpu := 0\<rparr>) = Some (0, s') \<and>
     srccpu s' = -5"
  using init_params_negative_cpu [of "ipi_static\<lparr>srccpu := -5, dstcpu := 0\<rparr>" 4 ex_rnd]
  by (simp add: bad_params_def ipi_static_def)

end
