(* ===== verification/Ipi_Pick.thy ===== *)
theory Ipi_Pick
  imports Ipi_Params
begin

text \<open>
  \<open>microbenchmark/ipi-bench/ipi_bench.c\<close>, second part: the random choice of CPUs that are not used yet, and
  the loops of \<open>ipi_bench_mesh\<close> and \<open>ipi_bench_all\<close> that fill the array of arguments with them. What the
  choice promises is the locale \<open>cpu_picker\<close>. The cpumask is the set of its CPUs.
\<close>

section \<open>The environment\<close>

record ipi_env =
  num_online_cpus :: int
  node_of :: "int \<Rightarrow> int"           \<comment> \<open>\<open>cpu_to_node\<close> of a CPU number that is not negative\<close>
  rnd :: "nat \<Rightarrow> u64"
  kzalloc_ok :: "int \<Rightarrow> bool"       \<comment> \<open>of the number of elements\<close>
  kthread_ok :: "int \<Rightarrow> bool"       \<comment> \<open>whether a thread for that CPU can be created\<close>
  clock :: "nat \<Rightarrow> u64"             \<comment> \<open>\<open>gettime\<close> in the loading thread\<close>

text \<open>\<open>cpu_to_node\<close> indexes a per-CPU table.\<close>

definition cpu_to_node :: "ipi_env \<Rightarrow> int \<Rightarrow> int res" where
  "cpu_to_node env cpu = (if cpu < 0 then Inl OutOfBounds else Inr (node_of env cpu))"

section \<open>The code\<close>

fun random_unused_from ::
  "ipi_env \<Rightarrow> int \<Rightarrow> nat \<Rightarrow> int set \<times> nat \<Rightarrow> int \<times> int set \<times> nat" where
  "random_unused_from env node 0 (cpumask, k) = (-1, cpumask, k)"
| "random_unused_from env node (Suc retry) (cpumask, k) =
     (let cpu = random_cpu (rnd env) (num_online_cpus env) k in
      if cpu \<in> cpumask then random_unused_from env node retry (cpumask, Suc k)
      else if 0 \<le> node \<and> node_of env cpu \<noteq> node then random_unused_from env node retry (cpumask, Suc k)
      else (cpu, insert cpu cpumask, Suc k))"

definition RETRY :: nat where
  "RETRY = 100000"

definition random_unused_cpu_in_cpumask ::
  "ipi_env \<Rightarrow> int \<Rightarrow> int set \<times> nat \<Rightarrow> int \<times> int set \<times> nat" where
  "random_unused_cpu_in_cpumask env node mk = random_unused_from env node RETRY mk"

text \<open>
  The loop of \<open>ipi_bench_mesh\<close> that builds the pairs, \<open>n\<close> of them to go: \<open>None\<close> when a CPU could not be
  found. \<open>node\<close> keeps its value from one iteration to the next.
\<close>

fun build_pairs ::
  "ipi_env \<Rightarrow> int \<Rightarrow> nat \<Rightarrow> (int \<times> int) list \<Rightarrow> int \<Rightarrow> int set \<times> nat \<Rightarrow>
   ((int \<times> int) list option \<times> nat) res" where
  "build_pairs env across 0 bas node mk = Inr (Some bas, snd mk)"
| "build_pairs env across (Suc n) bas node mk =
     (let (src, mk1) = random_unused_cpu_in_cpumask env (-1) mk in
      bindR (if across = 0 then cpu_to_node env src else Inr node) (\<lambda>node'.
      let (dst, mk2) = random_unused_cpu_in_cpumask env node' mk1 in
      if src < 0 \<or> dst < 0 then Inr (None, snd mk2)
      else build_pairs env across n (bas @ [(src, dst)]) node' mk2))"

text \<open>The loop of \<open>ipi_bench_all\<close> that chooses the workers.\<close>

fun build_workers ::
  "ipi_env \<Rightarrow> nat \<Rightarrow> int list \<Rightarrow> int set \<times> nat \<Rightarrow> int list option \<times> nat" where
  "build_workers env 0 bas mk = (Some bas, snd mk)"
| "build_workers env (Suc n) bas mk =
     (let (src, mk1) = random_unused_cpu_in_cpumask env (-1) mk in
      if src < 0 then (None, snd mk1) else build_workers env n (bas @ [src]) mk1)"

section \<open>The contract of the choice\<close>

locale cpu_picker =
  fixes pick :: "int \<Rightarrow> int set \<times> nat \<Rightarrow> int \<times> int set \<times> nat"
    and valid :: "int \<Rightarrow> bool" and node :: "int \<Rightarrow> int"
  assumes pick_fails: "pick nd mk = (c, mk') \<Longrightarrow> c < 0 \<Longrightarrow> c = -1 \<and> fst mk' = fst mk"
    and pick_fresh: "pick nd mk = (c, mk') \<Longrightarrow> 0 \<le> c \<Longrightarrow>
      valid c \<and> c \<notin> fst mk \<and> fst mk' = insert c (fst mk) \<and> (0 \<le> nd \<longrightarrow> node c = nd)"
begin

text \<open>What one choice, and a choice of two, adds to a list of CPUs that the mask records.\<close>

lemma pick_one:
  assumes "pick nd mk = (c, mk1)" and "0 \<le> c"
    and "fst mk = set cs" and "distinct cs" and "\<forall>c \<in> set cs. valid c"
  shows "fst mk1 = set (cs @ [c]) \<and> distinct (cs @ [c]) \<and> (\<forall>c \<in> set (cs @ [c]). valid c)"
  using pick_fresh [OF assms(1,2)] assms(3-5) by auto

lemma pick_two:
  assumes "pick (-1) mk = (a, mk1)" and "0 \<le> a" and "pick nd mk1 = (b, mk2)" and "0 \<le> b"
    and "fst mk = set cs" and "distinct cs" and "\<forall>c \<in> set cs. valid c"
  shows "fst mk2 = set (cs @ [a, b]) \<and> distinct (cs @ [a, b]) \<and> (\<forall>c \<in> set (cs @ [a, b]). valid c) \<and>
    (0 \<le> nd \<longrightarrow> node b = nd)"
  using pick_one [OF assms(1,2,5-7)] pick_one [OF assms(3,4), of "cs @ [a]"] pick_fresh [OF assms(3,4)]
  by auto

end

definition online_cpu :: "ipi_env \<Rightarrow> int \<Rightarrow> bool" where
  "online_cpu env c \<longleftrightarrow> 0 \<le> c \<and> c < num_online_cpus env"

text \<open>A machine the benchmark accepts: at least two online CPUs, and fewer than \<open>2 ^ 31\<close>.\<close>

definition smp :: "ipi_env \<Rightarrow> bool" where
  "smp env \<longleftrightarrow> 2 \<le> num_online_cpus env \<and> num_online_cpus env < 2 ^ 31"

lemma random_unused_from_result:
  assumes "smp env"
  shows "random_unused_from env nd r mk = (c, mk') \<Longrightarrow>
    c = -1 \<and> fst mk' = fst mk \<or>
    online_cpu env c \<and> c \<notin> fst mk \<and> fst mk' = insert c (fst mk) \<and> (0 \<le> nd \<longrightarrow> node_of env c = nd)"
proof (induction r arbitrary: mk)
  case 0
  then show ?case by (cases mk) simp
next
  case (Suc r)
  obtain mask k where mk: "mk = (mask, k)" by (cases mk)
  let ?cpu = "random_cpu (rnd env) (num_online_cpus env) k"
  have cpu: "online_cpu env ?cpu"
    using random_cpu_range assms by (simp add: online_cpu_def smp_def)
  consider "?cpu \<in> mask \<or> 0 \<le> nd \<and> node_of env ?cpu \<noteq> nd" | "?cpu \<notin> mask" "\<not> (0 \<le> nd \<and> node_of env ?cpu \<noteq> nd)"
    by blast
  then show ?case
  proof cases
    case 1
    then have "random_unused_from env nd r (mask, Suc k) = (c, mk')"
      using Suc.prems by (auto simp: mk Let_def split: if_splits)
    from Suc.IH [OF this] show ?thesis by (simp add: mk)
  next
    case 2
    then show ?thesis using Suc.prems cpu by (auto simp: mk Let_def)
  qed
qed

text \<open>
  The code's choice meets the contract on every machine with several CPUs; on others it is never called.
\<close>

definition picker :: "ipi_env \<Rightarrow> int \<Rightarrow> int set \<times> nat \<Rightarrow> int \<times> int set \<times> nat" where
  "picker env nd mk = (if smp env then random_unused_cpu_in_cpumask env nd mk else (-1, mk))"

interpretation unused: cpu_picker "picker env" "online_cpu env" "node_of env" for env
proof unfold_locales
  fix nd mk c and mk' :: "int set \<times> nat"
  assume p: "picker env nd mk = (c, mk')"
  then consider "c = -1" "mk' = mk" | "smp env" "random_unused_from env nd RETRY mk = (c, mk')"
    by (auto simp: picker_def random_unused_cpu_in_cpumask_def split: if_splits)
  note result = this
  show "c = -1 \<and> fst mk' = fst mk" if "c < 0"
    using result
  proof cases
    case 2
    from random_unused_from_result [OF this] that show ?thesis by (auto simp: online_cpu_def)
  qed simp
  show "online_cpu env c \<and> c \<notin> fst mk \<and> fst mk' = insert c (fst mk) \<and> (0 \<le> nd \<longrightarrow> node_of env c = nd)"
    if "0 \<le> c"
    using result
  proof cases
    case 2
    from random_unused_from_result [OF this] that show ?thesis by auto
  qed (use that in simp)
qed

lemma picker_eq: "smp env \<Longrightarrow> random_unused_cpu_in_cpumask env = picker env"
  by (intro ext) (simp add: picker_def)

section \<open>The pairs and the workers\<close>

definition pair_cpus :: "(int \<times> int) list \<Rightarrow> int list" where
  "pair_cpus ps = concat (map (\<lambda>(a, b). [a, b]) ps)"

lemma pair_cpus_simps [simp]:
  "pair_cpus [] = []"
  "pair_cpus (ps @ [(a, b)]) = pair_cpus ps @ [a, b]"
  by (simp_all add: pair_cpus_def)

lemma length_pair_cpus: "length (pair_cpus ps) = 2 * length ps"
  by (induction ps rule: rev_induct) auto

text \<open>What the msk records while an array is filled with the CPUs \<open>cs\<close>.\<close>

definition chosen :: "ipi_env \<Rightarrow> int list \<Rightarrow> int set \<Rightarrow> bool" where
  "chosen env cs msk \<longleftrightarrow> msk = set cs \<and> distinct cs \<and> (\<forall>c \<in> set cs. online_cpu env c)"

lemma chosen_init [simp]: "chosen env [] {}"
  by (simp add: chosen_def)

lemma finite_online: "finite {c. online_cpu env c}" and card_online:
  "card {c. online_cpu env c} = nat (num_online_cpus env)"
proof -
  have "{c. online_cpu env c} = {0..<num_online_cpus env}" by (auto simp: online_cpu_def)
  then show "finite {c. online_cpu env c}" "card {c. online_cpu env c} = nat (num_online_cpus env)"
    by simp_all
qed

lemma chosen_length:
  assumes "chosen env cs msk" shows "int (length cs) \<le> max 0 (num_online_cpus env)"
proof -
  have "card (set cs) \<le> card {c. online_cpu env c}"
    by (rule card_mono [OF finite_online]) (use assms in \<open>auto simp: chosen_def\<close>)
  moreover have "card (set cs) = length cs"
    using assms by (simp add: chosen_def distinct_card)
  ultimately show ?thesis by (simp add: card_online)
qed

definition nodes_nonneg :: "ipi_env \<Rightarrow> bool" where
  "nodes_nonneg env \<longleftrightarrow> (\<forall>c. online_cpu env c \<longrightarrow> 0 \<le> node_of env c)"

definition same_nodes :: "ipi_env \<Rightarrow> (int \<times> int) list \<Rightarrow> bool" where
  "same_nodes env ps \<longleftrightarrow> (\<forall>(a, b) \<in> set ps. node_of env a = node_of env b)"

lemma build_pairs_chosen:
  assumes "smp env" and "nodes_nonneg env"
  shows "build_pairs env across n bas nd mk = Inr (Some ps, k') \<Longrightarrow>
    chosen env (pair_cpus bas) (fst mk) \<Longrightarrow> (across = 0 \<longrightarrow> same_nodes env bas) \<Longrightarrow>
    length ps = length bas + n \<and> (\<exists>msk. chosen env (pair_cpus ps) msk) \<and>
    (across = 0 \<longrightarrow> same_nodes env ps)"
proof (induction n arbitrary: bas nd mk)
  case 0
  then show ?case by auto
next
  case (Suc n)
  obtain src mk1 where src: "picker env (-1) mk = (src, mk1)" by (cases "picker env (-1) mk")
  obtain nd' where nd': "(if across = 0 then cpu_to_node env src else Inr nd) = Inr nd'"
    using Suc.prems(1)
    by (auto simp: picker_eq [OF assms(1)] src bindR_Inr_iff split: if_splits)
  obtain dst mk2 where dst: "picker env nd' mk1 = (dst, mk2)" by (cases "picker env nd' mk1")
  have rest: "\<not> (src < 0 \<or> dst < 0)" "build_pairs env across n (bas @ [(src, dst)]) nd' mk2 = Inr (Some ps, k')"
    using Suc.prems(1) by (auto simp: picker_eq [OF assms(1)] src nd' dst split: if_splits)
  then have two: "fst mk2 = set (pair_cpus bas @ [src, dst])" "distinct (pair_cpus bas @ [src, dst])"
    "\<forall>c \<in> set (pair_cpus bas @ [src, dst]). online_cpu env c" "0 \<le> nd' \<longrightarrow> node_of env dst = nd'"
    using unused.pick_two [OF src _ dst, of "pair_cpus bas"] Suc.prems(2) by (auto simp: chosen_def)
  have "across = 0 \<longrightarrow> same_nodes env (bas @ [(src, dst)])"
  proof
    assume "across = 0"
    with nd' have "nd' = node_of env src" by (simp add: cpu_to_node_def split: if_splits)
    moreover have "0 \<le> node_of env src" using two(3) assms(2) by (simp add: nodes_nonneg_def)
    ultimately show "same_nodes env (bas @ [(src, dst)])"
      using Suc.prems(3) two(4) \<open>across = 0\<close> by (auto simp: same_nodes_def)
  qed
  then show ?case
    using Suc.IH [OF rest(2)] two by (simp add: chosen_def)
qed

lemma build_workers_chosen:
  assumes "smp env"
  shows "build_workers env n bas mk = (Some ws, k') \<Longrightarrow> chosen env bas (fst mk) \<Longrightarrow>
    length ws = length bas + n \<and> (\<exists>msk. chosen env ws msk)"
proof (induction n arbitrary: bas mk)
  case 0
  then show ?case by auto
next
  case (Suc n)
  obtain src mk1 where src: "picker env (-1) mk = (src, mk1)" by (cases "picker env (-1) mk")
  have rest: "0 \<le> src" "build_workers env n (bas @ [src]) mk1 = (Some ws, k')"
    using Suc.prems(1) by (auto simp: picker_eq [OF assms] src split: if_splits)
  with unused.pick_one [OF src, of bas] Suc.prems(2) have "chosen env (bas @ [src]) (fst mk1)"
    by (auto simp: chosen_def)
  from Suc.IH [OF rest(2) this] show ?case by simp
qed

section \<open>When the choice succeeds\<close>

text \<open>A stream of random numbers that hits every CPU within any 100000 draws.\<close>

definition fair :: "ipi_env \<Rightarrow> bool" where
  "fair env \<longleftrightarrow> (\<forall>k c. online_cpu env c \<longrightarrow>
     (\<exists>j < RETRY. random_cpu (rnd env) (num_online_cpus env) (k + j) = c))"

lemma random_unused_from_finds:
  assumes "smp env" and "c \<notin> fst mk" and "0 \<le> nd \<longrightarrow> node_of env c = nd" and "online_cpu env c"
  shows "j < r \<Longrightarrow> random_cpu (rnd env) (num_online_cpus env) (snd mk + j) = c \<Longrightarrow>
    0 \<le> fst (random_unused_from env nd r mk)"
  using assms(2)
proof (induction r arbitrary: mk j)
  case (Suc r)
  obtain msk k where mk: "mk = (msk, k)" by (cases mk)
  let ?cpu = "random_cpu (rnd env) (num_online_cpus env) k"
  have cpu: "0 \<le> ?cpu" using random_cpu_range assms(1) by (simp add: smp_def)
  show ?case
  proof (cases "?cpu \<in> msk \<or> 0 \<le> nd \<and> node_of env ?cpu \<noteq> nd")
    case True
    have j: "j \<noteq> 0"
    proof
      assume "j = 0"
      then have "?cpu = c" using Suc.prems(2) by (simp add: mk)
      with True Suc.prems(3) assms(3) show False by (auto simp: mk)
    qed
    then have "random_cpu (rnd env) (num_online_cpus env) (snd (msk, Suc k) + (j - 1)) = c"
      using Suc.prems(2) by (simp add: mk)
    then have "0 \<le> fst (random_unused_from env nd r (msk, Suc k))"
      using Suc.IH [of "j - 1" "(msk, Suc k)"] Suc.prems j by (simp add: mk)
    with True show ?thesis by (auto simp: mk Let_def)
  next
    case False
    then show ?thesis using cpu by (auto simp: mk Let_def)
  qed
qed simp

lemma picker_finds:
  assumes "smp env" and "fair env" and "c \<notin> fst mk" and "0 \<le> nd \<longrightarrow> node_of env c = nd"
    and "online_cpu env c"
  shows "0 \<le> fst (picker env nd mk)"
proof -
  obtain j where "j < RETRY" "random_cpu (rnd env) (num_online_cpus env) (snd mk + j) = c"
    using assms(2,5) by (auto simp: fair_def)
  from random_unused_from_finds [OF assms(1,3-5) this] assms(1) show ?thesis
    by (simp add: picker_def random_unused_cpu_in_cpumask_def)
qed

lemma free_cpu:
  assumes "chosen env cs msk" and "int (length cs) < num_online_cpus env"
  shows "\<exists>c. online_cpu env c \<and> c \<notin> msk"
proof (rule ccontr)
  assume "\<not> ?thesis"
  then have "{c. online_cpu env c} \<subseteq> set cs" using assms(1) by (auto simp: chosen_def)
  then have "card {c. online_cpu env c} \<le> card (set cs)" by (intro card_mono) simp_all
  also have "\<dots> \<le> length cs" by (rule card_length)
  finally show False using assms(2) by (simp add: card_online)
qed

lemma build_pairs_succeeds:
  assumes "smp env" and "fair env" and "across \<noteq> 0"
  shows "chosen env (pair_cpus bas) (fst mk) \<Longrightarrow> nd < 0 \<Longrightarrow>
    2 * int (length bas + n) \<le> num_online_cpus env \<Longrightarrow>
    \<exists>ps k'. build_pairs env across n bas nd mk = Inr (Some ps, k')"
proof (induction n arbitrary: bas mk)
  case (Suc n)
  have len: "int (length (pair_cpus bas)) + 2 \<le> num_online_cpus env"
    using Suc.prems(3) by (simp add: length_pair_cpus)
  obtain src mk1 where src: "picker env (-1) mk = (src, mk1)" by (cases "picker env (-1) mk")
  obtain c where "online_cpu env c" "c \<notin> fst mk" using free_cpu [OF Suc.prems(1)] len by auto
  then have "0 \<le> src" using picker_finds [OF assms(1,2), of c mk "-1"] src by simp
  then have one: "chosen env (pair_cpus bas @ [src]) (fst mk1)"
    using unused.pick_one [OF src, of "pair_cpus bas"] Suc.prems(1) by (auto simp: chosen_def)
  obtain dst mk2 where dst: "picker env nd mk1 = (dst, mk2)" by (cases "picker env nd mk1")
  obtain d where "online_cpu env d" "d \<notin> fst mk1" using free_cpu [OF one] len by auto
  then have "0 \<le> dst" using picker_finds [OF assms(1,2), of d mk1 nd] dst Suc.prems(2) by simp
  then have "chosen env (pair_cpus (bas @ [(src, dst)])) (fst mk2)"
    using unused.pick_one [OF dst, of "pair_cpus bas @ [src]"] one by (auto simp: chosen_def)
  then have "\<exists>ps k'. build_pairs env across n (bas @ [(src, dst)]) nd mk2 = Inr (Some ps, k')"
    using Suc.IH Suc.prems(2,3) by simp
  with \<open>0 \<le> src\<close> \<open>0 \<le> dst\<close> assms(3) show ?case
    by (simp add: picker_eq [OF assms(1)] src dst)
qed auto

lemma build_workers_succeeds:
  assumes "smp env" and "fair env"
  shows "chosen env bas (fst mk) \<Longrightarrow> int (length bas + n) \<le> num_online_cpus env \<Longrightarrow>
    \<exists>ws k'. build_workers env n bas mk = (Some ws, k')"
proof (induction n arbitrary: bas mk)
  case (Suc n)
  obtain src mk1 where src: "picker env (-1) mk = (src, mk1)" by (cases "picker env (-1) mk")
  obtain c where "online_cpu env c" "c \<notin> fst mk" using free_cpu [OF Suc.prems(1)] Suc.prems(2) by auto
  then have "0 \<le> src" using picker_finds [OF assms(1,2), of c mk "-1"] src by simp
  then have one: "chosen env (bas @ [src]) (fst mk1)"
    using unused.pick_one [OF src, of bas] Suc.prems(1) by (auto simp: chosen_def)
  from Suc.IH [OF one] Suc.prems(2) \<open>0 \<le> src\<close> show ?case
    by (simp add: picker_eq [OF assms(1)] src)
qed auto

section \<open>Properties\<close>

lemma build_pairs_result:
  assumes "smp env" and "nodes_nonneg env"
    and "build_pairs env across n [] (-1) ({}, k) = Inr (Some ps, k')"
  shows "length ps = n" and "(a, b) \<in> set ps \<Longrightarrow> online_cpu env a \<and> online_cpu env b"
    and "2 * int n \<le> num_online_cpus env"
proof -
  obtain msk where ps: "length ps = n" "chosen env (pair_cpus ps) msk"
    using build_pairs_chosen [OF assms] by (auto simp: same_nodes_def)
  show "length ps = n" by (rule ps(1))
  show "(a, b) \<in> set ps \<Longrightarrow> online_cpu env a \<and> online_cpu env b"
    using ps(2) by (fastforce simp: chosen_def pair_cpus_def)
  show "2 * int n \<le> num_online_cpus env"
    using chosen_length [OF ps(2)] ps(1) assms(1) by (simp add: length_pair_cpus smp_def)
qed

text \<open>
  C38: the pairs of the mesh benchmark use every CPU at most once: when the building loop succeeds it made
  the number of pairs that was asked for, all the CPUs in them are pairwise different and below the number
  of online CPUs (so there are at least twice as many), and with \<open>acrossnuma=0\<close> the two CPUs of each pair
  are on one node.
\<close>

theorem mesh_pairs_disjoint:
  assumes "smp env" and "nodes_nonneg env"
    and "build_pairs env across n [] (-1) ({}, k) = Inr (Some ps, k')"
  shows "length ps = n \<and> distinct (concat (map (\<lambda>(a, b). [a, b]) ps)) \<and>
    (\<forall>(a, b) \<in> set ps. 0 \<le> a \<and> a < num_online_cpus env \<and> 0 \<le> b \<and> b < num_online_cpus env) \<and>
    (across = 0 \<longrightarrow> (\<forall>(a, b) \<in> set ps. node_of env a = node_of env b)) \<and>
    2 * int n \<le> num_online_cpus env"
proof -
  obtain msk where ps: "chosen env (pair_cpus ps) msk" "across = 0 \<longrightarrow> same_nodes env ps"
    using build_pairs_chosen [OF assms] by (auto simp: same_nodes_def)
  with build_pairs_result [OF assms] show ?thesis
    by (auto simp: chosen_def pair_cpus_def online_cpu_def same_nodes_def)
qed

lemma build_workers_result:
  assumes "smp env" and "build_workers env n [] ({}, k) = (Some ws, k')"
  shows "length ws = n" and "distinct ws" and "set ws \<subseteq> {0..<num_online_cpus env}" and "int n \<le> num_online_cpus env"
proof -
  obtain msk where ws: "length ws = n" "chosen env ws msk"
    using build_workers_chosen [OF assms] by auto
  show "length ws = n" by (rule ws(1))
  show "distinct ws" "set ws \<subseteq> {0..<num_online_cpus env}" "int n \<le> num_online_cpus env"
    using chosen_length [OF ws(2)] ws assms(1) by (auto simp: chosen_def online_cpu_def smp_def)
qed

text \<open>
  the workers of the broadcast benchmark are different CPUs in range; asking for more workers than CPUs,
  which the parameters allow, can only fail.
\<close>

theorem broadcast_workers_distinct:
  assumes "smp env"
  shows "case build_workers env n [] ({}, k) of
      (Some ws, k') \<Rightarrow> length ws = n \<and> distinct ws \<and> set ws \<subseteq> {0..<num_online_cpus env} \<and>
        int n \<le> num_online_cpus env
    | (None, k') \<Rightarrow> True"
proof (cases "build_workers env n [] ({}, k)")
  case (Pair r k')
  show ?thesis
  proof (cases r)
    case (Some ws)
    with build_workers_result [OF assms Pair [unfolded Some]] show ?thesis by (simp add: Pair)
  qed (simp add: Pair)
qed

text \<open>
  An ideal case, which the documentation of the random numbers does not promise: on a stream that hits every CPU
  within any 100000 draws, the search for an unused CPU never gives up while one is left, so with \<open>acrossnuma\<close> not 0 \<open>n\<close> pairs of any nodes are found when there are at least \<open>2 n\<close> CPUs, and \<open>n\<close>
  workers when there are at least \<open>n\<close>.
\<close>

theorem mesh_and_workers_found:
  assumes "smp env" and "fair env"
  shows "(across \<noteq> 0 \<and> 2 * int n \<le> num_online_cpus env \<longrightarrow>
      (\<exists>ps k'. build_pairs env across n [] (-1) ({}, k) = Inr (Some ps, k'))) \<and>
    (int n \<le> num_online_cpus env \<longrightarrow> (\<exists>ws k'. build_workers env n [] ({}, k) = (Some ws, k')))"
  using build_pairs_succeeds [OF assms, of across "[]" "({}, k)" "-1" n]
    build_workers_succeeds [OF assms, of "[]" "({}, k)" n] by auto

section \<open>The search as a first fit\<close>

definition drawn_cpu :: "ipi_env \<Rightarrow> nat \<Rightarrow> int" where
  "drawn_cpu env i = random_cpu (rnd env) (num_online_cpus env) i"

definition fits :: "ipi_env \<Rightarrow> int \<Rightarrow> int set \<Rightarrow> nat \<Rightarrow> bool" where
  "fits env node cpumask i \<longleftrightarrow>
     drawn_cpu env i \<notin> cpumask \<and> (node < 0 \<or> node_of env (drawn_cpu env i) = node)"

lemma random_unused_from_find:
  "random_unused_from env node r (msk, k) =
     (case find (fits env node msk) [k..<k + r] of
        None \<Rightarrow> (-1, msk, k + r)
      | Some i \<Rightarrow> (drawn_cpu env i, insert (drawn_cpu env i) msk, Suc i))"
proof (induction r arbitrary: k)
  case (Suc r)
  have "[k..<k + Suc r] = k # [Suc k..<k + Suc r]" by (rule upt_conv_Cons) simp
  then have first: "find (fits env node msk) [k..<k + Suc r] =
      (if fits env node msk k then Some k else find (fits env node msk) [Suc k..<k + Suc r])"
    by (simp del: upt_Suc)
  have step: "random_unused_from env node (Suc r) (msk, k) =
      (if fits env node msk k then (drawn_cpu env k, insert (drawn_cpu env k) msk, Suc k)
       else random_unused_from env node r (msk, Suc k))"
    by (auto simp: fits_def drawn_cpu_def Let_def)
  have rest: "random_unused_from env node r (msk, Suc k) =
      (case find (fits env node msk) [Suc k..<k + Suc r] of
         None \<Rightarrow> (-1, msk, k + Suc r)
       | Some i \<Rightarrow> (drawn_cpu env i, insert (drawn_cpu env i) msk, Suc i))"
    using Suc.IH [of "Suc k"] by (simp only: add_Suc add_Suc_right)
  show ?case unfolding first step rest
    by (cases "fits env node msk k") (simp_all only: if_True if_False option.case)
qed simp

text \<open>
  C27: the random choice of a CPU is the first fit among 100000 draws. The retry loop returns the CPU of the first
  of the next 100000 random numbers that is not in the mask and, when a node is asked for, on that node; it adds
  exactly that CPU to the mask and has used the random numbers up to it. It returns -1, with the mask as it was
  and all 100000 numbers used, exactly when none of them fits.
\<close>

theorem pick_first_fit:
  "random_unused_cpu_in_cpumask env node (cpumask, k) =
     (case find (fits env node cpumask) [k..<k + RETRY] of
        None \<Rightarrow> (-1, cpumask, k + RETRY)
      | Some i \<Rightarrow> (drawn_cpu env i, insert (drawn_cpu env i) cpumask, Suc i))"
  by (simp add: random_unused_cpu_in_cpumask_def random_unused_from_find)

text \<open>What is known when a search gives up: none of the draws was an unused CPU.\<close>

definition starved :: "ipi_env \<Rightarrow> nat \<Rightarrow> nat \<Rightarrow> bool" where
  "starved env k m \<longleftrightarrow> (\<exists>k0 cpumask. k \<le> k0 \<and> finite cpumask \<and> card cpumask < m \<and>
     (\<forall>i \<in> {k0..<k0 + RETRY}. drawn_cpu env i \<in> cpumask))"

lemma starvedI:
  assumes "picker env nd mk = (c, mk')" and "smp env" and "c < 0" and "nd < 0"
    and "chosen env cs (fst mk)" and "length cs < m" and "k \<le> snd mk"
  shows "starved env k m"
proof -
  obtain msk k0 where mk: "mk = (msk, k0)" by (cases mk)
  have on: "0 \<le> drawn_cpu env i" for i
    using assms(2) random_cpu_range by (simp add: drawn_cpu_def smp_def)
  have "find (fits env nd msk) [k0..<k0 + RETRY] = None"
    using assms(1-3) on unfolding picker_def random_unused_cpu_in_cpumask_def mk random_unused_from_find
    by (auto split: option.splits) (metis not_le)
  then have "\<forall>i \<in> {k0..<k0 + RETRY}. drawn_cpu env i \<in> msk"
    using assms(4) by (auto simp: find_None_iff fits_def)
  moreover have "finite msk" "card msk < m"
    using assms(5,6) by (auto simp: mk chosen_def distinct_card)
  ultimately show ?thesis using assms(7) by (auto simp: starved_def mk)
qed

lemma picker_snd: "picker env nd mk = (c, mk') \<Longrightarrow> snd mk \<le> snd mk'"
proof (cases mk)
  case (Pair msk k)
  assume "picker env nd mk = (c, mk')"
  moreover have "find P [k..<k + r] = Some i \<Longrightarrow> k \<le> i" for P r i
    by (auto simp: find_Some_iff)
  ultimately show ?thesis
    by (auto simp: Pair picker_def random_unused_cpu_in_cpumask_def random_unused_from_find le_Suc_eq
        split: if_splits option.splits)
qed

lemma build_workers_or_starved:
  assumes "smp env"
  shows "chosen env bas (fst mk) \<Longrightarrow> k \<le> snd mk \<Longrightarrow>
    (\<exists>ws k'. build_workers env n bas mk = (Some ws, k')) \<or> starved env k (length bas + n)"
proof (induction n arbitrary: bas mk)
  case (Suc n)
  obtain src mk1 where src: "picker env (-1) mk = (src, mk1)" by (cases "picker env (-1) mk")
  show ?case
  proof (cases "src < 0")
    case True
    then show ?thesis using starvedI [OF src assms True _ Suc.prems(1), of "length bas + Suc n" k] Suc.prems(2) by simp
  next
    case False
    then have "chosen env (bas @ [src]) (fst mk1)"
      using unused.pick_one [OF src, of bas] Suc.prems(1) by (auto simp: chosen_def)
    from Suc.IH [OF this] picker_snd [OF src] Suc.prems(2) False show ?thesis
      by (auto simp: picker_eq [OF assms] src)
  qed
qed auto

lemma build_pairs_or_starved:
  assumes "smp env" and "across \<noteq> 0"
  shows "chosen env (pair_cpus bas) (fst mk) \<Longrightarrow> k \<le> snd mk \<Longrightarrow> nd < 0 \<Longrightarrow>
    (\<exists>ps k'. build_pairs env across n bas nd mk = Inr (Some ps, k')) \<or> starved env k (2 * (length bas + n))"
proof (induction n arbitrary: bas mk)
  case (Suc n)
  obtain src mk1 where src: "picker env (-1) mk = (src, mk1)" by (cases "picker env (-1) mk")
  obtain dst mk2 where dst: "picker env nd mk1 = (dst, mk2)" by (cases "picker env nd mk1")
  show ?case
  proof (cases "src < 0")
    case True
    then show ?thesis
      using starvedI [OF src assms(1) True _ Suc.prems(1), of "2 * (length bas + Suc n)" k] Suc.prems(2)
      by (simp add: length_pair_cpus)
  next
    case False
    then have one: "chosen env (pair_cpus bas @ [src]) (fst mk1)"
      using unused.pick_one [OF src, of "pair_cpus bas"] Suc.prems(1) by (auto simp: chosen_def)
    have k: "k \<le> snd mk1" "k \<le> snd mk2" using picker_snd [OF src] picker_snd [OF dst] Suc.prems(2) by simp_all
    show ?thesis
    proof (cases "dst < 0")
      case True
      then show ?thesis
        using starvedI [OF dst assms(1) True Suc.prems(3) one, of "2 * (length bas + Suc n)" k] k(1)
        by (simp add: length_pair_cpus)
    next
      case False
      then have "chosen env (pair_cpus (bas @ [(src, dst)])) (fst mk2)"
        using unused.pick_one [OF dst, of "pair_cpus bas @ [src]"] one by (auto simp: chosen_def)
      from Suc.IH [OF this k(2) Suc.prems(3)] False \<open>\<not> src < 0\<close> assms(2) show ?thesis
        by (auto simp: picker_eq [OF assms(1)] src dst)
    qed
  qed
qed auto

text \<open>
  C39: when the search for CPUs can give up. Whatever the random numbers are, either \<open>n\<close> workers are found, or there
  are 100000 consecutive draws, of those after the start, that hit only CPUs of some set of fewer than \<open>n\<close>; and
  with \<open>acrossnuma\<close> not 0 either \<open>n\<close> pairs are found or 100000 consecutive draws hit only CPUs of some set of
  fewer than \<open>2 n\<close>. So while the machine has enough CPUs, a search only gives up after missing some free CPU
  100000 times in a row.
\<close>

theorem search_gives_up:
  assumes "smp env"
  shows "((\<exists>ws k'. build_workers env n [] ({}, k) = (Some ws, k')) \<or> starved env k n) \<and>
    (across \<noteq> 0 \<longrightarrow>
      (\<exists>ps k'. build_pairs env across n [] (-1) ({}, k) = Inr (Some ps, k')) \<or> starved env k (2 * n))"
  using build_workers_or_starved [OF assms, of "[]" "({}, k)" k n]
    build_pairs_or_starved [OF assms, of across "[]" "({}, k)" k "-1" n] by auto

text \<open>
  on a machine where some node has an odd number of CPUs, the default mesh (a pair for every two CPUs)
  restricted to pairs within a node cannot be built, whatever the random numbers are.
\<close>

theorem mesh_within_nodes_needs_even_nodes:
  assumes "smp env" and "nodes_nonneg env" and "2 * int n = num_online_cpus env"
    and "odd (card {c. 0 \<le> c \<and> c < num_online_cpus env \<and> node_of env c = d})"
  shows "build_pairs env 0 n [] (-1) ({}, k) \<noteq> Inr (Some ps, k')"
proof
  assume "build_pairs env 0 n [] (-1) ({}, k) = Inr (Some ps, k')"
  from build_pairs_chosen [OF assms(1,2) this]
  obtain msk where ps: "length ps = n" "chosen env (pair_cpus ps) msk" "same_nodes env ps"
    by (auto simp: same_nodes_def)
  have "set (pair_cpus ps) = {c. online_cpu env c}"
  proof (rule card_subset_eq [OF finite_online])
    show "set (pair_cpus ps) \<subseteq> {c. online_cpu env c}" using ps(2) by (auto simp: chosen_def)
    have "card (set (pair_cpus ps)) = 2 * n"
      using ps by (simp add: chosen_def distinct_card length_pair_cpus)
    with assms(3) show "card (set (pair_cpus ps)) = card {c. online_cpu env c}"
      by (simp add: card_online)
  qed
  then have "{c. online_cpu env c \<and> node_of env c = d} =
      set (filter (\<lambda>c. node_of env c = d) (pair_cpus ps))"
    by auto
  moreover have "distinct (filter (\<lambda>c. node_of env c = d) (pair_cpus ps))"
    using ps(2) by (simp add: chosen_def)
  moreover have "filter (\<lambda>c. node_of env c = d) (pair_cpus ps) =
      pair_cpus (filter (\<lambda>(a, b). node_of env a = d) ps)"
    using ps(3) by (induction ps) (auto simp: pair_cpus_def same_nodes_def)
  ultimately have "card {c. online_cpu env c \<and> node_of env c = d} =
      2 * length (filter (\<lambda>(a, b). node_of env a = d) ps)"
    by (simp only: distinct_card length_pair_cpus)
  then have "even (card {c. online_cpu env c \<and> node_of env c = d})" by simp
  with assms(4) show False by (simp add: online_cpu_def conj_assoc)
qed

lemma random_unused_from_exhausted:
  "\<forall>j < r. random_cpu (rnd env) (num_online_cpus env) (k + j) \<in> msk \<Longrightarrow>
   random_unused_from env nd r (msk, k) = (-1, msk, k + r)"
proof (induction r arbitrary: k)
  case (Suc r)
  have "random_cpu (rnd env) (num_online_cpus env) k \<in> msk" using Suc.prems by force
  moreover have "\<forall>j < r. random_cpu (rnd env) (num_online_cpus env) (Suc k + j) \<in> msk"
    using Suc.prems by force
  ultimately show ?case using Suc.IH [of "Suc k"] by simp
qed simp

text \<open>
  with \<open>acrossnuma=0\<close> a source CPU that was not found is used before it is checked: when the 100000 draws
  only hit CPUs that are already taken, \<open>cpu_to_node\<close> is asked for the node of CPU -1.
\<close>

theorem mesh_unchecked_source:
  assumes "\<forall>j < RETRY. random_cpu (rnd env) (num_online_cpus env) (k + j) \<in> msk" and "0 < n"
  shows "build_pairs env 0 n bas nd (msk, k) = Inl OutOfBounds"
  using assms(2)
  by (cases n) (simp_all add: random_unused_cpu_in_cpumask_def random_unused_from_exhausted [OF assms(1)]
      cpu_to_node_def)

section \<open>Examples\<close>

text \<open>Four CPUs on two nodes; the draws are the CPUs in turn. And two CPUs on two nodes.\<close>

definition ex_ipi :: ipi_env where
  "ex_ipi = \<lparr>num_online_cpus = 4, node_of = (\<lambda>c. c mod 2), rnd = ex_rnd, kzalloc_ok = (\<lambda>n. 0 \<le> n),
     kthread_ok = (\<lambda>c. True), clock = (\<lambda>n. of_nat n * 1000)\<rparr>"

definition ex_ipi2 :: ipi_env where
  "ex_ipi2 = ex_ipi\<lparr>num_online_cpus := 2\<rparr>"

lemma ex_smp: "smp ex_ipi" "smp ex_ipi2" and ex_nonneg: "nodes_nonneg ex_ipi" "nodes_nonneg ex_ipi2"
  by (simp_all add: smp_def nodes_nonneg_def ex_ipi_def ex_ipi2_def)

lemma ex_fair: "fair ex_ipi"
  unfolding fair_def
proof (intro allI impI)
  fix k c
  assume c: "online_cpu ex_ipi c"
  define j where "j = (nat c + 3 * k) mod 4"
  have "j < RETRY" unfolding j_def RETRY_def by (rule order.strict_trans [of _ 4]) simp_all
  have "(k + (nat c + 3 * k) mod 4) mod 4 = (nat c + 4 * k) mod 4"
    unfolding mod_add_right_eq by (simp add: algebra_simps)
  moreover have "nat c < 4" using c by (auto simp: online_cpu_def ex_ipi_def)
  ultimately have "(k + (nat c + 3 * k) mod 4) mod 4 = nat c" by simp
  then have "random_cpu (rnd ex_ipi) (num_online_cpus ex_ipi) (k + j) = c"
    using c by (simp add: j_def ex_random_cpu online_cpu_def ex_ipi_def flip: of_nat_mod)
  with \<open>j < RETRY\<close> show "\<exists>j < RETRY. random_cpu (rnd ex_ipi) (num_online_cpus ex_ipi) (k + j) = c" by blast
qed

lemma ex_draw: "random_cpu (rnd ex_ipi) (num_online_cpus ex_ipi) k = int (k mod 4)"
  by (simp add: ex_ipi_def ex_random_cpu)

lemma ex_pick:
  "int (k mod 4) \<notin> msk \<Longrightarrow> nd < 0 \<or> int (k mod 4) mod 2 = nd \<Longrightarrow>
   random_unused_from ex_ipi nd (Suc r) (msk, k) = (int (k mod 4), insert (int (k mod 4)) msk, Suc k)"
  "int (k mod 4) \<in> msk \<or> \<not> (nd < 0 \<or> int (k mod 4) mod 2 = nd) \<Longrightarrow>
   random_unused_from ex_ipi nd (Suc r) (msk, k) = random_unused_from ex_ipi nd r (msk, Suc k)"
  by (auto simp: ex_draw Let_def) (simp_all add: ex_ipi_def)

lemma ex_build_pairs:
  "build_pairs ex_ipi 0 2 [] (-1) ({}, 0) = Inr (Some [(0, 2), (3, 1)], 6)"
proof -
  have "2 \<le> RETRY" by (simp add: RETRY_def)
  then obtain r where r: "RETRY = Suc (Suc r)" by (auto simp: le_iff_add)
  show ?thesis
    by (simp add: numeral_2_eq_2 random_unused_cpu_in_cpumask_def r ex_pick cpu_to_node_def
        ex_ipi_def [THEN arg_cong [where f = node_of]] del: random_unused_from.simps)
qed

theorem mesh_pairs_disjoint_witness:
  "distinct (concat (map (\<lambda>(a, b). [a, b]) [(0, 2), (3, 1 :: int)])) \<and>
   node_of ex_ipi 0 = node_of ex_ipi 2 \<and> node_of ex_ipi 3 = node_of ex_ipi 1"
  using mesh_pairs_disjoint [OF ex_smp(1) ex_nonneg(1) ex_build_pairs] by simp

theorem broadcast_workers_distinct_witness:
  "fst (build_workers ex_ipi 5 [] ({}, 0)) = None"
  using broadcast_workers_distinct [OF ex_smp(1), of 5 0]
  by (auto simp: ex_ipi_def split: prod.splits option.splits)

theorem mesh_and_workers_found_witness:
  "(\<exists>ps k'. build_pairs ex_ipi 1 2 [] (-1) ({}, 7) = Inr (Some ps, k')) \<and>
   (\<exists>ws k'. build_workers ex_ipi 4 [] ({}, 7) = (Some ws, k'))"
  using mesh_and_workers_found [OF ex_smp(1) ex_fair, of 1 2 7]
    mesh_and_workers_found [OF ex_smp(1) ex_fair, of 1 4 7]
  by (simp add: ex_ipi_def)

lemma ex_not_starved: "m \<le> 4 \<Longrightarrow> \<not> starved ex_ipi k m"
proof
  assume "m \<le> 4" and "starved ex_ipi k m"
  then obtain k0 msk where m: "finite msk" "card msk < 4" "\<forall>i \<in> {k0..<k0 + RETRY}. drawn_cpu ex_ipi i \<in> msk"
    unfolding starved_def by (meson less_le_trans)
  have "{0..<4} \<subseteq> msk"
  proof
    fix c :: int assume "c \<in> {0..<4}"
    then have "online_cpu ex_ipi c" by (simp add: online_cpu_def ex_ipi_def)
    then obtain j where "j < RETRY" "drawn_cpu ex_ipi (k0 + j) = c"
      using ex_fair by (auto simp: fair_def drawn_cpu_def)
    with m(3) [THEN bspec, of "k0 + j"] show "c \<in> msk" by simp
  qed
  then have "card {0..<4 :: int} \<le> card msk" by (rule card_mono [OF m(1)])
  with m(2) show False by simp
qed

theorem search_gives_up_witness:
  "(\<exists>ws k'. build_workers ex_ipi 4 [] ({}, 7) = (Some ws, k')) \<and>
   (\<exists>ps k'. build_pairs ex_ipi 1 2 [] (-1) ({}, 7) = Inr (Some ps, k'))"
  using search_gives_up [OF ex_smp(1), of 4 7 0] search_gives_up [OF ex_smp(1), of 2 7 1]
    ex_not_starved [of 4 7] by auto

theorem mesh_within_nodes_needs_even_nodes_witness:
  "build_pairs ex_ipi2 0 1 [] (-1) ({}, 0) \<noteq> Inr (Some [(0, 1)], 2)"
proof (rule mesh_within_nodes_needs_even_nodes [OF ex_smp(2) ex_nonneg(2)])
  have "{c :: int. 0 \<le> c \<and> c < 2 \<and> c mod 2 = 0} = {0}" by auto
  then show "odd (card {c. 0 \<le> c \<and> c < num_online_cpus ex_ipi2 \<and> node_of ex_ipi2 c = 0})"
    by (simp add: ex_ipi2_def ex_ipi_def)
qed (simp add: ex_ipi2_def)

theorem mesh_unchecked_source_witness:
  "build_pairs (ex_ipi\<lparr>rnd := \<lambda>k. 0\<rparr>) 0 1 [(0, 1)] 0 ({0, 1}, 2) = Inl OutOfBounds"
  by (rule mesh_unchecked_source)
     (simp_all add: ex_ipi_def random_cpu_def int_of_ulong_def to_int32_def)

end
