(* ===== verification/Ipi_Worker.thy ===== *)
theory Ipi_Worker
  imports Ipi_Pick C_Text
begin

text \<open>
  \<open>microbenchmark/ipi-bench/ipi_bench.c\<close>, third part: what a benchmark thread does, from its start to the
  time stamps it leaves in its \<open>bench_args\<close>, the creation of a thread, and the reports. A thread's view of
  the clock, of the calls it makes and of the other threads is the record \<open>worker_env\<close>. How the threads
  interleave is the theory \<open>Ipi_Barrier\<close>.
\<close>

section \<open>The arguments of a thread\<close>

record bench_args =
  ba_src :: int
  ba_dst :: int
  forked :: u64
  start :: u64
  finish :: u64
  ipitime :: u64
  run_delay :: u64
  ba_name :: string

definition bench_args0 :: bench_args where   \<comment> \<open>\<open>kzalloc\<close> clears it\<close>
  "bench_args0 = \<lparr>ba_src = 0, ba_dst = 0, forked = 0, start = 0, finish = 0, ipitime = 0,
     run_delay = 0, ba_name = []\<rparr>"

record worker_env =
  t_forked :: u64
  t_start :: u64
  t_finish :: u64
  send_time :: "nat \<Rightarrow> u64"     \<comment> \<open>\<open>gettime\<close> of the sender, by the number of the loop\<close>
  recv_time :: "nat \<Rightarrow> u64"     \<comment> \<open>\<open>gettime\<close> in the callback on the target\<close>
  smp_ret :: "nat \<Rightarrow> int"       \<comment> \<open>what \<open>smp_call_function_single\<close> returns\<close>
  sched_delay :: u64            \<comment> \<open>\<open>current->sched_info.run_delay\<close>\<close>
  others :: u64                 \<comment> \<open>what other threads add to \<open>ready_to_run\<close> before the spinning ends\<close>

section \<open>The measurement\<close>

definition ipi_bench_gettime :: "u64 \<Rightarrow> u64 \<Rightarrow> u64" where
  "ipi_bench_gettime now starttime = (if starttime < now then now - starttime else 0)"

text \<open>The loop of \<open>ipi_bench_one\<close>, \<open>n\<close> rounds to go, in round \<open>i\<close>.\<close>

fun bench_one_loop :: "worker_env \<Rightarrow> int \<Rightarrow> nat \<Rightarrow> nat \<Rightarrow> u64 \<Rightarrow> int \<times> u64" where
  "bench_one_loop w wt 0 i t = (0, t)"
| "bench_one_loop w wt (Suc n) i t =
     (let now = send_time w i; ret = smp_ret w i in
      if ret < 0 then (ret, t)
      else bench_one_loop w wt n (Suc i)
             (if wt \<noteq> 0 then t + ipi_bench_gettime (recv_time w i) now else t))"

definition ipi_bench_one :: "worker_env \<Rightarrow> ipi_state \<Rightarrow> bench_args \<Rightarrow> int \<times> bench_args" where
  "ipi_bench_one w s ba =
     (let (ret, t) = bench_one_loop w (wait s) (nat (loops s)) 0 0 in
      if ret < 0 then (ret, ba) else (0, ba\<lparr>ipitime := t\<rparr>))"

definition ipi_bench_record_run_delay :: "worker_env \<Rightarrow> bench_args \<Rightarrow> bench_args" where
  "ipi_bench_record_run_delay w ba = ba\<lparr>run_delay := sched_delay w\<rparr>"

text \<open>
  A thread runs alone or as one of several: after it added 1 to \<open>ready_to_run\<close> the others add \<open>others w\<close>
  before it leaves the spinning loop. \<open>None\<close> is a thread that spins for ever.
\<close>

definition ipi_bench_single_task ::
  "worker_env \<Rightarrow> ipi_state \<Rightarrow> bench_args \<Rightarrow> (int \<times> ipi_state \<times> bench_args) option" where
  "ipi_bench_single_task w s ba =
     (let ba1 = ba\<lparr>forked := t_forked w\<rparr>;
          s1 = s\<lparr>ready_to_run := ready_to_run s + 1\<rparr>;
          ready = ready_to_run s1 + others w
      in if sint ready < sint (should_run s1) then None
         else if ready \<noteq> should_run s1 then
           Some (-1, isay ''ipi_bench: BUG, exit benchmark'' [] s1, ba1)
         else
           let ba2 = ba1\<lparr>start := t_start w\<rparr>;
               (_, ba3) = ipi_bench_one w s1 ba2;
               ba4 = ipi_bench_record_run_delay w (ba3\<lparr>finish := t_finish w\<rparr>)
           in Some (0, s1\<lparr>complete_run := complete_run s1 + 1\<rparr>, ba4))"

text \<open>A broadcast: the calls of \<open>smp_call_function_many\<close>, with or without the lock, and whether to wait.\<close>

datatype many_call = Many_Spinlock int | Many_Empty int

fun many_loop :: "int \<Rightarrow> int \<Rightarrow> nat \<Rightarrow> many_call list" where
  "many_loop lk wt 0 = []"
| "many_loop lk wt (Suc n) = (if lk \<noteq> 0 then Many_Spinlock wt else Many_Empty wt) # many_loop lk wt n"

definition ipi_bench_many :: "ipi_state \<Rightarrow> int \<times> many_call list" where
  "ipi_bench_many s = (0, many_loop (lock s) (wait s) (nat (loops s)))"

definition ipi_bench_many_task ::
  "worker_env \<Rightarrow> ipi_state \<Rightarrow> bench_args \<Rightarrow> (int \<times> ipi_state \<times> bench_args \<times> many_call list) option" where
  "ipi_bench_many_task w s ba =
     (let ba1 = ba\<lparr>forked := t_forked w\<rparr>;
          s1 = s\<lparr>ready_to_run := ready_to_run s + 1\<rparr>;
          ready = ready_to_run s1 + others w
      in if sint ready < sint (should_run s1) then None
         else if ready \<noteq> should_run s1 then
           Some (-1, isay ''ipi_bench: BUG, exit benchmark'' [] s1, ba1, [])
         else
           let ba2 = ba1\<lparr>start := t_start w\<rparr>;
               (_, cs) = ipi_bench_many s1;
               ba3 = ipi_bench_record_run_delay w (ba2\<lparr>finish := t_finish w\<rparr>)
           in Some (0, s1\<lparr>complete_run := complete_run s1 + 1\<rparr>, ba3, cs))"

section \<open>Creating a thread\<close>

text \<open>
  Both return whether a thread was created, with the name they gave it; the thread itself then runs one of
  the two tasks above.
\<close>

definition ipi_bench_one_task :: "ipi_env \<Rightarrow> bench_args \<Rightarrow> ipi_state \<Rightarrow> (int \<times> bench_args \<times> ipi_state) res" where
  "ipi_bench_one_task env ba s =
     (let s1 = isay ''ipi_bench: prepare single IPI from CPU[%3d] to CPU[%3d]''
                 [AInt (ba_src ba), AInt (ba_dst ba)] s;
          ba1 = ba\<lparr>ba_name := snprintf 64 (''ipi_bench_'' @ dec (ba_src ba) @ ''_'' @ dec (ba_dst ba))\<rparr>
      in bindR (cpu_to_node env (ba_src ba)) (\<lambda>node.
         if \<not> kthread_ok env (ba_src ba) then
           Inr (-1, ba1, isay ''ipi_bench: create kthread failed'' [] s1)
         else Inr (0, ba1, s1)))"

definition ipi_bench_all_task :: "ipi_env \<Rightarrow> bench_args \<Rightarrow> ipi_state \<Rightarrow> (int \<times> bench_args \<times> ipi_state) res" where
  "ipi_bench_all_task env ba s =
     (let s1 = isay ''ipi_bench: prepare broadcast IPI from CPU[%3d] to all CPUs'' [AInt (ba_src ba)] s;
          ba1 = ba\<lparr>ba_name := snprintf 64 (''ipi_bench_all_'' @ dec (ba_src ba))\<rparr>
      in bindR (cpu_to_node env (ba_src ba)) (\<lambda>node.
         if \<not> kthread_ok env (ba_src ba) then
           Inr (-1, ba1, isay ''ipi_bench: create kthread failed'' [] s1)
         else Inr (0, ba1, s1)))"

section \<open>Reports\<close>

definition div_loops :: "u64 \<Rightarrow> int \<Rightarrow> u64 res" where   \<comment> \<open>division by an \<open>int\<close>, converted to \<open>unsigned long\<close>\<close>
  "div_loops x n = (if ulong_of_int n = 0 then Inl DivByZero else Inr (x div ulong_of_int n))"

definition net_elapsed :: "bench_args \<Rightarrow> u64" where
  "net_elapsed ba =
     (let elapsed = finish ba - start ba in
      if run_delay ba < elapsed then elapsed - run_delay ba else elapsed)"

definition single_fmt :: string where
  "single_fmt =
     ''ipi_bench: CPU [%3d] [NODE%d] -> CPU [%3d] [NODE%d], wait [%d], loops [%d] '' @
     ''forked [%ld], start [%ld], finish [%ld], elapsed [%ld], ipitime [%ld], run delay [%ld] in ms, '' @
     ''AVG call [%ld], ipi [%ld] in ns''"

definition all_fmt :: string where
  "all_fmt =
     ''ipi_bench: CPU [%3d] [NODE%d] -> all CPUs, wait [%d], loops [%d] '' @
     ''forked [%ld], start [%ld], finish [%ld], elapsed [%ld], run delay [%ld] in ms '' @
     ''AVG call [%ld] in ns''"

definition ipi_bench_report_single :: "ipi_env \<Rightarrow> bench_args \<Rightarrow> ipi_state \<Rightarrow> ipi_state res" where
  "ipi_bench_report_single env ba s =
     (let elapsed = net_elapsed ba in
      if finish ba = 0 then Inr (isay ''ipi_bench: too many loops'' [] s)
      else
        bindR (cpu_to_node env (ba_src ba)) (\<lambda>nsrc.
        bindR (cpu_to_node env (ba_dst ba)) (\<lambda>ndst.
        bindR (div_loops elapsed (loops s)) (\<lambda>avg_call.
        bindR (div_loops (ipitime ba) (loops s)) (\<lambda>avg_ipi.
        Inr (isay single_fmt
          [AInt (ba_src ba), AInt nsrc, AInt (ba_dst ba), AInt ndst, AInt (wait s), AInt (loops s),
           ALong (forked ba div 1000), ALong (start ba div 1000), ALong (finish ba div 1000),
           ALong (elapsed div 1000), ALong (ipitime ba div 1000), ALong (run_delay ba div 1000),
           ALong avg_call, ALong avg_ipi] s))))))"

definition ipi_bench_report_all :: "ipi_env \<Rightarrow> bench_args \<Rightarrow> ipi_state \<Rightarrow> ipi_state res" where
  "ipi_bench_report_all env ba s =
     (let elapsed = net_elapsed ba in
      if finish ba = 0 then Inr (isay ''ipi_bench: too many loops'' [] s)
      else
        bindR (cpu_to_node env (ba_src ba)) (\<lambda>nsrc.
        bindR (div_loops elapsed (loops s)) (\<lambda>avg_call.
        Inr (isay all_fmt
          [AInt (ba_src ba), AInt nsrc, AInt (wait s), AInt (loops s),
           ALong (forked ba div 1000), ALong (start ba div 1000), ALong (finish ba div 1000),
           ALong (elapsed div 1000), ALong (run_delay ba div 1000), ALong avg_call] s))))"

text \<open>
  \<open>pairs * loops * 1000000000UL / elapsed\<close>: the first product is one of \<open>int\<close>s. In the product of the
  broadcasts \<open>num_online_cpus()\<close> is an \<open>unsigned int\<close>, so the first two products are unsigned, of 32 bits.
\<close>

definition mesh_throughput :: "int \<Rightarrow> int \<Rightarrow> u64 \<Rightarrow> u64 res" where
  "mesh_throughput prs lps elapsed =
     (if elapsed = 0 then Inl DivByZero
      else Inr (ulong_of_int (to_int32 (prs * lps)) * 1000000000 div elapsed))"

definition all_throughput :: "int \<Rightarrow> u32 \<Rightarrow> int \<Rightarrow> u64 \<Rightarrow> u64 res" where
  "all_throughput bcs ncpus lps elapsed =
     (if elapsed = 0 then Inl DivByZero
      else Inr (ucast (word_of_int bcs * (ncpus - 1) * word_of_int lps :: u32) * 1000000000 div elapsed))"

section \<open>The measurement loop\<close>

lemma bench_one_loop_wait:
  assumes "\<forall>j < n. 0 \<le> smp_ret w (i + j)" and "wt \<noteq> 0"
  shows "bench_one_loop w wt n i t =
    (0, t + (\<Sum>j<n. ipi_bench_gettime (recv_time w (i + j)) (send_time w (i + j))))"
  using assms(1)
proof (induction n arbitrary: i t)
  case (Suc n)
  have "0 \<le> smp_ret w i" using Suc.prems by force
  moreover have "\<forall>j < n. 0 \<le> smp_ret w (Suc i + j)" using Suc.prems by force
  ultimately show ?case
    using Suc.IH [of "Suc i"] assms(2)
    by (simp add: Let_def sum.lessThan_Suc_shift add.assoc del: sum.lessThan_Suc)
qed simp

lemma bench_one_loop_nowait:
  "\<forall>j < n. 0 \<le> smp_ret w (i + j) \<Longrightarrow> bench_one_loop w 0 n i t = (0, t)"
proof (induction n arbitrary: i)
  case (Suc n)
  have "0 \<le> smp_ret w i" using Suc.prems by force
  moreover have "\<forall>j < n. 0 \<le> smp_ret w (Suc i + j)" using Suc.prems by force
  ultimately show ?case using Suc.IH [of "Suc i"] by (simp add: Let_def)
qed simp

lemma bench_one_loop_error:
  assumes "smp_ret w (i + k) < 0" and "\<forall>j < k. 0 \<le> smp_ret w (i + j)" and "k < n"
  shows "\<exists>t'. bench_one_loop w wt n i t = (smp_ret w (i + k), t')"
  using assms
proof (induction n arbitrary: i t k)
  case (Suc n)
  show ?case
  proof (cases k)
    case 0
    with Suc.prems show ?thesis by (simp add: Let_def)
  next
    case (Suc k')
    have "0 \<le> smp_ret w i" using Suc.prems(2) Suc by force
    moreover have "smp_ret w (Suc i + k') < 0" "\<forall>j < k'. 0 \<le> smp_ret w (Suc i + j)" "k' < n"
      using Suc.prems Suc by force+
    ultimately show ?thesis using Suc.IH [of "Suc i" k'] Suc by (simp add: Let_def)
  qed
qed simp

section \<open>Properties\<close>

text \<open>
  what one measurement reports: when no call fails, the accumulated time is, when it waits for the
  callbacks, the sum over the loops of the time from sending to the callback, where a callback stamped no
  later than its sending counts as zero, and zero when it does not wait; when call \<open>k\<close> is the first one to
  fail, its error is returned and the field is left as it was.
\<close>

theorem ipi_bench_one_result:
  "((\<forall>j < nat (loops s). 0 \<le> smp_ret w j) \<longrightarrow> ipi_bench_one w s ba =
      (0, ba\<lparr>ipitime := if wait s \<noteq> 0
             then (\<Sum>j<nat (loops s). ipi_bench_gettime (recv_time w j) (send_time w j)) else 0\<rparr>)) \<and>
   (\<forall>k < nat (loops s). smp_ret w k < 0 \<and> (\<forall>j < k. 0 \<le> smp_ret w j) \<longrightarrow>
      ipi_bench_one w s ba = (smp_ret w k, ba))"
proof (intro conjI allI impI)
  assume "\<forall>j < nat (loops s). 0 \<le> smp_ret w j"
  then show "ipi_bench_one w s ba = (0, ba\<lparr>ipitime := if wait s \<noteq> 0
             then (\<Sum>j<nat (loops s). ipi_bench_gettime (recv_time w j) (send_time w j)) else 0\<rparr>)"
    using bench_one_loop_wait [of "nat (loops s)" w 0 "wait s" 0]
      bench_one_loop_nowait [of "nat (loops s)" w 0 0]
    by (cases "wait s = 0") (simp_all add: ipi_bench_one_def)
next
  fix k assume "k < nat (loops s)" and "smp_ret w k < 0 \<and> (\<forall>j < k. 0 \<le> smp_ret w j)"
  with bench_one_loop_error [of w 0 k "nat (loops s)" "wait s" 0]
  show "ipi_bench_one w s ba = (smp_ret w k, ba)"
    by (auto simp: ipi_bench_one_def)
qed

lemma unat_gettime: "unat (ipi_bench_gettime r x) = unat r - unat x"
proof (cases "x < r")
  case True
  then have "unat (r - x) = unat r - unat x" by (intro unat_sub) simp
  with True show ?thesis by (simp add: ipi_bench_gettime_def)
next
  case False
  then show ?thesis by (simp add: ipi_bench_gettime_def word_less_nat_alt)
qed

lemma sum_gettime_bound:
  assumes "\<forall>j < n. unat (send_time w j) \<le> unat (send_time w (Suc j)) \<and>
      unat (recv_time w j) \<le> unat (send_time w (Suc j))"
  shows "unat (\<Sum>j<n. ipi_bench_gettime (recv_time w j) (send_time w j))
    \<le> unat (send_time w n) - unat (send_time w 0) \<and> unat (send_time w 0) \<le> unat (send_time w n)"
  using assms
proof (induction n)
  case (Suc n)
  let ?S = "\<Sum>j<n. ipi_bench_gettime (recv_time w j) (send_time w j)"
  let ?d = "ipi_bench_gettime (recv_time w n) (send_time w n)"
  have ih: "unat ?S \<le> unat (send_time w n) - unat (send_time w 0)"
    "unat (send_time w 0) \<le> unat (send_time w n)" using Suc by auto
  have n: "unat (send_time w n) \<le> unat (send_time w (Suc n))"
    "unat (recv_time w n) \<le> unat (send_time w (Suc n))" using Suc.prems by auto
  have "unat (?S + ?d) \<le> unat ?S + unat ?d"
    by (simp add: unat_word_ariths)
  with ih n unat_gettime [of "recv_time w n" "send_time w n"] show ?case by simp
qed simp

text \<open>
  the time attributed to the IPIs never exceeds the elapsed time of the thread: when every loop sends no
  earlier than the previous one and no callback is stamped later than the next sending, and the thread
  starts before the first and finishes no earlier than what would be the next one, the sum does not wrap
  and is at most \<open>finish - start\<close>.
\<close>

theorem ipitime_within_elapsed:
  assumes "\<forall>j < nat (loops s). 0 \<le> smp_ret w j"
    and "\<forall>j < nat (loops s). unat (send_time w j) \<le> unat (send_time w (Suc j)) \<and>
      unat (recv_time w j) \<le> unat (send_time w (Suc j))"
    and "unat (t_start w) \<le> unat (send_time w 0)"
    and "unat (send_time w (nat (loops s))) \<le> unat (t_finish w)"
  shows "unat (ipitime (snd (ipi_bench_one w s ba))) \<le> unat (t_finish w - t_start w)"
proof -
  have "ipitime (snd (ipi_bench_one w s ba)) = (if wait s \<noteq> 0
      then (\<Sum>j<nat (loops s). ipi_bench_gettime (recv_time w j) (send_time w j)) else 0)"
    using ipi_bench_one_result [of s w ba] assms(1) by simp
  moreover have "unat (t_finish w - t_start w) = unat (t_finish w) - unat (t_start w)"
  proof (rule unat_sub)
    show "t_start w \<le> t_finish w"
      using sum_gettime_bound [OF assms(2)] assms(3,4) by (simp add: word_le_nat_alt)
  qed
  ultimately show ?thesis
    using sum_gettime_bound [OF assms(2)] assms(3,4) by auto
qed


text \<open>A run of three loops, 500 ns apart, each callback 200 ns after its sending.\<close>

definition ex_w :: worker_env where
  "ex_w = \<lparr>t_forked = 1000, t_start = 2000, t_finish = 3700,
     send_time = (\<lambda>j. 2000 + of_nat j * 500), recv_time = (\<lambda>j. 2200 + of_nat j * 500),
     smp_ret = (\<lambda>j. 0), sched_delay = 200, others = 0\<rparr>"

definition ex_s :: ipi_state where
  "ex_s = ipi_static\<lparr>loops := 3, should_run := 1\<rparr>"

lemma ex_one: "ipi_bench_one ex_w ex_s ba = (0, ba\<lparr>ipitime := 600\<rparr>)"
  by (simp add: ipi_bench_one_def ex_s_def ex_w_def ipi_static_def numeral_3_eq_3 ipi_bench_gettime_def)

definition ex_w_fail :: worker_env where
  "ex_w_fail = ex_w\<lparr>smp_ret := \<lambda>j. if j = 1 then -6 else 0\<rparr>"

theorem ipi_bench_one_result_witness:
  "ipi_bench_one ex_w_fail ex_s bench_args0 = (-6, bench_args0)"
proof -
  have "\<forall>k < nat (loops ex_s). smp_ret ex_w_fail k < 0 \<and> (\<forall>j < k. 0 \<le> smp_ret ex_w_fail j) \<longrightarrow>
      ipi_bench_one ex_w_fail ex_s bench_args0 = (smp_ret ex_w_fail k, bench_args0)"
    using ipi_bench_one_result [of ex_s ex_w_fail bench_args0] by blast
  from this [THEN spec, of 1] show ?thesis by (simp add: ex_s_def ex_w_fail_def ex_w_def)
qed

theorem ipitime_within_elapsed_witness:
  "unat (ipitime (snd (ipi_bench_one ex_w ex_s bench_args0))) \<le> unat (t_finish ex_w - t_start ex_w)"
proof (rule ipitime_within_elapsed)
  show "\<forall>j < nat (loops ex_s). unat (send_time ex_w j) \<le> unat (send_time ex_w (Suc j)) \<and>
      unat (recv_time ex_w j) \<le> unat (send_time ex_w (Suc j))"
  proof (intro allI impI)
    fix j assume "j < nat (loops ex_s)"
    then have "j = 0 \<or> j = 1 \<or> j = 2" by (auto simp: ex_s_def)
    then show "unat (send_time ex_w j) \<le> unat (send_time ex_w (Suc j)) \<and>
      unat (recv_time ex_w j) \<le> unat (send_time ex_w (Suc j))"
      by (auto simp: ex_w_def)
  qed
qed (simp_all add: ex_w_def ex_s_def)

text \<open>
  a thread that runs with the counters of a fresh load, alone or with others, takes part in the
  benchmark exactly when the number of threads that announced themselves reaches the number that should
  run: with fewer it spins for ever, with more it reports a bug and leaves the rest of its arguments
  unwritten, and with just as many it stamps its start and finish, stores its times and counts itself
  complete.
\<close>

theorem single_task_outcome:
  assumes "ready_to_run s = of_nat r" and "others w = of_nat o'" and "should_run s = of_nat n"
    and "r + 1 + o' < 2 ^ 62" and "n < 2 ^ 62"
  shows "ipi_bench_single_task w s ba =
    (if r + 1 + o' < n then None
     else if r + 1 + o' = n then
       Some (0, s\<lparr>ready_to_run := of_nat (r + 1), complete_run := complete_run s + 1\<rparr>,
         (snd (ipi_bench_one w s (ba\<lparr>forked := t_forked w, start := t_start w\<rparr>)))
           \<lparr>finish := t_finish w, run_delay := sched_delay w\<rparr>)
     else Some (-1, isay ''ipi_bench: BUG, exit benchmark'' [] (s\<lparr>ready_to_run := of_nat (r + 1)\<rparr>),
         ba\<lparr>forked := t_forked w\<rparr>))"
proof -
  have one: "ipi_bench_one w (s\<lparr>ready_to_run := x\<rparr>) b = ipi_bench_one w s b" for x b
    by (simp add: ipi_bench_one_def)
  define rd where "rd = ready_to_run s + 1 + others w"
  have rd: "rd = of_nat (r + 1 + o')" using assms(1,2) by (simp add: rd_def)
  have less: "sint rd < sint (should_run s) \<longleftrightarrow> r + 1 + o' < n"
    unfolding rd assms(3) sint_of_nat64 [OF assms(4)] sint_of_nat64 [OF assms(5)] by linarith
  have eq: "rd = should_run s \<longleftrightarrow> r + 1 + o' = n"
    unfolding rd assms(3) using assms(4,5) by (simp only: of_nat_word_eq_iff) simp
  have rs: "ready_to_run s + 1 = of_nat (r + 1)" using assms(1) by simp
  have "ipi_bench_single_task w s ba =
    (if sint rd < sint (should_run s) then None
     else if rd \<noteq> should_run s then
       Some (-1, isay ''ipi_bench: BUG, exit benchmark'' [] (s\<lparr>ready_to_run := of_nat (r + 1)\<rparr>),
         ba\<lparr>forked := t_forked w\<rparr>)
     else Some (0, s\<lparr>ready_to_run := of_nat (r + 1), complete_run := complete_run s + 1\<rparr>,
         (snd (ipi_bench_one w s (ba\<lparr>forked := t_forked w, start := t_start w\<rparr>)))
           \<lparr>finish := t_finish w, run_delay := sched_delay w\<rparr>))"
    by (simp only: ipi_bench_single_task_def Let_def one split_beta ipi_bench_record_run_delay_def
        rs [symmetric] rd_def) simp
  then show ?thesis by (simp only: less eq) simp
qed

theorem single_task_outcome_witness:
  "\<exists>s ba. ipi_bench_single_task ex_w ex_s bench_args0 = Some (0, s, ba) \<and> ipitime ba = 600 \<and>
     finish ba = 3700 \<and> complete_run s = 1"
  using single_task_outcome [of ex_s 0 ex_w 0 1 bench_args0]
  by (simp add: ex_one) (simp add: ex_s_def ex_w_def ipi_static_def)

section \<open>Reports\<close>

lemma ulong_of_int_zero: "- (2 ^ 31) \<le> n \<Longrightarrow> n < 2 ^ 31 \<Longrightarrow> ulong_of_int n = 0 \<longleftrightarrow> n = 0"
proof
  assume "- (2 ^ 31) \<le> n" "n < 2 ^ 31" "ulong_of_int n = 0"
  then have "(2 :: int) ^ 64 dvd n"
    by (simp add: ulong_of_int_def word_of_int_eq_0_iff)
  then show "n = 0"
    using \<open>- (2 ^ 31) \<le> n\<close> \<open>n < 2 ^ 31\<close> zdvd_imp_le [of "2 ^ 64" n] zdvd_imp_le [of "2 ^ 64" "- n"]
    by (cases n "0 :: int" rule: linorder_cases) auto
qed (simp add: ulong_of_int_def)

lemma div_loops_pos:
  assumes "0 < n" and "n < 2 ^ 31"
  shows "\<exists>q. div_loops x n = Inr q \<and> unat q = unat x div nat n"
proof -
  have n: "uint (ulong_of_int n) = n" using assms by (intro uint_ulong_of_int) auto
  then have "ulong_of_int n \<noteq> 0" using assms(1) by auto
  moreover have "uint (x div ulong_of_int n) = uint x div n" by (simp add: uint_div n)
  then have "unat (x div ulong_of_int n) = unat x div nat n"
    using assms(1) by (simp add: nat_div_distrib flip: nat_uint_eq)
  ultimately show ?thesis by (simp add: div_loops_def)
qed

text \<open>
  the report of a thread. A thread that did not finish is reported as such; one that did is reported
  with its averages per loop, rounded down, of the time between its stamps less the scheduling delay, when
  that is the smaller of the two, and of the IPI time. With \<open>loops=0\<close>, which the parameters allow, a
  finished thread makes the report divide by zero.
\<close>

theorem report_single_result:
  assumes "0 \<le> ba_src ba" and "0 \<le> ba_dst ba" and "- (2 ^ 31) \<le> loops s" and "loops s < 2 ^ 31"
  shows "(finish ba = 0 \<longrightarrow> ipi_bench_report_single env ba s = Inr (isay ''ipi_bench: too many loops'' [] s)) \<and>
    (finish ba \<noteq> 0 \<and> loops s = 0 \<longrightarrow> ipi_bench_report_single env ba s = Inl DivByZero) \<and>
    (finish ba \<noteq> 0 \<and> 0 < loops s \<longrightarrow> (\<exists>args call ipi.
       ipi_bench_report_single env ba s =
         Inr (isay single_fmt (args @ [ALong call, ALong ipi]) s) \<and>
       unat call = (let e = finish ba - start ba in
         (if unat (run_delay ba) < unat e then unat e - unat (run_delay ba) else unat e)) div nat (loops s) \<and>
       unat ipi = unat (ipitime ba) div nat (loops s)))"
proof (intro conjI impI)
  assume "finish ba = 0"
  then show "ipi_bench_report_single env ba s = Inr (isay ''ipi_bench: too many loops'' [] s)"
    by (simp add: ipi_bench_report_single_def)
next
  assume "finish ba \<noteq> 0 \<and> loops s = 0"
  then show "ipi_bench_report_single env ba s = Inl DivByZero"
    using assms(1,2)
    by (simp add: ipi_bench_report_single_def cpu_to_node_def div_loops_def ulong_of_int_def)
next
  assume h: "finish ba \<noteq> 0 \<and> 0 < loops s"
  obtain call where call: "div_loops (net_elapsed ba) (loops s) = Inr call"
    "unat call = unat (net_elapsed ba) div nat (loops s)"
    using div_loops_pos [of "loops s"] h assms(4) by blast
  obtain ipi where ipi: "div_loops (ipitime ba) (loops s) = Inr ipi"
    "unat ipi = unat (ipitime ba) div nat (loops s)"
    using div_loops_pos [of "loops s"] h assms(4) by blast
  have net: "unat (net_elapsed ba) = (let e = finish ba - start ba in
         (if unat (run_delay ba) < unat e then unat e - unat (run_delay ba) else unat e))"
    by (auto simp: net_elapsed_def Let_def word_less_nat_alt unat_sub word_le_nat_alt)
  show "\<exists>args call ipi. ipi_bench_report_single env ba s =
         Inr (isay single_fmt (args @ [ALong call, ALong ipi]) s) \<and>
       unat call = (let e = finish ba - start ba in
         (if unat (run_delay ba) < unat e then unat e - unat (run_delay ba) else unat e)) div nat (loops s) \<and>
       unat ipi = unat (ipitime ba) div nat (loops s)"
    unfolding net [symmetric] call(2) [symmetric] ipi(2) [symmetric]
    using h assms(1,2) call(1) ipi(1)
    by (intro exI [of _ "[AInt (ba_src ba), AInt (node_of env (ba_src ba)), AInt (ba_dst ba),
          AInt (node_of env (ba_dst ba)), AInt (wait s), AInt (loops s),
          ALong (forked ba div 1000), ALong (start ba div 1000), ALong (finish ba div 1000),
          ALong (net_elapsed ba div 1000), ALong (ipitime ba div 1000), ALong (run_delay ba div 1000)]"]
        exI [of _ call] exI [of _ ipi])
       (simp add: ipi_bench_report_single_def cpu_to_node_def)
qed

definition ex_ba :: bench_args where
  "ex_ba = \<lparr>ba_src = 1, ba_dst = 2, forked = 1000, start = 2000, finish = 3700, ipitime = 600,
     run_delay = 200, ba_name = ''ipi_bench_1_2''\<rparr>"

theorem report_single_result_witness:
  "ipi_bench_report_single ex_ipi ex_ba (ipi_static\<lparr>loops := 0\<rparr>) = Inl DivByZero \<and>
   (\<exists>args call ipi. ipi_bench_report_single ex_ipi ex_ba ex_s =
      Inr (isay single_fmt (args @ [ALong call, ALong ipi]) ex_s) \<and> unat call = 500 \<and> unat ipi = 200)"
proof
  show "ipi_bench_report_single ex_ipi ex_ba (ipi_static\<lparr>loops := 0\<rparr>) = Inl DivByZero"
    using report_single_result [of ex_ba "ipi_static\<lparr>loops := 0\<rparr>" ex_ipi] by (simp add: ex_ba_def)
  have s: "loops ex_s = 3" by (simp add: ex_s_def)
  show "\<exists>args call ipi. ipi_bench_report_single ex_ipi ex_ba ex_s =
      Inr (isay single_fmt (args @ [ALong call, ALong ipi]) ex_s) \<and> unat call = 500 \<and> unat ipi = 200"
    using report_single_result [of ex_ba ex_s ex_ipi] by (simp add: s ex_ba_def)
qed

section \<open>Throughput\<close>

text \<open>
  the throughput of the mesh is the number of IPIs per second, rounded down, as long as the number of
  IPIs is below \<open>2 ^ 31\<close>; and it divides by zero when no time passed.
\<close>

theorem mesh_throughput_exact:
  assumes "0 \<le> prs" and "0 \<le> lps" and "prs * lps < 2 ^ 31"
  shows "(elapsed = 0 \<longrightarrow> mesh_throughput prs lps elapsed = Inl DivByZero) \<and>
    (elapsed \<noteq> 0 \<longrightarrow> (\<exists>t. mesh_throughput prs lps elapsed = Inr t \<and>
      uint t = prs * lps * 1000000000 div uint elapsed))"
proof (intro conjI impI)
  assume "elapsed = 0"
  then show "mesh_throughput prs lps elapsed = Inl DivByZero" by (simp add: mesh_throughput_def)
next
  assume e: "elapsed \<noteq> 0"
  have nn: "0 \<le> prs * lps" using assms by simp
  then have "to_int32 (prs * lps) = prs * lps" using assms(3) by (intro to_int32_small) auto
  moreover have "uint (ulong_of_int (prs * lps)) = prs * lps"
    using nn assms(3) by (intro uint_ulong_of_int) auto
  then have "uint (ulong_of_int (prs * lps) * 1000000000) = prs * lps * 1000000000"
  proof -
    assume u: "uint (ulong_of_int (prs * lps)) = prs * lps"
    define x where "x = prs * lps"
    have "x * 1000000000 mod 2 ^ 64 = x * 1000000000"
      using assms(3) nn by (intro mod_pos_pos_trivial) (auto simp flip: x_def)
    then show ?thesis by (simp add: uint_word_ariths u flip: x_def) (simp add: x_def u)
  qed
  ultimately show "\<exists>t. mesh_throughput prs lps elapsed = Inr t \<and>
      uint t = prs * lps * 1000000000 div uint elapsed"
    using e by (simp add: mesh_throughput_def uint_div)
qed

theorem mesh_throughput_exact_witness:
  "\<exists>t. mesh_throughput 8 1000000 1600000000 = Inr t \<and> uint t = 5000000"
  using mesh_throughput_exact [of 8 1000000 1600000000] by simp

text \<open>
  the throughput of the broadcasts counts the IPIs modulo \<open>2 ^ 32\<close>: it is the number of IPIs per second
  exactly when fewer than \<open>2 ^ 32\<close> are sent, so 72 workers on 72 CPUs with the default number of loops
  are reported with a wrong number.
\<close>

theorem all_throughput_wraps:
  assumes "elapsed \<noteq> 0" and "0 \<le> bcs" and "0 \<le> lps" and "0 < ncpus"
  shows "\<exists>t. all_throughput bcs ncpus lps elapsed = Inr t \<and>
    uint t = (bcs * (uint ncpus - 1) * lps) mod 2 ^ 32 * 1000000000 div uint elapsed"
proof -
  let ?w = "word_of_int bcs * (ncpus - 1) * word_of_int lps :: u32"
  have "uint (ncpus - 1) = uint ncpus - 1"
  proof -
    have "uint (1 :: u32) \<le> uint ncpus" using assms(4) by (simp add: word_less_def)
    then show ?thesis by (simp add: uint_sub_lem [THEN iffD1])
  qed
  moreover have "uint ?w = (bcs * uint (ncpus - 1) * lps) mod 2 ^ 32"
  proof -
    have "?w = word_of_int (bcs * uint (ncpus - 1) * lps)" by simp
    then show ?thesis by (simp only: uint_word_of_int) simp
  qed
  ultimately have w: "uint ?w = (bcs * (uint ncpus - 1) * lps) mod 2 ^ 32" by simp
  have "uint (ucast ?w :: u64) = uint ?w"
    by (rule uint_up_ucast) (simp add: is_up)
  moreover have "0 \<le> uint ?w" "uint ?w < 2 ^ 32" using uint_lt2p [of ?w] by simp_all
  ultimately have "uint (ucast ?w * 1000000000 :: u64) = uint ?w * 1000000000"
    by (simp add: uint_word_ariths)
  then show ?thesis
    unfolding w using assms(1) by (simp add: all_throughput_def uint_div)
qed

theorem all_throughput_wraps_witness:
  "\<exists>t. all_throughput 72 72 1000000 1000000000 = Inr t \<and> uint t = 817032704 \<and>
     uint t \<noteq> 72 * 71 * 1000000"
  using all_throughput_wraps [of 1000000000 72 1000000 72] by simp (elim exE, intro exI, auto)

section \<open>Names\<close>

text \<open>
  the name of a thread fits its buffer of 64 bytes untruncated, and threads of different pairs of CPUs
  have different names.
\<close>

theorem thread_names:
  assumes "\<forall>x \<in> {ba_src a, ba_dst a, ba_src b, ba_dst b}. - (2 ^ 31) \<le> x \<and> x < 2 ^ 31"
    and "ipi_bench_one_task env a s = Inr (r, a', s')" and "ipi_bench_one_task env b t = Inr (q, b', t')"
  shows "ba_name a' = ''ipi_bench_'' @ dec (ba_src a) @ ''_'' @ dec (ba_dst a) \<and> length (ba_name a') < 64 \<and>
    (ba_name a' = ba_name b' \<longleftrightarrow> ba_src a = ba_src b \<and> ba_dst a = ba_dst b)"
proof -
  have name: "ba_name x' = ''ipi_bench_'' @ dec (ba_src x) @ ''_'' @ dec (ba_dst x)"
    if "- (2 ^ 31) \<le> ba_src x" "ba_src x < 2 ^ 31" "- (2 ^ 31) \<le> ba_dst x" "ba_dst x < 2 ^ 31"
      "ipi_bench_one_task env x u = Inr (p, x', u')" for x u p x' u'
  proof -
    let ?n = "''ipi_bench_'' @ dec (ba_src x) @ ''_'' @ dec (ba_dst x)"
    have "length ?n \<le> 63"
      using length_dec [OF that(1,2)] length_dec [OF that(3,4)] by simp
    moreover have "ba_name x' = take 63 ?n"
      using that(5) by (auto simp: ipi_bench_one_task_def snprintf_def Let_def bindR_Inr_iff split: if_splits)
    ultimately show ?thesis by simp
  qed
  have "length (dec (ba_src a)) \<le> 11" "length (dec (ba_dst a)) \<le> 11"
    using assms(1) by (auto intro: length_dec)
  then show ?thesis
    using name [OF _ _ _ _ assms(2)] name [OF _ _ _ _ assms(3)] assms(1) dec_pair_inj [of "ba_src a"]
    by simp
qed

theorem thread_names_witness:
  "\<exists>a' b' s' t'. ipi_bench_one_task ex_ipi ex_ba ex_s = Inr (0, a', s') \<and>
     ipi_bench_one_task ex_ipi (ex_ba\<lparr>ba_dst := 3\<rparr>) ex_s = Inr (0, b', t') \<and> ba_name a' \<noteq> ba_name b'"
proof -
  obtain a' s' where a: "ipi_bench_one_task ex_ipi ex_ba ex_s = Inr (0, a', s')"
    by (auto simp: ipi_bench_one_task_def ex_ipi_def ex_ba_def cpu_to_node_def Let_def)
  obtain b' t' where b: "ipi_bench_one_task ex_ipi (ex_ba\<lparr>ba_dst := 3\<rparr>) ex_s = Inr (0, b', t')"
    by (auto simp: ipi_bench_one_task_def ex_ipi_def ex_ba_def cpu_to_node_def Let_def)
  from thread_names [OF _ a b] a b show ?thesis by (auto simp: ex_ba_def)
qed

end
