(* ===== verification/Ipi_Barrier.thy ===== *)
theory Ipi_Barrier
  imports Ipi_Worker Ranked_Steps
begin

text \<open>
  \<open>microbenchmark/ipi-bench/ipi_bench.c\<close>: the threads of one benchmark running together. Each line of
  \<open>ipi_bench_single_task\<close> and \<open>ipi_bench_many_task\<close> that touches a shared counter is a step of its own, so
  the two reads that leave the spinning loop and that check for equality can see different values. The
  threads that could be created exist from the start; creating one more does not read or write what the
  others use, so it commutes with their steps.
\<close>

section \<open>The machine\<close>

datatype pc =
    Absent        \<comment> \<open>could not be created\<close>
  | New           \<comment> \<open>created and woken up\<close>
  | Spinning      \<comment> \<open>announced itself, in the \<open>while\<close> loop\<close>
  | Checking      \<comment> \<open>left the loop, before the \<open>if\<close>\<close>
  | Bugged        \<comment> \<open>returned -1\<close>
  | Running       \<comment> \<open>past the barrier\<close>
  | Finishing     \<comment> \<open>has written its arguments\<close>
  | Completed     \<comment> \<open>counted itself, before it returns\<close>
  | Exited

record bsys =
  glob :: ipi_state
  pcs :: "pc list"
  args :: "bench_args list"

text \<open>
  What a thread measures: \<open>ipi_bench_one\<close> for a pair, nothing for a broadcast.
\<close>

definition single_work :: "worker_env \<Rightarrow> ipi_state \<Rightarrow> bench_args \<Rightarrow> bench_args" where
  "single_work w s ba = snd (ipi_bench_one w s ba)"

definition many_work :: "worker_env \<Rightarrow> ipi_state \<Rightarrow> bench_args \<Rightarrow> bench_args" where
  "many_work w s ba = ba"

inductive tstep ::
  "(worker_env \<Rightarrow> ipi_state \<Rightarrow> bench_args \<Rightarrow> bench_args) \<Rightarrow> (nat \<Rightarrow> worker_env) \<Rightarrow> bsys \<Rightarrow> bsys \<Rightarrow> bool"
  for work :: "worker_env \<Rightarrow> ipi_state \<Rightarrow> bench_args \<Rightarrow> bench_args" and ws :: "nat \<Rightarrow> worker_env"
where
  announce: "i < length (pcs b) \<Longrightarrow> pcs b ! i = New \<Longrightarrow>
    tstep work ws b (b\<lparr>pcs := (pcs b)[i := Spinning],
      args := (args b)[i := (args b ! i)\<lparr>forked := t_forked (ws i)\<rparr>],
      glob := (glob b)\<lparr>ready_to_run := ready_to_run (glob b) + 1\<rparr>\<rparr>)"
| leave: "i < length (pcs b) \<Longrightarrow> pcs b ! i = Spinning \<Longrightarrow>
    \<not> sint (ready_to_run (glob b)) < sint (should_run (glob b)) \<Longrightarrow>
    tstep work ws b (b\<lparr>pcs := (pcs b)[i := Checking]\<rparr>)"
| bug: "i < length (pcs b) \<Longrightarrow> pcs b ! i = Checking \<Longrightarrow>
    ready_to_run (glob b) \<noteq> should_run (glob b) \<Longrightarrow>
    tstep work ws b (b\<lparr>pcs := (pcs b)[i := Bugged],
      glob := isay ''ipi_bench: BUG, exit benchmark'' [] (glob b)\<rparr>)"
| begin_run: "i < length (pcs b) \<Longrightarrow> pcs b ! i = Checking \<Longrightarrow>
    ready_to_run (glob b) = should_run (glob b) \<Longrightarrow>
    tstep work ws b (b\<lparr>pcs := (pcs b)[i := Running],
      args := (args b)[i := (args b ! i)\<lparr>start := t_start (ws i)\<rparr>]\<rparr>)"
| measured: "i < length (pcs b) \<Longrightarrow> pcs b ! i = Running \<Longrightarrow>
    tstep work ws b (b\<lparr>pcs := (pcs b)[i := Finishing],
      args := (args b)[i := ipi_bench_record_run_delay (ws i)
        ((work (ws i) (glob b) (args b ! i))\<lparr>finish := t_finish (ws i)\<rparr>)]\<rparr>)"
| completes: "i < length (pcs b) \<Longrightarrow> pcs b ! i = Finishing \<Longrightarrow>
    tstep work ws b (b\<lparr>pcs := (pcs b)[i := Completed],
      glob := (glob b)\<lparr>complete_run := complete_run (glob b) + 1\<rparr>\<rparr>)"
| exits: "i < length (pcs b) \<Longrightarrow> pcs b ! i = Completed \<Longrightarrow>
    tstep work ws b (b\<lparr>pcs := (pcs b)[i := Exited]\<rparr>)"

inductive_cases tstep_elim: "tstep work ws b b'"

text \<open>The condition of \<open>ipi_bench_wait_all\<close>, and the states a benchmark can reach.\<close>

definition wait_over :: "bsys \<Rightarrow> bool" where
  "wait_over b \<longleftrightarrow> complete_run (glob b) = should_run (glob b)"

definition launch :: "ipi_state \<Rightarrow> (bool \<times> bench_args) list \<Rightarrow> bsys" where
  "launch s ts = \<lparr>glob = s, pcs = map (\<lambda>(ok, ba). if ok then New else Absent) ts, args = map snd ts\<rparr>"

abbreviation reaches where
  "reaches work ws \<equiv> (tstep work ws)\<^sup>*\<^sup>*"

section \<open>Counting threads\<close>

definition count_pc :: "(pc \<Rightarrow> bool) \<Rightarrow> bsys \<Rightarrow> nat" where
  "count_pc P b = length (filter P (pcs b))"

text \<open>Moving one thread to another place changes a count by one or not at all.\<close>

lemma count_pc_move:
  assumes "i < length (pcs b)" and "pcs b' = (pcs b)[i := q]"
  shows "count_pc P b' + (if P (pcs b ! i) then 1 else 0) = count_pc P b + (if P q then 1 else 0)"
  using length_filter_update [OF assms(1), of P q] assms(2) by (simp add: count_pc_def)

lemma count_pc_all: "count_pc P b = length (pcs b) \<Longrightarrow> i < length (pcs b) \<Longrightarrow> P (pcs b ! i)"
  unfolding count_pc_def by (metis filter_id_conv length_filter_less less_irrefl nth_mem)

lemma count_pc_le: "count_pc P b \<le> length (pcs b)"
  by (simp add: count_pc_def)

definition announced :: "pc \<Rightarrow> bool" where
  "announced q \<longleftrightarrow> q \<noteq> New \<and> q \<noteq> Absent"

definition past_loop :: "pc \<Rightarrow> bool" where
  "past_loop q \<longleftrightarrow> announced q \<and> q \<noteq> Spinning"

definition counted :: "pc \<Rightarrow> bool" where
  "counted q \<longleftrightarrow> q = Completed \<or> q = Exited"

definition past_barrier :: "pc \<Rightarrow> bool" where
  "past_barrier q \<longleftrightarrow> q = Running \<or> q = Finishing \<or> counted q"

named_theorems pc_simps
lemmas [pc_simps] = announced_def past_loop_def counted_def past_barrier_def

section \<open>What holds of the counters in any case\<close>

text \<open>
  Whatever the counters start with, \<open>ready_to_run\<close> counts the announcements and \<open>complete_run\<close> the
  completions on top of their start values, and nothing else of the module's variables but the log changes.
\<close>

definition same_params :: "ipi_state \<Rightarrow> ipi_state \<Rightarrow> bool" where
  "same_params s g \<longleftrightarrow> g\<lparr>ready_to_run := 0, complete_run := 0, ilog := []\<rparr> =
     s\<lparr>ready_to_run := 0, complete_run := 0, ilog := []\<rparr>"

lemma same_params_refl [simp]: "same_params s s"
  by (simp add: same_params_def)

lemma same_params_updates [simp]:
  "same_params s (g\<lparr>ready_to_run := x\<rparr>) = same_params s g"
  "same_params s (g\<lparr>complete_run := x\<rparr>) = same_params s g"
  "same_params s (isay f a g) = same_params s g"
  by (simp_all add: same_params_def isay_def)

lemma same_params_fields:
  assumes "same_params s g"
  shows "should_run g = should_run s" "loops g = loops s" "wait g = wait s" "lock g = lock s"
    "options g = options s" "draws g = draws s" "srccpu g = srccpu s" "dstcpu g = dstcpu s"
    "pairs g = pairs s" "acrossnuma g = acrossnuma s" "broadcasts g = broadcasts s"
  using arg_cong [OF assms [unfolded same_params_def], of should_run]
    arg_cong [OF assms [unfolded same_params_def], of loops]
    arg_cong [OF assms [unfolded same_params_def], of wait]
    arg_cong [OF assms [unfolded same_params_def], of lock]
    arg_cong [OF assms [unfolded same_params_def], of options]
    arg_cong [OF assms [unfolded same_params_def], of draws]
    arg_cong [OF assms [unfolded same_params_def], of srccpu]
    arg_cong [OF assms [unfolded same_params_def], of dstcpu]
    arg_cong [OF assms [unfolded same_params_def], of pairs]
    arg_cong [OF assms [unfolded same_params_def], of acrossnuma]
    arg_cong [OF assms [unfolded same_params_def], of broadcasts]
  by simp_all

definition counts_from :: "ipi_state \<Rightarrow> bsys \<Rightarrow> bool" where
  "counts_from s b \<longleftrightarrow>
     same_params s (glob b) \<and>
     ready_to_run (glob b) = ready_to_run s + of_nat (count_pc announced b) \<and>
     complete_run (glob b) = complete_run s + of_nat (count_pc counted b) \<and>
     length (args b) = length (pcs b)"

lemma counts_from_launch: "counts_from s (launch s ts)"
proof -
  have "count_pc announced (launch s ts) = 0" "count_pc counted (launch s ts) = 0"
    by (auto simp: count_pc_def launch_def filter_empty_conv pc_simps split: if_splits)
  then show ?thesis by (simp add: counts_from_def) (simp add: launch_def)
qed

lemma counts_from_step:
  assumes "tstep work ws b b'" and "counts_from s b"
  shows "counts_from s b' \<and> length (pcs b') = length (pcs b)"
  using assms
proof (cases rule: tstep.cases)
  case (announce i)
  with assms(2) count_pc_move [of i b b' Spinning announced] count_pc_move [of i b b' Spinning counted]
  show ?thesis by (auto simp: counts_from_def pc_simps)
next
  case (leave i)
  with assms(2) count_pc_move [of i b b' Checking announced] count_pc_move [of i b b' Checking counted]
  show ?thesis by (auto simp: counts_from_def pc_simps)
next
  case (bug i)
  with assms(2) count_pc_move [of i b b' Bugged announced] count_pc_move [of i b b' Bugged counted]
  show ?thesis by (auto simp: counts_from_def pc_simps) (simp_all add: isay_def)
next
  case (begin_run i)
  with assms(2) count_pc_move [of i b b' Running announced] count_pc_move [of i b b' Running counted]
  show ?thesis by (auto simp: counts_from_def pc_simps)
next
  case (measured i)
  with assms(2) count_pc_move [of i b b' Finishing announced] count_pc_move [of i b b' Finishing counted]
  show ?thesis by (auto simp: counts_from_def pc_simps)
next
  case (completes i)
  with assms(2) count_pc_move [of i b b' Completed announced] count_pc_move [of i b b' Completed counted]
  show ?thesis by (auto simp: counts_from_def pc_simps)
next
  case (exits i)
  with assms(2) count_pc_move [of i b b' Exited announced] count_pc_move [of i b b' Exited counted]
  show ?thesis by (auto simp: counts_from_def pc_simps)
qed

lemma counts_from_reaches:
  "reaches work ws (launch s ts) b \<Longrightarrow> counts_from s b \<and> length (pcs b) = length ts"
proof (induction rule: rtranclp_induct)
  case base
  show ?case by (simp add: counts_from_launch) (simp add: launch_def)
next
  case (step b c)
  then show ?case using counts_from_step [OF step.hyps(2), of s] by simp
qed

section \<open>A fresh start\<close>

text \<open>
  The counters as a load of the module leaves them, and \<open>should_run\<close> set to the number of threads.
\<close>

definition fresh :: "ipi_state \<Rightarrow> nat \<Rightarrow> bool" where
  "fresh s n \<longleftrightarrow> ready_to_run s = 0 \<and> complete_run s = 0 \<and> should_run s = of_nat n \<and> n < 2 ^ 62"

definition barrier_inv :: "ipi_state \<Rightarrow> nat \<Rightarrow> bsys \<Rightarrow> bool" where
  "barrier_inv s n b \<longleftrightarrow> counts_from s b \<and> length (pcs b) = n \<and>
     ((\<exists>i < n. past_loop (pcs b ! i)) \<longrightarrow> count_pc announced b = n) \<and>
     (\<forall>i < n. pcs b ! i \<noteq> Bugged)"

lemma fresh_ready:
  assumes "fresh s n" and "counts_from s b" and "length (pcs b) = n"
  shows "sint (ready_to_run (glob b)) = int (count_pc announced b)"
    and "sint (should_run (glob b)) = int n"
    and "ready_to_run (glob b) = should_run (glob b) \<longleftrightarrow> count_pc announced b = n"
    and "complete_run (glob b) = should_run (glob b) \<longleftrightarrow> count_pc counted b = n"
proof -
  have n: "n < 2 ^ 62" "should_run (glob b) = of_nat n"
    using assms same_params_fields [of s "glob b"] by (auto simp: fresh_def counts_from_def)
  have r: "ready_to_run (glob b) = of_nat (count_pc announced b)" "count_pc announced b \<le> n"
    and c: "complete_run (glob b) = of_nat (count_pc counted b)" "count_pc counted b \<le> n"
    using assms count_pc_le [of _ b] by (auto simp: fresh_def counts_from_def)
  show "sint (ready_to_run (glob b)) = int (count_pc announced b)" "sint (should_run (glob b)) = int n"
    unfolding r n using n r by (simp_all only: sint_of_nat64 order.strict_trans1)
  have eq: "(of_nat a :: u64) = of_nat n \<longleftrightarrow> a = n" if "a \<le> n" for a
    using that n(1) by (simp only: of_nat_word_eq_iff) simp
  show "ready_to_run (glob b) = should_run (glob b) \<longleftrightarrow> count_pc announced b = n"
    unfolding r(1) n(2) by (rule eq [OF r(2)])
  show "complete_run (glob b) = should_run (glob b) \<longleftrightarrow> count_pc counted b = n"
    unfolding c(1) n(2) by (rule eq [OF c(2)])
qed

lemma not_all_announced:
  assumes "i < length (pcs b)" and "\<not> announced (pcs b ! i)"
  shows "count_pc announced b < length (pcs b)"
  using assms count_pc_all [of announced b i] count_pc_le [of announced b] by fastforce

text \<open>A step that moves one thread along among the threads that have announced themselves.\<close>

lemma barrier_inv_move:
  assumes "barrier_inv s n b" and "tstep work ws b b'" and "pcs b' = (pcs b)[i := q]" and "i < length (pcs b)"
    and "announced (pcs b ! i)" and "announced q" and "q \<noteq> Bugged"
    and "past_loop q \<Longrightarrow> count_pc announced b = n"
  shows "barrier_inv s n b'"
proof -
  have counts: "counts_from s b'" "length (pcs b') = n"
    using counts_from_step [OF assms(2)] assms(1) by (auto simp: barrier_inv_def)
  have same: "count_pc announced b' = count_pc announced b"
    using count_pc_move [OF assms(4,3), of announced] assms(5,6) by simp
  have "count_pc announced b = n" if "j < n" "past_loop (pcs b' ! j)" for j
    using that assms(1,3,4,8) by (cases "j = i") (auto simp: barrier_inv_def)
  moreover have "pcs b' ! j \<noteq> Bugged" if "j < n" for j
    using that assms(1,3,4,7) by (cases "j = i") (auto simp: barrier_inv_def)
  ultimately show ?thesis using counts same by (auto simp: barrier_inv_def)
qed

lemma barrier_inv_step:
  assumes "fresh s n" and "tstep work ws b b'" and "barrier_inv s n b"
  shows "barrier_inv s n b'"
  using assms(2)
proof (cases rule: tstep.cases)
  case (announce i)
  have len: "length (pcs b) = n" using assms(3) by (simp add: barrier_inv_def)
  have "count_pc announced b < n"
    using not_all_announced [of i b] announce len by (simp add: pc_simps)
  then have none: "\<not> past_loop (pcs b ! j)" if "j < n" for j
    using assms(3) that by (auto simp: barrier_inv_def)
  have "counts_from s b' \<and> length (pcs b') = n"
    using counts_from_step [OF assms(2)] assms(3) by (auto simp: barrier_inv_def)
  moreover have "\<not> past_loop (pcs b' ! j) \<and> pcs b' ! j \<noteq> Bugged" if "j < n" for j
    using none [OF that] announce that assms(3) by (cases "j = i") (auto simp: pc_simps barrier_inv_def)
  ultimately show ?thesis by (auto simp: barrier_inv_def)
next
  case (leave i)
  have b: "counts_from s b" "length (pcs b) = n" using assms(3) by (simp_all add: barrier_inv_def)
  have "count_pc announced b = n"
    using leave(4) fresh_ready(1,2) [OF assms(1) b] count_pc_le [of announced b] b(2) by simp
  then show ?thesis
    using leave by (intro barrier_inv_move [OF assms(3,2), of i Checking]) (simp_all add: pc_simps)
next
  case (bug i)
  have b: "counts_from s b" "length (pcs b) = n" using assms(3) by (simp_all add: barrier_inv_def)
  have "count_pc announced b = n"
    using bug assms(3) b(2) by (auto simp: barrier_inv_def pc_simps)
  then show ?thesis using bug(4) fresh_ready(3) [OF assms(1) b] by simp
next
  case (begin_run i)
  then show ?thesis using assms(3)
    by (intro barrier_inv_move [OF assms(3,2), of i Running]) (auto simp: pc_simps barrier_inv_def)
next
  case (measured i)
  then show ?thesis using assms(3)
    by (intro barrier_inv_move [OF assms(3,2), of i Finishing]) (auto simp: pc_simps barrier_inv_def)
next
  case (completes i)
  then show ?thesis using assms(3)
    by (intro barrier_inv_move [OF assms(3,2), of i Completed]) (auto simp: pc_simps barrier_inv_def)
next
  case (exits i)
  then show ?thesis using assms(3)
    by (intro barrier_inv_move [OF assms(3,2), of i Exited]) (auto simp: pc_simps barrier_inv_def)
qed

lemma launch_pcs: "i < length ts \<Longrightarrow> pcs (launch s ts) ! i = (if fst (ts ! i) then New else Absent)"
  by (simp add: launch_def split_beta)

lemma barrier_inv_launch: "barrier_inv s (length ts) (launch s ts)"
  by (auto simp: barrier_inv_def counts_from_launch launch_pcs pc_simps split: if_splits)
     (auto simp: launch_def)

lemma barrier_inv_reaches:
  assumes "fresh s (length ts)"
  shows "reaches work ws (launch s ts) b \<Longrightarrow> barrier_inv s (length ts) b"
  by (induction rule: rtranclp_induct) (auto intro: barrier_inv_launch barrier_inv_step [OF assms])

section \<open>What the threads write\<close>

text \<open>
  The contract of the measurement: it depends on the module's parameters only, not on the counters that
  change under it. Then the arguments of each thread are a function of how far it is.
\<close>

definition began :: "worker_env \<Rightarrow> bench_args \<Rightarrow> bench_args" where
  "began w ba = ba\<lparr>forked := t_forked w, start := t_start w\<rparr>"

definition result_of ::
  "(worker_env \<Rightarrow> ipi_state \<Rightarrow> bench_args \<Rightarrow> bench_args) \<Rightarrow> worker_env \<Rightarrow> ipi_state \<Rightarrow> bench_args \<Rightarrow> bench_args" where
  "result_of work w s ba =
     ipi_bench_record_run_delay w ((work w s (began w ba))\<lparr>finish := t_finish w\<rparr>)"

fun args_at ::
  "(worker_env \<Rightarrow> ipi_state \<Rightarrow> bench_args \<Rightarrow> bench_args) \<Rightarrow> worker_env \<Rightarrow> ipi_state \<Rightarrow> bench_args \<Rightarrow> pc \<Rightarrow>
   bench_args" where
  "args_at work w s ba q =
     (if q = Absent \<or> q = New then ba
      else if q = Spinning \<or> q = Checking \<or> q = Bugged then ba\<lparr>forked := t_forked w\<rparr>
      else if q = Running then began w ba
      else result_of work w s ba)"

locale thread_work =
  fixes work :: "worker_env \<Rightarrow> ipi_state \<Rightarrow> bench_args \<Rightarrow> bench_args"
  assumes work_params: "same_params s g \<Longrightarrow> work w g ba = work w s ba"
begin

definition args_inv :: "(nat \<Rightarrow> worker_env) \<Rightarrow> ipi_state \<Rightarrow> (bool \<times> bench_args) list \<Rightarrow> bsys \<Rightarrow> bool" where
  "args_inv ws s ts b \<longleftrightarrow>
     (\<forall>i < length ts. args b ! i = args_at work (ws i) s (snd (ts ! i)) (pcs b ! i))"

lemma args_inv_step:
  assumes "tstep work ws b b'" and "counts_from s b" and "length (pcs b) = length ts" and "args_inv ws s ts b"
  shows "args_inv ws s ts b'"
proof -
  have len: "length (args b) = length ts" and g: "same_params s (glob b)"
    using assms(2,3) by (simp_all add: counts_from_def)
  have same: "args_inv ws s ts b'"
    if "pcs b' = (pcs b)[i := q]" "i < length ts"
      "args b' = (args b)[i := args_at work (ws i) s (snd (ts ! i)) q]" for i q
    unfolding args_inv_def
  proof (intro allI impI)
    fix j assume "j < length ts"
    then show "args b' ! j = args_at work (ws j) s (snd (ts ! j)) (pcs b' ! j)"
      using that assms(3,4) len by (cases "j = i") (auto simp: args_inv_def)
  qed
  have keep: "(args b)[i := args b ! i] = args b" for i by simp
  from assms(1) show ?thesis
  proof (cases rule: tstep.cases)
    case (announce i)
    with assms(3,4) show ?thesis by (intro same [of i Spinning]) (auto simp: args_inv_def)
  next
    case (leave i)
    with assms(3,4) keep [of i] show ?thesis by (intro same [of i Checking]) (auto simp: args_inv_def)
  next
    case (bug i)
    with assms(3,4) keep [of i] show ?thesis by (intro same [of i Bugged]) (auto simp: args_inv_def)
  next
    case (begin_run i)
    with assms(3,4) show ?thesis by (intro same [of i Running]) (auto simp: args_inv_def began_def)
  next
    case (measured i)
    with assms(3,4) show ?thesis
      by (intro same [of i Finishing]) (auto simp: args_inv_def result_of_def work_params [OF g])
  next
    case (completes i)
    with assms(3,4) keep [of i] show ?thesis by (intro same [of i Completed]) (auto simp: args_inv_def)
  next
    case (exits i)
    with assms(3,4) keep [of i] show ?thesis by (intro same [of i Exited]) (auto simp: args_inv_def)
  qed
qed

lemma args_inv_reaches: "reaches work ws (launch s ts) b \<Longrightarrow> args_inv ws s ts b"
proof (induction rule: rtranclp_induct)
  case base
  then show ?case by (auto simp: args_inv_def launch_pcs) (auto simp: launch_def)
next
  case (step b c)
  with counts_from_reaches [OF step.hyps(1)] show ?case by (blast intro: args_inv_step)
qed

text \<open>When the wait is over on a fresh start, every thread has counted itself and left its results.\<close>

lemma wait_over_results:
  assumes "fresh s (length ts)" and "reaches work ws (launch s ts) b" and "wait_over b"
  shows "(\<forall>i < length ts. counted (pcs b ! i)) \<and>
    args b = map (\<lambda>i. result_of work (ws i) s (snd (ts ! i))) [0..<length ts]"
proof -
  have inv: "counts_from s b" "length (pcs b) = length ts" "args_inv ws s ts b"
    using counts_from_reaches [OF assms(2)] args_inv_reaches [OF assms(2)] by simp_all
  have all: "count_pc counted b = length ts"
    using fresh_ready(4) [OF assms(1) inv(1,2)] assms(3) by (simp add: wait_over_def)
  then have counted: "counted (pcs b ! i)" if "i < length ts" for i
    using count_pc_all [of counted b i] inv(2) that by simp
  moreover have "args b = map (\<lambda>i. result_of work (ws i) s (snd (ts ! i))) [0..<length ts]"
  proof (rule nth_equalityI)
    show "length (args b) = length (map (\<lambda>i. result_of work (ws i) s (snd (ts ! i))) [0..<length ts])"
      using inv by (simp add: counts_from_def)
    fix i assume "i < length (args b)"
    then have i: "i < length ts" using inv by (simp add: counts_from_def)
    from counted [OF i] inv(3) i show "args b ! i =
        map (\<lambda>i. result_of work (ws i) s (snd (ts ! i))) [0..<length ts] ! i"
      by (auto simp: args_inv_def pc_simps)
  qed
  ultimately show ?thesis by blast
qed

end

lemma single_work_params: "same_params s g \<Longrightarrow> single_work w g ba = single_work w s ba"
  by (simp add: single_work_def ipi_bench_one_def same_params_fields)

interpretation single: thread_work single_work
  by unfold_locales (rule single_work_params)

interpretation many: thread_work many_work
  by unfold_locales (simp add: many_work_def)

section \<open>Every run ends\<close>

fun rank :: "pc \<Rightarrow> nat" where
  "rank New = 6"
| "rank Spinning = 5"
| "rank Checking = 4"
| "rank Running = 3"
| "rank Finishing = 2"
| "rank Completed = 1"
| "rank q = 0"

definition work_left :: "bsys \<Rightarrow> nat" where
  "work_left b = sum_list (map rank (pcs b))"

lemma work_left_step: "tstep work ws b b' \<Longrightarrow> work_left b' < work_left b"
  by (induction rule: tstep.induct) (auto simp: work_left_def intro!: sum_map_less)

lemma rank_le: "rank q \<le> 6"
  by (cases q) auto

lemma work_left_le: "work_left b \<le> 6 * length (pcs b)"
  by (simp add: work_left_def sum_map_le rank_le)

text \<open>A state in which no thread can move.\<close>

definition stuck :: "(worker_env \<Rightarrow> ipi_state \<Rightarrow> bench_args \<Rightarrow> bench_args) \<Rightarrow> (nat \<Rightarrow> worker_env) \<Rightarrow> bsys \<Rightarrow> bool" where
  "stuck work ws b \<longleftrightarrow> (\<forall>b'. \<not> tstep work ws b b')"

interpretation threads: ending_steps "tstep work ws" "\<lambda>_. True" work_left "\<lambda>_. False" "stuck work ws" for work ws
  by unfold_locales (auto simp: stuck_def work_left_step)

lemma stuck_pcs:
  assumes "stuck work ws b" and "i < length (pcs b)"
  shows "pcs b ! i \<in> {Absent, Spinning, Bugged, Exited}" 
    and "pcs b ! i = Spinning \<Longrightarrow> sint (ready_to_run (glob b)) < sint (should_run (glob b))"
proof -
  have no: "\<not> tstep work ws b b'" for b' using assms(1) by (simp add: stuck_def)
  show "pcs b ! i \<in> {Absent, Spinning, Bugged, Exited}"
  proof (cases "pcs b ! i")
    case New
    then show ?thesis using no tstep.announce [OF assms(2)] by blast
  next
    case Checking
    then show ?thesis
      using no tstep.bug [OF assms(2)] tstep.begin_run [OF assms(2)]
      by (cases "ready_to_run (glob b) = should_run (glob b)") blast+
  next
    case Running
    then show ?thesis using no tstep.measured [OF assms(2)] by blast
  next
    case Finishing
    then show ?thesis using no tstep.completes [OF assms(2)] by blast
  next
    case Completed
    then show ?thesis using no tstep.exits [OF assms(2)] by blast
  qed simp_all
  show "sint (ready_to_run (glob b)) < sint (should_run (glob b))" if "pcs b ! i = Spinning"
    using no tstep.leave [OF assms(2) that] by blast
qed

end
