(* ===== verification/Ipi_Threads.thy ===== *)
theory Ipi_Threads
  imports Ipi_Barrier
begin

text \<open>
  \<open>microbenchmark/ipi-bench/ipi_bench.c\<close>: what the barrier of the benchmark threads guarantees in every
  interleaving of \<open>Ipi_Barrier\<close> when the counters are fresh (safety, results, termination), and what happens
  when a thread is missing, when the counters are left over from an earlier benchmark, and when the loading
  thread stops waiting before the threads have returned.
\<close>

section \<open>Where the threads end\<close>

lemma count_pc_full:
  assumes "\<And>i. i < length (pcs b) \<Longrightarrow> P (pcs b ! i)"
  shows "count_pc P b = length (pcs b)"
proof -
  have "\<forall>q \<in> set (pcs b). P q" using assms by (auto simp: in_set_conv_nth)
  then show ?thesis by (simp add: count_pc_def)
qed

lemma count_pc_zero: "count_pc P b = 0 \<longleftrightarrow> (\<forall>i < length (pcs b). \<not> P (pcs b ! i))"
  by (simp add: count_pc_def filter_empty_conv all_set_conv_all_nth)

lemma stuck_reached: "\<exists>b'. reaches work ws b b' \<and> stuck work ws b'"
  using threads.run_ends [where b = b] by simp

text \<open>A thread that was created can never be \<open>Absent\<close>.\<close>

definition same_absent :: "(bool \<times> bench_args) list \<Rightarrow> bsys \<Rightarrow> bool" where
  "same_absent ts b \<longleftrightarrow> length (pcs b) = length ts \<and> (\<forall>i < length ts. pcs b ! i = Absent \<longleftrightarrow> \<not> fst (ts ! i))"

lemma same_absent_step: "tstep work ws b b' \<Longrightarrow> same_absent ts b \<Longrightarrow> same_absent ts b'"
  by (induction rule: tstep.induct) (auto simp: same_absent_def nth_list_update split: if_splits)

lemma same_absent_reaches: "reaches work ws (launch s ts) b \<Longrightarrow> same_absent ts b"
proof (induction rule: rtranclp_induct)
  case base
  show ?case by (auto simp: same_absent_def launch_pcs) (auto simp: launch_def)
qed (rule same_absent_step)

text \<open>On a fresh start with every thread created, a state in which no thread can move is the end.\<close>

lemma fresh_stuck:
  assumes "fresh s (length ts)" and "\<forall>t \<in> set ts. fst t" and "reaches work ws (launch s ts) b"
    and "stuck work ws b"
  shows "wait_over b \<and> (\<forall>i < length ts. pcs b ! i = Exited)"
proof -
  have b: "counts_from s b" "length (pcs b) = length ts" and nobug: "\<forall>i < length ts. pcs b ! i \<noteq> Bugged"
    using barrier_inv_reaches [OF assms(1,3)] by (simp_all add: barrier_inv_def)
  have here: "pcs b ! i \<noteq> Absent" if "i < length ts" for i
    using same_absent_reaches [OF assms(3)] assms(2) that by (auto simp: same_absent_def)
  have opts: "pcs b ! i = Spinning \<or> pcs b ! i = Exited" if "i < length ts" for i
    using stuck_pcs(1) [OF assms(4), of i] here [OF that] nobug that b(2) by auto
  then have all: "count_pc announced b = length ts"
    using count_pc_full [of b announced] b(2) by (fastforce simp: pc_simps)
  have out: "pcs b ! i = Exited" if i: "i < length ts" for i
  proof (rule ccontr)
    assume "pcs b ! i \<noteq> Exited"
    with opts [OF i] have "pcs b ! i = Spinning" by simp
    from stuck_pcs(2) [OF assms(4) _ this] i b(2)
    show False using fresh_ready(1,2) [OF assms(1) b] all by simp
  qed
  then have "count_pc counted b = length ts"
    using count_pc_full [of b counted] b(2) by (simp add: pc_simps)
  with out fresh_ready(4) [OF assms(1) b] show ?thesis by (simp add: wait_over_def)
qed

section \<open>The barrier\<close>

definition ex_threads :: "(bool \<times> bench_args) list" where
  "ex_threads = [(True, bench_args0\<lparr>ba_dst := 1\<rparr>), (True, bench_args0\<lparr>ba_src := 2, ba_dst := 3\<rparr>)]"

definition ex_fresh :: ipi_state where
  "ex_fresh = ipi_static\<lparr>should_run := 2\<rparr>"

lemma ex_fresh: "fresh ex_fresh (length ex_threads)" "\<forall>t \<in> set ex_threads. fst t"
  by (simp_all add: fresh_def ex_fresh_def ex_threads_def ipi_static_def)

lemma all_announced:
  assumes "fresh s (length ts)" and "reaches work ws (launch s ts) b" and "i < length ts"
    and "past_loop (pcs b ! i)"
  shows "count_pc announced b = length ts" and "ready_to_run (glob b) = should_run (glob b)"
proof -
  have inv: "barrier_inv s (length ts) b" by (rule barrier_inv_reaches [OF assms(1,2)])
  then show "count_pc announced b = length ts" using assms(3,4) by (auto simp: barrier_inv_def)
  with inv fresh_ready(3) [OF assms(1), of b] show "ready_to_run (glob b) = should_run (glob b)"
    by (simp add: barrier_inv_def)
qed

text \<open>
  C28: the barrier of the benchmark threads. When the counters are fresh and \<open>should_run\<close> is the number of
  threads, then in every interleaving no thread takes the \<open>BUG\<close> exit, and when one thread has left the
  spinning loop every thread has announced itself: none of them starts to measure before all are there.
\<close>

theorem barrier_safe:
  assumes "fresh s (length ts)" and "reaches work ws (launch s ts) b" and "i < length ts"
  shows "pcs b ! i \<noteq> Bugged \<and>
    (past_loop (pcs b ! i) \<longrightarrow>
      (\<forall>j < length ts. announced (pcs b ! j)) \<and> ready_to_run (glob b) = should_run (glob b))"
  using barrier_inv_reaches [OF assms(1,2)] all_announced [OF assms] count_pc_all [of announced b] assms(3)
  by (simp add: barrier_inv_def)

text \<open>
  C29: the threads end. From any start, whatever the counters, a run has at most six steps per thread. When the counters are fresh and
  all threads could be created, a state in which no thread can move is one in which every thread has returned
  and the wait of the loading thread is over; and from every state such a state can still be reached, so no
  interleaving ever gets stuck at the barrier.
\<close>

theorem threads_end:
  assumes "(tstep work ws ^^ k) (launch s ts) b"
  shows "k \<le> 6 * length ts \<and>
    (fresh s (length ts) \<and> (\<forall>t \<in> set ts. fst t) \<longrightarrow>
      (stuck work ws b \<longrightarrow> wait_over b \<and> (\<forall>i < length ts. pcs b ! i = Exited)) \<and>
      (\<exists>b'. reaches work ws b b' \<and> wait_over b' \<and> (\<forall>i < length ts. pcs b' ! i = Exited)))"
proof -
  have r: "reaches work ws (launch s ts) b" using assms by (rule relpowp_imp_rtranclp)
  have "k \<le> 6 * length ts"
    using threads.run_bounded [OF assms] work_left_le [of "launch s ts"] by (simp add: launch_def)
  moreover obtain b' where b': "reaches work ws b b'" "stuck work ws b'" using stuck_reached by blast
  moreover have "reaches work ws (launch s ts) b'" using r b'(1) by simp
  ultimately show ?thesis using fresh_stuck [of s ts work ws] r by blast
qed

theorem barrier_safe_witness:
  "\<exists>b. reaches single_work (\<lambda>i. ex_w) (launch ex_fresh ex_threads) b \<and> past_loop (pcs b ! 0) \<and>
     announced (pcs b ! 1)"
proof -
  obtain b where b: "reaches single_work (\<lambda>i. ex_w) (launch ex_fresh ex_threads) b"
    and "pcs b ! 0 = Exited"
    using stuck_reached fresh_stuck [OF ex_fresh] by (metis ex_threads_def length_greater_0_conv list.distinct(1))
  then have p: "past_loop (pcs b ! 0)" by (simp add: pc_simps)
  have "past_loop (pcs b ! 0) \<longrightarrow> (\<forall>j < length ex_threads. announced (pcs b ! j))"
    using barrier_safe [OF ex_fresh(1) b, of 0] by (simp add: ex_threads_def)
  with b p show ?thesis by (auto simp: ex_threads_def)
qed

theorem threads_end_witness:
  "\<exists>b. reaches single_work (\<lambda>i. ex_w) (launch ex_fresh ex_threads) b \<and> wait_over b \<and>
     pcs b ! 1 = Exited"
proof -
  have "\<exists>b'. reaches single_work (\<lambda>i. ex_w) (launch ex_fresh ex_threads) b' \<and> wait_over b' \<and>
      (\<forall>i < length ex_threads. pcs b' ! i = Exited)"
    using threads_end [of 0 single_work "\<lambda>i. ex_w" ex_fresh ex_threads] ex_fresh by simp
  then show ?thesis by (auto simp: ex_threads_def)
qed

text \<open>
  when the wait of the loading thread ends with its condition, on a fresh start, every thread of
  \<open>ipi_bench_single_task\<close> has counted itself and the arguments hold exactly the results of the
  measurements: its stamps and the IPI time that \<open>ipi_bench_one\<close> computes, whatever the interleaving was.
\<close>

theorem wait_complete:
  assumes "fresh s (length ts)" and "reaches single_work ws (launch s ts) b" and "wait_over b"
  shows "(\<forall>i < length ts. counted (pcs b ! i)) \<and>
    args b = map (\<lambda>i. (snd (ipi_bench_one (ws i) s ((snd (ts ! i))\<lparr>forked := t_forked (ws i), start := t_start (ws i)\<rparr>)))
      \<lparr>finish := t_finish (ws i), run_delay := sched_delay (ws i)\<rparr>) [0..<length ts]"
  using single.wait_over_results [OF assms]
  by (simp add: result_of_def began_def single_work_def ipi_bench_record_run_delay_def)

theorem wait_complete_witness:
  "\<exists>b. reaches single_work (\<lambda>i. ex_w) (launch ex_fresh ex_threads) b \<and> wait_over b \<and>
     length (args b) = 2 \<and> map finish (args b) = [3700, 3700]"
proof -
  obtain b where b: "reaches single_work (\<lambda>i. ex_w) (launch ex_fresh ex_threads) b" "wait_over b"
    using stuck_reached fresh_stuck [OF ex_fresh] by metis
  have "t_finish ex_w = 3700" by (simp add: ex_w_def)
  with wait_complete [OF ex_fresh(1) b] have all: "length (args b) = 2" "\<forall>ba \<in> set (args b). finish ba = 3700"
    by (simp_all add: ex_threads_def)
  then obtain x y where "args b = [x, y]" by (auto simp: numeral_2_eq_2 length_Suc_conv)
  with all b show ?thesis by auto
qed

section \<open>What can go wrong\<close>

lemma missing_not_past:
  assumes "fresh s (length ts)" and "\<exists>t \<in> set ts. \<not> fst t" and "reaches work ws (launch s ts) b"
  shows "\<not> wait_over b" and "i < length ts \<Longrightarrow> \<not> past_loop (pcs b ! i)"
proof -
  have inv: "barrier_inv s (length ts) b" by (rule barrier_inv_reaches [OF assms(1,3)])
  then have b: "counts_from s b" "length (pcs b) = length ts" by (simp_all add: barrier_inv_def)
  obtain j where j: "j < length ts" "\<not> fst (ts ! j)" using assms(2) by (auto simp: in_set_conv_nth)
  then have "pcs b ! j = Absent" using same_absent_reaches [OF assms(3)] by (simp add: same_absent_def)
  then have "count_pc announced b < length ts" "count_pc counted b < length ts"
    using not_all_announced [of j b] count_pc_all [of counted b j] count_pc_le [of counted b] j(1) b(2)
    by (auto simp: pc_simps le_less)
  then show "\<not> wait_over b" "i < length ts \<Longrightarrow> \<not> past_loop (pcs b ! i)"
    using inv fresh_ready(4) [OF assms(1) b] by (auto simp: barrier_inv_def wait_over_def)
qed

text \<open>
  a thread that could not be created. The benchmark goes on without it, and then no thread that was
  created ever leaves the spinning loop: when nothing can move any more all of them spin, none has counted
  itself, and the wait of the loading thread can only end by the timeout.
\<close>

theorem missing_thread:
  assumes "fresh s (length ts)" and "\<exists>t \<in> set ts. \<not> fst t" and "reaches work ws (launch s ts) b"
  shows "(\<forall>i < length ts. \<not> past_loop (pcs b ! i)) \<and> \<not> wait_over b \<and>
    (stuck work ws b \<longrightarrow> (\<forall>i < length ts. pcs b ! i = (if fst (ts ! i) then Spinning else Absent)))"
proof -
  have len: "length (pcs b) = length ts" using counts_from_reaches [OF assms(3)] by simp
  have "pcs b ! i = (if fst (ts ! i) then Spinning else Absent)" if "stuck work ws b" "i < length ts" for i
    using stuck_pcs(1) [OF that(1), of i] missing_not_past(2) [OF assms that(2)]
      same_absent_reaches [OF assms(3)] that(2) len
    by (auto simp: same_absent_def pc_simps)
  with missing_not_past [OF assms] show ?thesis by blast
qed

definition ex_missing :: "(bool \<times> bench_args) list" where
  "ex_missing = [(True, ex_ba), (False, ex_ba\<lparr>ba_src := 3\<rparr>)]"

theorem missing_thread_witness:
  "\<exists>b. reaches single_work (\<lambda>i. ex_w) (launch ex_fresh ex_missing) b \<and> stuck single_work (\<lambda>i. ex_w) b \<and>
     pcs b ! 0 = Spinning \<and> \<not> wait_over b"
proof -
  have f: "fresh ex_fresh (length ex_missing)" "\<exists>t \<in> set ex_missing. \<not> fst t"
    by (simp_all add: fresh_def ex_fresh_def ex_missing_def ipi_static_def)
  obtain b where b: "reaches single_work (\<lambda>i. ex_w) (launch ex_fresh ex_missing) b"
    "stuck single_work (\<lambda>i. ex_w) b" using stuck_reached by blast
  have "\<not> wait_over b \<and> (\<forall>i < length ex_missing. pcs b ! i = (if fst (ex_missing ! i) then Spinning else Absent))"
    using missing_thread [OF f b(1)] b(2) by blast
  then have "\<not> wait_over b \<and> pcs b ! 0 = Spinning" by (auto simp: ex_missing_def)
  with b show ?thesis by blast
qed

text \<open>
  With as many announcements already counted as threads should run, the equality test can never succeed.
\<close>

definition stale :: "ipi_state \<Rightarrow> nat \<Rightarrow> nat \<Rightarrow> bool" where
  "stale s n m \<longleftrightarrow> (\<exists>r. ready_to_run s = of_nat r \<and> should_run s = of_nat n \<and> n \<le> r \<and> r + m < 2 ^ 62)"

lemma stale_step:
  assumes "stale s n m" and "counts_from s b" and "length (pcs b) = m" and "\<forall>i < m. \<not> past_barrier (pcs b ! i)"
    and "tstep work ws b b'"
  shows "\<forall>i < m. \<not> past_barrier (pcs b' ! i)"
  using assms(5)
proof (cases rule: tstep.cases)
  case (begin_run i)
  obtain r where r: "ready_to_run s = of_nat r" "should_run s = of_nat n" "n \<le> r" "r + m < 2 ^ 62"
    using assms(1) by (auto simp: stale_def)
  have "count_pc announced b \<noteq> 0"
    using begin_run(2,3) by (auto simp: count_pc_zero pc_simps)
  moreover have "count_pc announced b \<le> m" using count_pc_le [of announced b] assms(3) by simp
  moreover have "(of_nat (r + count_pc announced b) :: u64) = of_nat n"
    using begin_run(4) assms(2) same_params_fields [of s "glob b"] r by (simp add: counts_from_def)
  ultimately show ?thesis using r(3,4) by (simp only: of_nat_word_eq_iff) (simp add: take_bit_nat_eq_self)
qed (use assms(3,4) in \<open>auto simp: nth_list_update pc_simps\<close>)

lemma stale_reaches:
  assumes "stale s n (length ts)"
  shows "reaches work ws (launch s ts) b \<Longrightarrow> \<forall>i < length ts. \<not> past_barrier (pcs b ! i)"
proof (induction rule: rtranclp_induct)
  case base
  show ?case by (auto simp: launch_pcs pc_simps)
next
  case (step b c)
  from counts_from_reaches [OF step.hyps(1)] stale_step [OF assms _ _ step.IH step.hyps(2)]
  show ?case by blast
qed

lemma stale_unfinished:
  assumes "stale s n (length ts)" and "reaches single_work ws (launch s ts) b" and "i < length ts"
  shows "finish (args b ! i) = finish (snd (ts ! i))"
  using single.args_inv_reaches [OF assms(2)] stale_reaches [OF assms(1,2)] assms(3)
  by (cases "pcs b ! i") (auto simp: single.args_inv_def pc_simps)

text \<open>
  counters left over from an earlier benchmark. Nothing resets \<open>ready_to_run\<close> and \<open>complete_run\<close>, so a
  benchmark of no more threads than have announced themselves before in this load never measures anything:
  in every interleaving no thread gets past the barrier, \<open>complete_run\<close> keeps its value, the finish stamps
  keep theirs, and in the end every thread that was created has left through the \<open>BUG\<close> exit.
\<close>

theorem stale_counters:
  assumes "ready_to_run s = of_nat r" and "should_run s = of_nat n" and "n \<le> r"
    and "r + length ts < 2 ^ 62" and "reaches single_work ws (launch s ts) b"
  shows "(\<forall>i < length ts. \<not> past_barrier (pcs b ! i) \<and> finish (args b ! i) = finish (snd (ts ! i))) \<and>
    complete_run (glob b) = complete_run s \<and>
    (stuck single_work ws b \<longrightarrow> (\<forall>i < length ts. pcs b ! i = (if fst (ts ! i) then Bugged else Absent)))"
proof -
  have st: "stale s n (length ts)" using assms(1-4) by (auto simp: stale_def)
  have none: "\<not> past_barrier (pcs b ! i)" if "i < length ts" for i
    using stale_reaches [OF st assms(5)] that by blast
  have b: "counts_from s b" "length (pcs b) = length ts" using counts_from_reaches [OF assms(5)] by simp_all
  have "count_pc counted b = 0"
    using none b(2) by (simp add: count_pc_zero pc_simps)
  then have c: "complete_run (glob b) = complete_run s" using b(1) by (simp add: counts_from_def)
  have f: "finish (args b ! i) = finish (snd (ts ! i))" if "i < length ts" for i
    using stale_unfinished [OF st assms(5)] that by simp
  have "pcs b ! i = (if fst (ts ! i) then Bugged else Absent)" if s: "stuck single_work ws b" and i: "i < length ts" for i
  proof -
    have "pcs b ! i \<noteq> Spinning"
    proof
      assume sp: "pcs b ! i = Spinning"
      have "sint (ready_to_run (glob b)) = int (r + count_pc announced b)"
        using b(1) assms(1,4) count_pc_le [of announced b] b(2) sint_of_nat64 [of "r + count_pc announced b"]
        by (simp add: counts_from_def)
      moreover have "sint (should_run (glob b)) = int n"
        using b(1) same_params_fields [of s "glob b"] assms(2-4) sint_of_nat64 [of n] by (simp add: counts_from_def)
      ultimately show False using stuck_pcs(2) [OF s _ sp] i b(2) assms(3) by simp
    qed
    with stuck_pcs(1) [OF s, of i] none [OF i] same_absent_reaches [OF assms(5)] i b(2)
    show ?thesis by (auto simp: same_absent_def pc_simps)
  qed
  with none f c show ?thesis by blast
qed

definition ex_stale :: ipi_state where
  "ex_stale = ipi_static\<lparr>should_run := 1, ready_to_run := 1, complete_run := 1\<rparr>"

theorem stale_counters_witness:
  "\<exists>b. reaches single_work (\<lambda>i. ex_w) (launch ex_stale [(True, bench_args0)]) b \<and> pcs b ! 0 = Bugged \<and>
     finish (args b ! 0) = 0 \<and> complete_run (glob b) = 1"
proof -
  obtain b where b: "reaches single_work (\<lambda>i. ex_w) (launch ex_stale [(True, bench_args0)]) b"
    "stuck single_work (\<lambda>i. ex_w) b" using stuck_reached by blast
  have "ready_to_run ex_stale = of_nat 1" "should_run ex_stale = of_nat 1" "complete_run ex_stale = 1"
    by (simp_all add: ex_stale_def)
  with stale_counters [OF _ _ _ _ b(1), of 1 1] b show ?thesis by (auto simp: bench_args0_def)
qed

section \<open>What the loading thread does not wait for\<close>

text \<open>
  a timeout leaves threads behind that still write. On a fresh start with all threads created, from every
  state the threads can be in when the loading thread stops waiting, they can go on to a state in which
  \<open>finish\<close> and the other results of every thread are written, although the loading thread has freed the
  arguments by then.
\<close>

theorem late_writes:
  assumes "fresh s (length ts)" and "\<forall>t \<in> set ts. fst t" and "reaches single_work ws (launch s ts) b"
  shows "\<exists>b'. reaches single_work ws b b' \<and>
    (\<forall>i < length ts. finish (args b' ! i) = t_finish (ws i) \<and> run_delay (args b' ! i) = sched_delay (ws i))"
proof -
  obtain b' where b': "reaches single_work ws b b'" "stuck single_work ws b'" using stuck_reached by blast
  have r: "reaches single_work ws (launch s ts) b'" using assms(3) b'(1) by simp
  with fresh_stuck [OF assms(1,2) r b'(2)] single.wait_over_results [OF assms(1) r]
  show ?thesis using b'(1)
    by (intro exI [of _ b']) (simp add: result_of_def ipi_bench_record_run_delay_def)
qed

theorem late_writes_witness:
  "\<exists>b'. reaches single_work (\<lambda>i. ex_w) (launch ex_fresh ex_threads) b' \<and>
     finish (args b' ! 0) = 3700 \<and> finish (args (launch ex_fresh ex_threads) ! 0) = 0"
proof -
  have n: "length ex_threads = 2" "finish (args (launch ex_fresh ex_threads) ! 0) = 0"
    by (simp_all add: ex_threads_def launch_def bench_args0_def)
  have "t_finish ex_w = 3700" by (simp add: ex_w_def)
  with late_writes [OF ex_fresh, of "\<lambda>i. ex_w", OF rtranclp.rtrancl_refl] n show ?thesis by fastforce
qed

text \<open>The wait ends in the step in which the last thread counts itself; that thread has not returned yet.\<close>

lemma wait_ends_before_return:
  assumes "fresh s (length ts)" and "ts \<noteq> []"
  shows "reaches work ws (launch s ts) b \<Longrightarrow> wait_over b \<Longrightarrow>
    \<exists>c i. reaches work ws (launch s ts) c \<and> reaches work ws c b \<and> wait_over c \<and> i < length ts \<and> pcs c ! i = Completed"
proof (induction rule: rtranclp_induct)
  case base
  have "count_pc counted (launch s ts) = 0"
    by (auto simp: count_pc_zero pc_simps) (auto simp: launch_def split_beta split: if_splits)
  then have "\<not> wait_over (launch s ts)"
    using fresh_ready(4) [OF assms(1) counts_from_launch, of ts] assms(2) by (simp add: wait_over_def) (simp add: launch_def)
  then show ?case using base by simp
next
  case (step b c)
  have len: "length (pcs b) = length ts" using counts_from_reaches [OF step.hyps(1)] by simp
  show ?case
  proof (cases "wait_over b")
    case True
    with step show ?thesis by (meson rtranclp.rtrancl_into_rtrancl)
  next
    case False
    from step.hyps(2) have "\<exists>i < length ts. pcs c ! i = Completed"
      using False step.prems len by (cases rule: tstep.cases) (auto simp: wait_over_def isay_def)
    then show ?thesis using step by (meson rtranclp.rtrancl_into_rtrancl rtranclp.rtrancl_refl)
  qed
qed

text \<open>
  the wait can end while a thread has not returned. \<open>complete_run\<close> is counted inside the thread's
  function, so on a fresh start there is a state with the condition of the wait satisfied in which a thread
  still has to call \<open>wake_up_interruptible\<close> and return; the load fails after that in any case and takes the
  code of the module away.
\<close>

theorem unload_race:
  assumes "fresh s (length ts)" and "\<forall>t \<in> set ts. fst t" and "ts \<noteq> []"
  shows "\<exists>b i. reaches work ws (launch s ts) b \<and> wait_over b \<and> i < length ts \<and> pcs b ! i = Completed \<and>
    tstep work ws b (b\<lparr>pcs := (pcs b)[i := Exited]\<rparr>)"
proof -
  obtain b where b: "reaches work ws (launch s ts) b" "stuck work ws b" using stuck_reached by blast
  obtain c i where c: "reaches work ws (launch s ts) c" "wait_over c" "i < length ts" "pcs c ! i = Completed"
    using wait_ends_before_return [OF assms(1,3) b(1)] fresh_stuck [OF assms(1,2) b] by blast
  have "length (pcs c) = length ts" using counts_from_reaches [OF c(1)] by simp
  then have "tstep work ws c (c\<lparr>pcs := (pcs c)[i := Exited]\<rparr>)"
    using tstep.exits [of i c work ws] c(3,4) by simp
  with c show ?thesis by (intro exI [of _ c] exI [of _ i]) simp
qed

theorem unload_race_witness:
  "\<exists>b i. reaches single_work (\<lambda>i. ex_w) (launch ex_fresh ex_threads) b \<and> wait_over b \<and> i < 2 \<and>
     pcs b ! i = Completed"
proof -
  have n: "ex_threads \<noteq> []" "length ex_threads = 2" by (simp_all add: ex_threads_def)
  show ?thesis using unload_race [OF ex_fresh n(1), of single_work "\<lambda>i. ex_w"] n(2) by auto
qed

end
