(* ===== verification/Ipi_Bench.thy ===== *)
theory Ipi_Bench
  imports Ipi_Threads
begin

text \<open>
  \<open>microbenchmark/ipi-bench/ipi_bench.c\<close>: the four benchmarks, \<open>ipi_bench_init\<close> and \<open>ipi_bench_exit\<close>, run
  by the loading thread. Each benchmark sets \<open>should_run\<close>, creates its threads, waits while they run, and
  reports what it finds in their arguments. How the threads and the wait interleave is the schedule of the
  benchmark, an argument of the definitions. A benchmark that stops waiting by its timeout leaves threads
  behind; their steps during a later benchmark of the same load are not modelled, so the properties of several
  benchmarks in one load are about those in which every wait before the last ended with its condition.
\<close>

section \<open>Schedules\<close>

text \<open>
  The next step of thread \<open>i\<close>, as a function: which of the steps of \<open>tstep\<close> it takes depends on where it
  is and, at the barrier, on the counters. A thread that spins, has ended or does not exist leaves the state
  as it is. A schedule is the list of the threads in the order of their steps.
\<close>

definition thread_step ::
  "(worker_env \<Rightarrow> ipi_state \<Rightarrow> bench_args \<Rightarrow> bench_args) \<Rightarrow> (nat \<Rightarrow> worker_env) \<Rightarrow> nat \<Rightarrow> bsys \<Rightarrow> bsys" where
  "thread_step work ws i b =
     (let w = ws i; ba = args b ! i; g = glob b;
          goes = (\<lambda>q ba' g'. b\<lparr>pcs := (pcs b)[i := q], args := (args b)[i := ba'], glob := g'\<rparr>)
      in if length (pcs b) \<le> i then b
         else case pcs b ! i of
           New \<Rightarrow> goes Spinning (ba\<lparr>forked := t_forked w\<rparr>) (g\<lparr>ready_to_run := ready_to_run g + 1\<rparr>)
         | Spinning \<Rightarrow>
             if sint (ready_to_run g) < sint (should_run g) then b else goes Checking ba g
         | Checking \<Rightarrow>
             if ready_to_run g \<noteq> should_run g
             then goes Bugged ba (isay ''ipi_bench: BUG, exit benchmark'' [] g)
             else goes Running (ba\<lparr>start := t_start w\<rparr>) g
         | Running \<Rightarrow>
             goes Finishing (ipi_bench_record_run_delay w ((work w g ba)\<lparr>finish := t_finish w\<rparr>)) g
         | Finishing \<Rightarrow> goes Completed ba (g\<lparr>complete_run := complete_run g + 1\<rparr>)
         | Completed \<Rightarrow> goes Exited ba g
         | _ \<Rightarrow> b)"

definition run_schedule ::
  "(worker_env \<Rightarrow> ipi_state \<Rightarrow> bench_args \<Rightarrow> bench_args) \<Rightarrow> (nat \<Rightarrow> worker_env) \<Rightarrow> nat list \<Rightarrow> bsys \<Rightarrow> bsys" where
  "run_schedule work ws sch b = fold (thread_step work ws) sch b"

lemma thread_step_tstep: "thread_step work ws i b = b \<or> tstep work ws b (thread_step work ws i b)"
proof (cases "i < length (pcs b)")
  case i: True
  show ?thesis
  proof (cases "pcs b ! i")
    case New
    with tstep.announce [OF i New, of work ws] i show ?thesis by (simp add: thread_step_def Let_def)
  next
    case Spinning
    with tstep.leave [OF i Spinning, of work ws] i show ?thesis by (simp add: thread_step_def Let_def)
  next
    case Checking
    with tstep.bug [OF i Checking, of work ws] tstep.begin_run [OF i Checking, of work ws] i
    show ?thesis by (simp add: thread_step_def Let_def)
  next
    case Running
    with tstep.measured [OF i Running, of work ws] i show ?thesis by (simp add: thread_step_def Let_def)
  next
    case Finishing
    with tstep.completes [OF i Finishing, of work ws] i show ?thesis by (simp add: thread_step_def Let_def)
  next
    case Completed
    with tstep.exits [OF i Completed, of work ws] i show ?thesis by (simp add: thread_step_def Let_def)
  qed (simp_all add: thread_step_def Let_def)
qed (simp add: thread_step_def Let_def)

lemma tstep_thread_step: "tstep work ws b b' \<Longrightarrow> \<exists>i. b' = thread_step work ws i b"
proof (induction rule: tstep.induct)
  case (announce i b)
  then show ?case by (intro exI [of _ i]) (simp add: thread_step_def Let_def)
next
  case (leave i b)
  then show ?case by (intro exI [of _ i]) (simp add: thread_step_def Let_def)
next
  case (bug i b)
  then show ?case by (intro exI [of _ i]) (simp add: thread_step_def Let_def)
next
  case (begin_run i b)
  then show ?case by (intro exI [of _ i]) (simp add: thread_step_def Let_def)
next
  case (measured i b)
  then show ?case by (intro exI [of _ i]) (simp add: thread_step_def Let_def)
next
  case (completes i b)
  then show ?case by (intro exI [of _ i]) (simp add: thread_step_def Let_def)
next
  case (exits i b)
  then show ?case by (intro exI [of _ i]) (simp add: thread_step_def Let_def)
qed

lemma run_schedule_reaches: "reaches work ws b (run_schedule work ws sch b)"
proof (induction sch arbitrary: b)
  case (Cons i sch)
  have "reaches work ws b (thread_step work ws i b)"
    using thread_step_tstep [of work ws i b] by auto
  also have "reaches work ws (thread_step work ws i b) (run_schedule work ws sch (thread_step work ws i b))"
    by (rule Cons.IH)
  finally show ?case by (simp add: run_schedule_def)
qed (simp add: run_schedule_def)

text \<open>
  the scheduler and the step relation describe the same runs: the states that the threads of a benchmark
  can reach by steps of \<open>tstep\<close> are exactly the states to which some schedule leads.
\<close>

theorem schedules_are_runs:
  "reaches work ws b b' \<longleftrightarrow> (\<exists>sched. b' = run_schedule work ws sched b)"
proof
  show "reaches work ws b b' \<Longrightarrow> \<exists>sched. b' = run_schedule work ws sched b"
  proof (induction rule: rtranclp_induct)
    case base
    show ?case by (intro exI [of _ "[]"]) (simp add: run_schedule_def)
  next
    case (step c d)
    then obtain sch i where "c = run_schedule work ws sch b" "d = thread_step work ws i c"
      using tstep_thread_step by blast
    then show ?case by (intro exI [of _ "sch @ [i]"]) (simp add: run_schedule_def)
  qed
qed (auto simp: run_schedule_reaches)

section \<open>Waiting for the threads\<close>

record phase =
  wenvs :: "nat \<Rightarrow> worker_env"   \<comment> \<open>of thread \<open>i\<close>\<close>
  sched :: "nat list"             \<comment> \<open>the steps of the threads until the loading thread goes on\<close>

text \<open>
  \<open>ipi_bench_wait_all\<close>: the threads go on until the loading thread does. It tests the condition first and
  then whenever it is woken up, and gives up after the timeout; so the schedule may end at any time, and the
  return of the function does not mean that the condition holds.
\<close>

definition ipi_bench_wait_all ::
  "(worker_env \<Rightarrow> ipi_state \<Rightarrow> bench_args \<Rightarrow> bench_args) \<Rightarrow> phase \<Rightarrow> bsys \<Rightarrow> bsys" where
  "ipi_bench_wait_all work ph b = run_schedule work (wenvs ph) (sched ph) b"

text \<open>
  Creating the threads, one after the other; the result of each creation is ignored by the code, and kept
  here to say which threads exist.
\<close>

definition create_all ::
  "(bench_args \<Rightarrow> ipi_state \<Rightarrow> (int \<times> bench_args \<times> ipi_state) res) \<Rightarrow>
   bench_args list \<Rightarrow> ipi_state \<Rightarrow> ((bool \<times> bench_args) list \<times> ipi_state) res" where
  "create_all create bas s =
     foldR (\<lambda>ba (ts, s). bindR (create ba s) (\<lambda>(ret, ba', s'). Inr (ts @ [(ret = 0, ba')], s'))) bas ([], s)"

definition run_threads ::
  "(worker_env \<Rightarrow> ipi_state \<Rightarrow> bench_args \<Rightarrow> bench_args) \<Rightarrow> phase \<Rightarrow> (bool \<times> bench_args) list \<Rightarrow>
   ipi_state \<Rightarrow> ipi_state \<times> bench_args list" where
  "run_threads work ph ts s =
     (let b = ipi_bench_wait_all work ph (launch s ts) in (glob b, args b))"

section \<open>The benchmarks\<close>

definition new_args :: "int \<Rightarrow> int \<Rightarrow> bench_args" where
  "new_args src dst = bench_args0\<lparr>ba_src := src, ba_dst := dst\<rparr>"

definition no_memory :: "ipi_state \<Rightarrow> ipi_state" where
  "no_memory s = isay ''ipi_bench: no enough memory'' [] s"

definition ipi_bench_single ::
  "ipi_env \<Rightarrow> phase \<Rightarrow> int \<Rightarrow> int \<Rightarrow> ipi_state \<Rightarrow> (int \<times> ipi_state) res" where
  "ipi_bench_single env ph src dst s =
     (if \<not> kzalloc_ok env 1 then Inr (-1, no_memory s)
      else
        bindR (create_all (ipi_bench_one_task env) [new_args src dst] (s\<lparr>should_run := 1\<rparr>)) (\<lambda>(ts, s1).
        let (s2, bas) = run_threads single_work ph ts s1
        in bindR (foldR (ipi_bench_report_single env) bas s2) (\<lambda>s3. Inr (0, s3))))"

definition ipi_bench_self :: "ipi_env \<Rightarrow> phase \<Rightarrow> int \<Rightarrow> ipi_state \<Rightarrow> (int \<times> ipi_state) res" where
  "ipi_bench_self env ph src s =
     (if \<not> kzalloc_ok env 1 then Inr (-1, no_memory s)
      else
        bindR (create_all (ipi_bench_one_task env) [new_args src src] (s\<lparr>should_run := 1\<rparr>)) (\<lambda>(ts, s1).
        let (s2, bas) = run_threads single_work ph ts s1
        in bindR (foldR (ipi_bench_report_single env) bas s2) (\<lambda>s3. Inr (0, s3))))"

text \<open>
  The elapsed time is the difference of two calls of \<open>getns\<close>; \<open>t\<close> numbers the calls of the loading thread.
\<close>

definition ipi_bench_mesh ::
  "ipi_env \<Rightarrow> phase \<Rightarrow> nat \<Rightarrow> int \<Rightarrow> int \<Rightarrow> ipi_state \<Rightarrow> (int \<times> ipi_state) res" where
  "ipi_bench_mesh env ph t prs across s =
     (if \<not> kzalloc_ok env prs then Inr (-1, no_memory s)
      else
        let s1 = s\<lparr>should_run := ulong_of_int prs\<rparr>
        in bindR (build_pairs env across (nat prs) [] (-1) ({}, draws s1)) (\<lambda>(r, k).
           let s2 = s1\<lparr>draws := k\<rparr>
           in case r of
                None \<Rightarrow> Inr (-1, isay ''ipi_bench: init mesh failed'' [] s2)
              | Some ps \<Rightarrow>
                  bindR (create_all (ipi_bench_one_task env) (map (\<lambda>(a, b). new_args a b) ps) s2) (\<lambda>(ts, s3).
                  let (s4, bas) = run_threads single_work ph ts s3;
                      elapsed = clock env (Suc t) - clock env t
                  in bindR (foldR (ipi_bench_report_single env) bas s4) (\<lambda>s5.
                     bindR (mesh_throughput prs (loops s5) elapsed) (\<lambda>x.
                     Inr (0, isay ''ipi_bench: throughput %ld ipi/s'' [ALong x] s5))))))"

definition ipi_bench_all ::
  "ipi_env \<Rightarrow> phase \<Rightarrow> nat \<Rightarrow> int \<Rightarrow> ipi_state \<Rightarrow> (int \<times> ipi_state) res" where
  "ipi_bench_all env ph t bcs s =
     (if \<not> kzalloc_ok env bcs then Inr (-1, no_memory s)
      else
        let s1 = s\<lparr>should_run := ulong_of_int bcs\<rparr>;
            (r, k) = build_workers env (nat bcs) [] ({}, draws s1);
            s2 = s1\<lparr>draws := k\<rparr>
        in case r of
             None \<Rightarrow> Inr (-1, isay ''ipi_bench: init broadcast workers failed'' [] s2)
           | Some srcs \<Rightarrow>
               bindR (create_all (ipi_bench_all_task env) (map (\<lambda>a. new_args a 0) srcs) s2) (\<lambda>(ts, s3).
               let (s4, bas) = run_threads many_work ph ts s3;
                   elapsed = clock env (Suc t) - clock env t
               in bindR (foldR (ipi_bench_report_all env) bas s4) (\<lambda>s5.
                  bindR (all_throughput bcs (word_of_int (num_online_cpus env)) (loops s5) elapsed) (\<lambda>x.
                  Inr (0, isay ''ipi_bench: throughput %ld ipi/s'' [ALong x] s5)))))"

text \<open>
  Loading the module: the benchmarks whose option bits are set, in the order of the bits. \<open>phs\<close> gives the
  phase of each; \<open>None\<close> is a load that hangs in the choice of the CPUs.
\<close>

definition run_if :: "bool \<Rightarrow> (ipi_state \<Rightarrow> (int \<times> ipi_state) res) \<Rightarrow> ipi_state \<Rightarrow> ipi_state res" where
  "run_if b f s = (if b then bindR (f s) (\<lambda>(_, s'). Inr s') else Inr s)"

definition option_set :: "int \<Rightarrow> int \<Rightarrow> bool" where
  "option_set opts flag \<longleftrightarrow> and opts flag \<noteq> 0"

definition ipi_bench_init ::
  "ipi_env \<Rightarrow> (nat \<Rightarrow> phase) \<Rightarrow> ipi_state \<Rightarrow> (int \<times> ipi_state) res option" where
  "ipi_bench_init env phs s =
     (if options s = 0 then Some (Inr (-1, ipi_bench_options s))
      else Option.bind (ipi_bench_init_params (rnd env) (num_online_cpus env) s) (\<lambda>(ret, s1).
        if ret < 0 then Some (Inr (-1, s1))
        else Some (
          bindR (run_if (option_set (options s1) SELF_IPI) (ipi_bench_self env (phs 0) (srccpu s1)) s1) (\<lambda>s2.
          bindR (run_if (option_set (options s2) SINGLE_IPI)
                  (ipi_bench_single env (phs 1) (srccpu s2) (dstcpu s2)) s2) (\<lambda>s3.
          bindR (run_if (option_set (options s3) MESH_IPI)
                  (ipi_bench_mesh env (phs 2) 0 (pairs s3) (acrossnuma s3)) s3) (\<lambda>s4.
          bindR (run_if (option_set (options s4) ALL_IPI)
                  (ipi_bench_all env (phs 3) 2 (broadcasts s4)) s4) (\<lambda>s5.
          Inr (-1, s5))))))))"

definition ipi_bench_exit :: "ipi_state \<Rightarrow> ipi_state" where
  "ipi_bench_exit s = isay ''ipi_bench: %s'' [AStr ''ipi_bench_exit''] s"

end
