(* ===== verification/Ipi_Load.thy ===== *)
theory Ipi_Load
  imports Ipi_Bench
begin

text \<open>
  \<open>microbenchmark/ipi-bench/ipi_bench.c\<close>: what the benchmarks report, for every schedule of their threads,
  and what a load of the module does. The lemmas of \<open>Ipi_Threads\<close> are carried through the creation of the
  threads and the reports.
\<close>

section \<open>Creating the threads and reporting\<close>

definition named :: "bench_args \<Rightarrow> bench_args" where
  "named ba = ba\<lparr>ba_name := snprintf 64 (''ipi_bench_'' @ dec (ba_src ba) @ ''_'' @ dec (ba_dst ba))\<rparr>"

definition prepare_lines :: "ipi_env \<Rightarrow> bench_args \<Rightarrow> log_line list" where
  "prepare_lines env ba =
     (''ipi_bench: prepare single IPI from CPU[%3d] to CPU[%3d]'', [AInt (ba_src ba), AInt (ba_dst ba)]) #
     (if kthread_ok env (ba_src ba) then [] else [(''ipi_bench: create kthread failed'', [])])"

definition report_line :: "ipi_env \<Rightarrow> ipi_state \<Rightarrow> bench_args \<Rightarrow> log_line" where
  "report_line env s ba =
     (if finish ba = 0 then (''ipi_bench: too many loops'', [])
      else (single_fmt,
        [AInt (ba_src ba), AInt (node_of env (ba_src ba)), AInt (ba_dst ba), AInt (node_of env (ba_dst ba)),
         AInt (wait s), AInt (loops s),
         ALong (forked ba div 1000), ALong (start ba div 1000), ALong (finish ba div 1000),
         ALong (net_elapsed ba div 1000), ALong (ipitime ba div 1000), ALong (run_delay ba div 1000),
         ALong (net_elapsed ba div ulong_of_int (loops s)), ALong (ipitime ba div ulong_of_int (loops s))]))"

definition valid_cpus :: "bench_args \<Rightarrow> bool" where
  "valid_cpus ba \<longleftrightarrow> 0 \<le> ba_src ba \<and> 0 \<le> ba_dst ba"

lemma create_one:
  assumes "0 \<le> ba_src ba"
  shows "ipi_bench_one_task env ba s =
    Inr (if kthread_ok env (ba_src ba) then 0 else -1, named ba, s\<lparr>ilog := ilog s @ prepare_lines env ba\<rparr>)"
  using assms by (simp add: ipi_bench_one_task_def cpu_to_node_def named_def prepare_lines_def isay_def Let_def)

text \<open>Creation and report of all threads, for either kind of thread.\<close>

lemma create_all_each:
  assumes "\<And>ba s. ba \<in> set bas \<Longrightarrow>
    create ba s = Inr (if ok ba then 0 else -1, nm ba, s\<lparr>ilog := ilog s @ ls ba\<rparr>)"
  shows "create_all create bas s = Inr (map (\<lambda>ba. (ok ba, nm ba)) bas, s\<lparr>ilog := ilog s @ concat (map ls bas)\<rparr>)"
proof -
  have "foldR (\<lambda>ba (ts, s). bindR (create ba s) (\<lambda>(ret, ba', s'). Inr (ts @ [(ret = 0, ba')], s'))) bas (ts, s) =
      Inr (ts @ map (\<lambda>ba. (ok ba, nm ba)) bas, s\<lparr>ilog := ilog s @ concat (map ls bas)\<rparr>)" for ts
    using assms by (induction bas arbitrary: ts s) simp_all
  then show ?thesis by (simp add: create_all_def)
qed

lemma report_each:
  assumes "\<And>ba g. ba \<in> set bas \<Longrightarrow> loops g = loops s \<Longrightarrow> wait g = wait s \<Longrightarrow>
    report ba g = Inr (g\<lparr>ilog := ilog g @ [ln ba]\<rparr>)"
  shows "loops g = loops s \<Longrightarrow> wait g = wait s \<Longrightarrow> foldR report bas g = Inr (g\<lparr>ilog := ilog g @ map ln bas\<rparr>)"
  using assms by (induction bas arbitrary: g) simp_all

lemma create_all_singles:
  assumes "\<forall>ba \<in> set bas. 0 \<le> ba_src ba"
  shows "create_all (ipi_bench_one_task env) bas s =
    Inr (map (\<lambda>ba. (kthread_ok env (ba_src ba), named ba)) bas,
      s\<lparr>ilog := ilog s @ concat (map (prepare_lines env) bas)\<rparr>)"
  using assms by (intro create_all_each) (simp add: create_one)

lemma report_one:
  assumes "valid_cpus ba" and "ulong_of_int (loops s) \<noteq> 0"
  shows "ipi_bench_report_single env ba s = Inr (s\<lparr>ilog := ilog s @ [report_line env s ba]\<rparr>)"
  using assms
  by (simp add: ipi_bench_report_single_def report_line_def valid_cpus_def cpu_to_node_def div_loops_def isay_def Let_def)

lemma report_line_cong:
  "loops g = loops s \<Longrightarrow> wait g = wait s \<Longrightarrow> report_line env g = report_line env s"
  by (rule ext) (simp add: report_line_def)

lemma report_all:
  assumes "\<forall>ba \<in> set bas. valid_cpus ba" and "ulong_of_int (loops s) \<noteq> 0"
  shows "foldR (ipi_bench_report_single env) bas s =
    Inr (s\<lparr>ilog := ilog s @ map (report_line env s) bas\<rparr>)"
proof (rule report_each [where s = s])
  fix ba and g :: ipi_state assume "ba \<in> set bas" "loops g = loops s" "wait g = wait s"
  with assms show "ipi_bench_report_single env ba g = Inr (g\<lparr>ilog := ilog g @ [report_line env s ba]\<rparr>)"
    by (simp add: report_one report_line_cong [of g s])
qed simp_all

text \<open>The CPUs a thread works for do not change.\<close>

lemma single_work_cpus: "ba_src (single_work w s ba) = ba_src ba" "ba_dst (single_work w s ba) = ba_dst ba"
  by (simp_all add: single_work_def ipi_bench_one_def split_beta Let_def)

lemma args_at_cpus:
  "ba_src (args_at single_work w s ba q) = ba_src ba" "ba_dst (args_at single_work w s ba q) = ba_dst ba"
  by (simp_all add: result_of_def began_def ipi_bench_record_run_delay_def single_work_cpus)

lemma run_valid_cpus:
  assumes "reaches single_work ws (launch s ts) b" and "\<forall>t \<in> set ts. valid_cpus (snd t)"
  shows "\<forall>ba \<in> set (args b). valid_cpus ba"
proof
  fix ba assume "ba \<in> set (args b)"
  then obtain i where i: "i < length (args b)" "ba = args b ! i" by (auto simp: in_set_conv_nth)
  have "length (args b) = length ts" using counts_from_reaches [OF assms(1)] by (simp add: counts_from_def)
  with i have "i < length ts" "ba = args_at single_work (ws i) s (snd (ts ! i)) (pcs b ! i)"
    using single.args_inv_reaches [OF assms(1)] by (auto simp: single.args_inv_def)
  with assms(2) show "valid_cpus ba" unfolding valid_cpus_def args_at_cpus
    by (simp only: args_at_cpus) (auto simp: valid_cpus_def)
qed

text \<open>The threads write to the log only on their way out through the \<open>BUG\<close> exit.\<close>

definition bug_line :: log_line where
  "bug_line = (''ipi_bench: BUG, exit benchmark'', [])"

definition is_bugged :: "pc \<Rightarrow> bool" where
  "is_bugged q \<longleftrightarrow> q = Bugged"

lemma log_step:
  assumes "tstep work ws b b'" and "ilog (glob b) = l @ replicate (count_pc is_bugged b) bug_line"
  shows "ilog (glob b') = l @ replicate (count_pc is_bugged b') bug_line"
  using assms
proof (cases rule: tstep.cases)
  case (announce i)
  with assms(2) count_pc_move [of i b b' Spinning is_bugged] show ?thesis by (simp add: is_bugged_def)
next
  case (leave i)
  with assms(2) count_pc_move [of i b b' Checking is_bugged] show ?thesis by (simp add: is_bugged_def)
next
  case (bug i)
  then have "count_pc is_bugged b' = Suc (count_pc is_bugged b)"
    using count_pc_move [of i b b' Bugged is_bugged] by (simp add: is_bugged_def)
  with bug assms(2) show ?thesis
    by (simp add: isay_def bug_line_def replicate_append_same)
next
  case (begin_run i)
  with assms(2) count_pc_move [of i b b' Running is_bugged] show ?thesis by (simp add: is_bugged_def)
next
  case (measured i)
  with assms(2) count_pc_move [of i b b' Finishing is_bugged] show ?thesis by (simp add: is_bugged_def)
next
  case (completes i)
  with assms(2) count_pc_move [of i b b' Completed is_bugged] show ?thesis by (simp add: is_bugged_def)
next
  case (exits i)
  with assms(2) count_pc_move [of i b b' Exited is_bugged] show ?thesis by (simp add: is_bugged_def)
qed

lemma log_reaches:
  "reaches work ws (launch s ts) b \<Longrightarrow> ilog (glob b) = ilog s @ replicate (count_pc is_bugged b) bug_line"
proof (induction rule: rtranclp_induct)
  case base
  have "count_pc is_bugged (launch s ts) = 0"
    by (auto simp: count_pc_zero is_bugged_def) (auto simp: launch_def split_beta split: if_splits)
  then show ?case by (simp add: launch_def)
qed (rule log_step)

lemma fresh_log:
  assumes "fresh s (length ts)" and "reaches work ws (launch s ts) b"
  shows "ilog (glob b) = ilog s"
proof -
  have "count_pc is_bugged b = 0"
    using barrier_inv_reaches [OF assms] by (auto simp: barrier_inv_def count_pc_zero is_bugged_def)
  with log_reaches [OF assms(2)] show ?thesis by simp
qed

section \<open>A benchmark of one thread\<close>

definition single_start :: "ipi_env \<Rightarrow> int \<Rightarrow> int \<Rightarrow> ipi_state \<Rightarrow> bsys" where
  "single_start env src dst s =
     launch (s\<lparr>should_run := 1, ilog := ilog s @ prepare_lines env (new_args src dst)\<rparr>)
       [(kthread_ok env src, named (new_args src dst))]"

lemma new_args_cpus [simp]: "ba_src (new_args a b) = a" "ba_dst (new_args a b) = b" "finish (new_args a b) = 0"
  by (simp_all add: new_args_def bench_args0_def)

lemma named_fields [simp]: "ba_src (named ba) = ba_src ba" "ba_dst (named ba) = ba_dst ba" "finish (named ba) = finish ba"
  by (simp_all add: named_def)

definition single_end :: "ipi_env \<Rightarrow> phase \<Rightarrow> int \<Rightarrow> int \<Rightarrow> ipi_state \<Rightarrow> bsys" where
  "single_end env ph src dst s = ipi_bench_wait_all single_work ph (single_start env src dst s)"

lemma single_end_reaches:
  "reaches single_work (wenvs ph) (single_start env src dst s) (single_end env ph src dst s)"
  unfolding single_end_def ipi_bench_wait_all_def by (rule run_schedule_reaches)

lemma single_end_fields:
  "loops (glob (single_end env ph src dst s)) = loops s" "wait (glob (single_end env ph src dst s)) = wait s"
  "options (glob (single_end env ph src dst s)) = options s"
  "should_run (glob (single_end env ph src dst s)) = 1"
  "srccpu (glob (single_end env ph src dst s)) = srccpu s" "dstcpu (glob (single_end env ph src dst s)) = dstcpu s"
  using counts_from_reaches [OF single_end_reaches [of ph env src dst s, unfolded single_start_def]]
    same_params_fields [of "s\<lparr>should_run := 1, ilog := ilog s @ prepare_lines env (new_args src dst)\<rparr>"
      "glob (single_end env ph src dst s)"]
  by (simp_all add: counts_from_def)

definition reported :: "ipi_env \<Rightarrow> ipi_state \<Rightarrow> bsys \<Rightarrow> ipi_state" where
  "reported env s b = (glob b)\<lparr>ilog := ilog (glob b) @ map (report_line env s) (args b)\<rparr>"

lemma single_bench:
  assumes "kzalloc_ok env 1" and "0 \<le> src" and "0 \<le> dst" and "ulong_of_int (loops s) \<noteq> 0"
  shows "ipi_bench_single env ph src dst s = Inr (0, reported env s (single_end env ph src dst s))"
proof -
  define b where "b = single_end env ph src dst s"
  have "\<forall>ba \<in> set (args b). valid_cpus ba"
    unfolding b_def using assms(2,3)
    by (intro run_valid_cpus [OF single_end_reaches [unfolded single_start_def]]) (simp add: valid_cpus_def)
  moreover have "report_line env (glob b) = report_line env s"
    by (rule report_line_cong) (simp_all add: b_def single_end_fields)
  moreover have "ipi_bench_single env ph src dst s =
      bindR (foldR (ipi_bench_report_single env) (args b) (glob b)) (\<lambda>s3. Inr (0, s3))"
    using assms(1,2)
    by (simp add: ipi_bench_single_def create_all_singles run_threads_def b_def single_end_def single_start_def Let_def)
  moreover have "loops (glob b) = loops s" by (simp add: b_def single_end_fields)
  ultimately show ?thesis using assms(4) by (simp add: report_all reported_def b_def)
qed

text \<open>What such a benchmark does to the counters and how often it reports a measurement.\<close>

definition measurements :: "ipi_state \<Rightarrow> nat" where
  "measurements s = length (filter (\<lambda>l. fst l = single_fmt) (ilog s))"

lemma report_line_fmt:
  "fst (report_line env s ba) = (if finish ba = 0 then ''ipi_bench: too many loops'' else single_fmt)"
  by (simp add: report_line_def)

lemma fmts_differ:
  "single_fmt \<noteq> ''ipi_bench: too many loops''" "fst bug_line \<noteq> single_fmt"
  "l \<in> set (prepare_lines env ba) \<Longrightarrow> fst l \<noteq> single_fmt"
  by (auto simp: single_fmt_def bug_line_def prepare_lines_def split: if_splits)

lemma measurements_single:
  assumes "reaches single_work ws (single_start env src dst s) b"
  shows "measurements (reported env s b) =
    measurements s + (if finish (args b ! 0) = 0 then 0 else 1)"
proof -
  have "length (args b) = 1"
    using counts_from_reaches [OF assms [unfolded single_start_def]] by (simp add: counts_from_def)
  then obtain ba where ba: "args b = [ba]" by (auto simp: length_Suc_conv)
  have none: "filter (\<lambda>l. fst l = single_fmt) (prepare_lines env (new_args src dst)) = []"
    "filter (\<lambda>l. fst l = single_fmt) (replicate n bug_line) = []" for n
    using fmts_differ(2,3) by (auto simp: filter_empty_conv)
  show ?thesis
    using log_reaches [OF assms [unfolded single_start_def]] fmts_differ(1)
    by (simp add: measurements_def reported_def none ba report_line_fmt)
qed

text \<open>
  Either the thread announced itself, or the benchmark left the counters as they were and reports nothing.
\<close>

lemma single_ready:
  assumes "reaches single_work ws (single_start env src dst s) b"
  shows "ready_to_run (glob b) = ready_to_run s + 1 \<or>
    ready_to_run (glob b) = ready_to_run s \<and> finish (args b ! 0) = 0"
proof -
  note r = assms [unfolded single_start_def]
  have b: "length (pcs b) = 1" "ready_to_run (glob b) = ready_to_run s + of_nat (count_pc announced b)"
    using counts_from_reaches [OF r] by (simp_all add: counts_from_def)
  have "count_pc announced b = 0 \<or> count_pc announced b = 1"
    using count_pc_le [of announced b] b(1) by auto
  moreover have "finish (args b ! 0) = 0" if "count_pc announced b = 0"
    using that b(1) single.args_inv_reaches [OF r]
    by (auto simp: count_pc_zero single.args_inv_def pc_simps)
  ultimately show ?thesis using b(2) by auto
qed

lemma single_stale:
  assumes "reaches single_work ws (single_start env src dst s) b" and "ready_to_run s = of_nat r"
    and "1 \<le> r" and "r < 2 ^ 61"
  shows "finish (args b ! 0) = 0"
proof -
  have "stale (s\<lparr>should_run := 1, ilog := ilog s @ prepare_lines env (new_args src dst)\<rparr>) 1 1"
    using assms(2-4) by (auto simp: stale_def intro!: exI [of _ r])
  then show ?thesis
    using stale_unfinished [OF _ assms(1) [unfolded single_start_def], of 1 0] by simp
qed

text \<open>
  the benchmark of one pair of CPUs, for every schedule. When the counters are those of a fresh load and
  its thread completes in time, the log has gained the line that announces the pair and the report of exactly
  what \<open>ipi_bench_one\<close> measured; the counters are left at 1.
\<close>

theorem single_bench_measures:
  assumes "kzalloc_ok env 1" and "0 \<le> src" and "0 \<le> dst" and "0 < loops s" and "loops s < 2 ^ 31"
    and "ready_to_run s = 0" and "complete_run s = 0"
  shows "\<exists>s'. ipi_bench_single env ph src dst s = Inr (0, s') \<and>
    (complete_run s' = 1 \<longrightarrow> ready_to_run s' = 1 \<and> kthread_ok env src \<and>
      ilog s' = ilog s @
        [(''ipi_bench: prepare single IPI from CPU[%3d] to CPU[%3d]'', [AInt src, AInt dst]),
         report_line env s ((snd (ipi_bench_one (wenvs ph 0) s
             ((named (new_args src dst))\<lparr>forked := t_forked (wenvs ph 0), start := t_start (wenvs ph 0)\<rparr>)))
           \<lparr>finish := t_finish (wenvs ph 0), run_delay := sched_delay (wenvs ph 0)\<rparr>)])"
proof -
  let ?t = "[(kthread_ok env src, named (new_args src dst))]"
  have "ulong_of_int (loops s) \<noteq> 0" using assms(4,5) by (subst ulong_of_int_zero) auto
  then have out: "ipi_bench_single env ph src dst s = Inr (0, reported env s (single_end env ph src dst s))"
    by (rule single_bench [OF assms(1-3)])
  define b where "b = single_end env ph src dst s"
  have r: "reaches single_work (wenvs ph) (single_start env src dst s) b"
    unfolding b_def by (rule single_end_reaches)
  define s1 where "s1 = s\<lparr>should_run := 1, ilog := ilog s @ prepare_lines env (new_args src dst)\<rparr>"
  have r1: "reaches single_work (wenvs ph) (launch s1 ?t) b" using r by (simp add: single_start_def s1_def)
  have f: "fresh s1 (length ?t)" using assms(6,7) by (simp add: fresh_def s1_def)
  have log: "ilog (glob b) = ilog s @ prepare_lines env (new_args src dst)"
    using fresh_log [OF f r1] by (simp add: s1_def)
  have one: "ipi_bench_one w s1 ba = ipi_bench_one w s ba" for w ba
    by (simp add: ipi_bench_one_def s1_def)
  have "should_run (glob b) = 1" by (simp add: b_def single_end_fields)
  then have over: "wait_over b" if "complete_run (glob b) = 1" using that by (simp add: wait_over_def)
  have comp: "ready_to_run (glob b) = 1 \<and> kthread_ok env src \<and> args b =
      [(snd (ipi_bench_one (wenvs ph 0) s
             ((named (new_args src dst))\<lparr>forked := t_forked (wenvs ph 0), start := t_start (wenvs ph 0)\<rparr>)))
           \<lparr>finish := t_finish (wenvs ph 0), run_delay := sched_delay (wenvs ph 0)\<rparr>]"
    if "complete_run (glob b) = 1"
  proof -
    note all_done = single.wait_over_results [OF f r1 over [OF that]]
    have "kthread_ok env src" using missing_not_past(1) [OF f _ r1] over [OF that] by auto
    moreover have "ready_to_run (glob b) = 1"
      using all_announced(2) [OF f r1, of 0] all_done \<open>should_run (glob b) = 1\<close> by (auto simp: pc_simps)
    ultimately show ?thesis using all_done
      by (simp add: one result_of_def began_def single_work_def ipi_bench_record_run_delay_def)
  qed
  show ?thesis
    using comp log out by (simp add: prepare_lines_def reported_def flip: b_def)
qed

definition ex_phase :: phase where
  "ex_phase = \<lparr>wenvs = (\<lambda>i. ex_w), sched = [0, 0, 0, 0, 0, 0]\<rparr>"

lemma ex_phase [simp]: "wenvs ex_phase = (\<lambda>i. ex_w)" "sched ex_phase = [0, 0, 0, 0, 0, 0]"
  by (simp_all add: ex_phase_def)

lemma ex_s_fields: "loops ex_s = 3" "ready_to_run ex_s = 0" "complete_run ex_s = 0" "ilog ex_s = []"
  by (simp_all add: ex_s_def ipi_static_def)

lemma ex_end: "complete_run (glob (single_end ex_ipi ex_phase 1 2 ex_s)) = 1"
  by (simp add: single_end_def ipi_bench_wait_all_def run_schedule_def single_start_def launch_def
      thread_step_def Let_def ex_s_fields ex_ipi_def)

theorem single_bench_measures_witness:
  "\<exists>s'. ipi_bench_single ex_ipi ex_phase 1 2 ex_s = Inr (0, s') \<and> ready_to_run s' = 1 \<and> length (ilog s') = 2"
proof -
  have env: "kzalloc_ok ex_ipi 1" "ulong_of_int (loops ex_s) \<noteq> 0"
    by (simp_all add: ex_ipi_def ex_s_fields ulong_of_int_def)
  show ?thesis
    using single_bench_measures [OF env(1), of 1 2 ex_s ex_phase] ex_s_fields ex_end
      single_bench [OF env(1) _ _ env(2), of 1 2 ex_phase]
    by (auto simp: reported_def)
qed

lemma self_is_single: "ipi_bench_self env ph src s = ipi_bench_single env ph src src s"
  by (simp add: ipi_bench_self_def ipi_bench_single_def)

text \<open>
  C32: one load of the module with \<open>options=3\<close>, the self IPI and the single IPI benchmark, reports at most one
  measurement, whatever the schedules: when the thread of the first has announced itself, the second can only
  report that it did too many loops.
\<close>

theorem one_measurement_per_load:
  assumes "smp env" and "kzalloc_ok env 1" and "0 < lps" and "lps < 2 ^ 31"
    and "0 \<le> src" and "src < num_online_cpus env" and "0 \<le> dst" and "dst < num_online_cpus env" and "src \<noteq> dst"
  shows "\<exists>s'. ipi_bench_init env phs (ipi_static\<lparr>loops := lps, srccpu := src, dstcpu := dst, options := 3\<rparr>) =
      Some (Inr (-1, s')) \<and> measurements s' \<le> 1"
proof -
  let ?s = "ipi_static\<lparr>loops := lps, srccpu := src, dstcpu := dst, options := 3\<rparr>"
  define s1 where "s1 = ?s\<lparr>pairs := num_online_cpus env div 2, broadcasts := 1\<rparr>"
  have lps: "ulong_of_int lps \<noteq> 0" using assms(3,4) by (subst ulong_of_int_zero) auto
  have init: "ipi_bench_init_params (rnd env) (num_online_cpus env) ?s = Some (0, s1)"
    using assms(1,5-9)
    by (simp add: ipi_bench_init_params_def draw_srccpu_def draw_dstcpu_def redraw_stop smp_def ipi_static_def s1_def)
  have bits: "option_set 3 SELF_IPI" "option_set 3 SINGLE_IPI" "\<not> option_set 3 MESH_IPI" "\<not> option_set 3 ALL_IPI"
    by (simp_all add: option_set_def SELF_IPI_def SINGLE_IPI_def MESH_IPI_def ALL_IPI_def)
  have s1: "loops s1 = lps" "ready_to_run s1 = 0" "measurements s1 = 0" "options s1 = 3" "srccpu s1 = src"
    by (simp_all add: s1_def ipi_static_def measurements_def)
  define s2 where "s2 = reported env s1 (single_end env (phs 0) src src s1)"
  define s3 where "s3 = reported env s2 (single_end env (phs 1) src dst s2)"
  have s2: "loops s2 = lps" "options s2 = 3" "srccpu s2 = src" "dstcpu s2 = dst" "options s3 = 3"
    by (simp_all add: s2_def s3_def reported_def single_end_fields s1) (simp add: s1_def)
  have first: "ipi_bench_self env (phs 0) src s1 = Inr (0, s2)"
    unfolding self_is_single s2_def using assms(2,5) lps s1(1) by (intro single_bench) auto
  have second: "ipi_bench_single env (phs 1) src dst s2 = Inr (0, s3)"
    unfolding s3_def using assms(2,5,7) lps s2(1) by (intro single_bench) auto
  have "measurements s3 \<le> 1"
    using single_ready [OF single_end_reaches [of "phs 0" env src src s1]]
  proof
    assume "ready_to_run (glob (single_end env (phs 0) src src s1)) = ready_to_run s1 + 1"
    then have "ready_to_run s2 = of_nat 1" by (simp add: s2_def reported_def s1(2))
    then have "measurements s3 = measurements s2"
      using measurements_single [OF single_end_reaches [of "phs 1" env src dst s2]]
        single_stale [where r = 1, OF single_end_reaches [of "phs 1" env src dst s2]]
      by (simp add: s3_def)
    then show ?thesis
      using measurements_single [OF single_end_reaches [of "phs 0" env src src s1]] s1(3) by (simp add: s2_def)
  next
    assume "ready_to_run (glob (single_end env (phs 0) src src s1)) = ready_to_run s1 \<and>
      finish (args (single_end env (phs 0) src src s1) ! 0) = 0"
    then have "measurements s2 = 0"
      using measurements_single [OF single_end_reaches [of "phs 0" env src src s1]] s1(3) by (simp add: s2_def)
    then show ?thesis
      using measurements_single [OF single_end_reaches [of "phs 1" env src dst s2]] by (simp add: s3_def)
  qed
  moreover have "ipi_bench_init env phs ?s = Some (Inr (-1, s3))"
  proof -
    have "options ?s = 3" by simp
    then show ?thesis
      by (simp add: ipi_bench_init_def init s1(4,5) s2 bits run_if_def first second [unfolded One_nat_def])
  qed
  ultimately show ?thesis by blast
qed

theorem one_measurement_per_load_witness:
  "\<exists>s'. ipi_bench_init ex_ipi (\<lambda>i. ex_phase) (ipi_static\<lparr>loops := 3, srccpu := 1, dstcpu := 2, options := 3\<rparr>) =
      Some (Inr (-1, s')) \<and> measurements s' \<le> 1"
  by (rule one_measurement_per_load) (simp_all add: ex_smp, simp_all add: ex_ipi_def)

text \<open>
  a load of the module never succeeds: when \<open>ipi_bench_init\<close> returns it returns -1. With \<open>options=0\<close> it
  only prints the list of the benchmarks, and with parameters it refuses it has started no thread; in both
  cases the counters and parameters are what they were.
\<close>

theorem load_never_succeeds:
  assumes "ipi_bench_init env phs s = Some (Inr (r, s'))" and "num_online_cpus env < 2 ^ 31"
  shows "r = -1 \<and> (options s = 0 \<or> bad_params (num_online_cpus env) s \<longrightarrow>
    s'\<lparr>ilog := []\<rparr> = s\<lparr>ilog := []\<rparr> \<and> (\<exists>l. l \<noteq> [] \<and> ilog s' = ilog s @ l))"
proof -
  have "r = -1"
    using assms(1) by (auto simp: ipi_bench_init_def bindR_Inr_iff Option.bind_eq_Some_conv split: if_splits)
  moreover have "s' = ipi_bench_options s" if "options s = 0"
    using assms(1) that by (simp add: ipi_bench_init_def)
  moreover have "(ipi_bench_options s)\<lparr>ilog := []\<rparr> = s\<lparr>ilog := []\<rparr> \<and> (\<exists>l. l \<noteq> [] \<and> ilog (ipi_bench_options s) = ilog s @ l)"
    by (simp add: ipi_bench_options_def isay_def benchcases_def upt_rec)
  moreover have "s'\<lparr>ilog := []\<rparr> = s\<lparr>ilog := []\<rparr> \<and> (\<exists>l. l \<noteq> [] \<and> ilog s' = ilog s @ l)"
    if "options s \<noteq> 0" "bad_params (num_online_cpus env) s"
    using assms(1) that
    by (auto simp: ipi_bench_init_def ipi_bench_init_params_def bad_params_def isay_def split: if_splits)
  ultimately show ?thesis by metis
qed

theorem load_never_succeeds_witness:
  "\<exists>s'. ipi_bench_init ex_ipi (\<lambda>i. ex_phase) ipi_static = Some (Inr (-1, s')) \<and> ready_to_run s' = 0"
proof -
  obtain s' where s': "ipi_bench_init ex_ipi (\<lambda>i. ex_phase) ipi_static = Some (Inr (-1, s'))"
    by (simp add: ipi_bench_init_def ipi_static_def)
  have "s'\<lparr>ilog := []\<rparr> = ipi_static\<lparr>ilog := []\<rparr>"
    using load_never_succeeds [OF s'] by (simp add: ex_ipi_def) (simp add: ipi_static_def)
  from arg_cong [OF this, of ready_to_run] s' show ?thesis by (auto simp: ipi_static_def)
qed

section \<open>The mesh\<close>

definition measured_args :: "worker_env \<Rightarrow> ipi_state \<Rightarrow> bench_args \<Rightarrow> bench_args" where
  "measured_args w s ba =
     (snd (ipi_bench_one w s (ba\<lparr>forked := t_forked w, start := t_start w\<rparr>)))
       \<lparr>finish := t_finish w, run_delay := sched_delay w\<rparr>"

definition mesh_args :: "(int \<times> int) list \<Rightarrow> bench_args list" where
  "mesh_args ps = map (\<lambda>(a, b). new_args a b) ps"

definition mesh_threads :: "ipi_env \<Rightarrow> (int \<times> int) list \<Rightarrow> (bool \<times> bench_args) list" where
  "mesh_threads env ps = map (\<lambda>(a, b). (kthread_ok env a, named (new_args a b))) ps"

lemma mesh_threads_created:
  "(\<exists>t \<in> set (mesh_threads env ps). \<not> fst t) \<longleftrightarrow> \<not> (\<forall>(a, b) \<in> set ps. kthread_ok env a)"
  by (auto simp: mesh_threads_def) (force simp: split_beta)+

definition mesh_state :: "ipi_env \<Rightarrow> (int \<times> int) list \<Rightarrow> nat \<Rightarrow> ipi_state \<Rightarrow> ipi_state" where
  "mesh_state env ps k s = s\<lparr>should_run := of_nat (length ps), draws := k,
     ilog := ilog s @ concat (map (prepare_lines env) (mesh_args ps))\<rparr>"

definition mesh_end :: "ipi_env \<Rightarrow> phase \<Rightarrow> (int \<times> int) list \<Rightarrow> nat \<Rightarrow> ipi_state \<Rightarrow> bsys" where
  "mesh_end env ph ps k s =
     ipi_bench_wait_all single_work ph (launch (mesh_state env ps k s) (mesh_threads env ps))"

lemma mesh_end_reaches:
  "reaches single_work (wenvs ph) (launch (mesh_state env ps k s) (mesh_threads env ps)) (mesh_end env ph ps k s)"
  unfolding mesh_end_def ipi_bench_wait_all_def by (rule run_schedule_reaches)

lemma mesh_end_fields:
  "loops (glob (mesh_end env ph ps k s)) = loops s" "wait (glob (mesh_end env ph ps k s)) = wait s"
  "should_run (glob (mesh_end env ph ps k s)) = of_nat (length ps)"
  "length (args (mesh_end env ph ps k s)) = length ps"
  using counts_from_reaches [OF mesh_end_reaches [of ph env ps k s]]
    same_params_fields [of "mesh_state env ps k s" "glob (mesh_end env ph ps k s)"]
  by (simp_all add: counts_from_def mesh_threads_def) (simp_all add: mesh_state_def)

lemma mesh_bench:
  assumes "kzalloc_ok env (int n)" and "build_pairs env across n [] (-1) ({}, draws s) = Inr (Some ps, k)"
    and "length ps = n" and "\<forall>(a, b) \<in> set ps. 0 \<le> a \<and> 0 \<le> b" and "ulong_of_int (loops s) \<noteq> 0"
    and "mesh_throughput (int n) (loops s) (clock env (Suc t) - clock env t) = Inr x"
  shows "ipi_bench_mesh env ph t (int n) across s =
    Inr (0, isay ''ipi_bench: throughput %ld ipi/s'' [ALong x] (reported env s (mesh_end env ph ps k s)))"
proof -
  define b where "b = mesh_end env ph ps k s"
  have len: "ulong_of_int (int n) = of_nat n" by (simp add: ulong_of_int_def)
  have "\<forall>ba \<in> set (args b). valid_cpus ba"
    unfolding b_def using assms(4)
    by (intro run_valid_cpus [OF mesh_end_reaches]) (auto simp: mesh_threads_def valid_cpus_def)
  then have rep: "foldR (ipi_bench_report_single env) (args b) (glob b) = Inr (reported env s b)"
    using assms(5) report_line_cong [of "glob b" s env]
    by (simp add: report_all reported_def b_def mesh_end_fields)
  have create: "create_all (ipi_bench_one_task env) (map (\<lambda>(a, b). new_args a b) ps)
      (s\<lparr>should_run := of_nat n, draws := k\<rparr>) = Inr (mesh_threads env ps, mesh_state env ps k s)"
    using assms(3,4)
    by (subst create_all_singles)
       (auto simp: mesh_threads_def mesh_state_def mesh_args_def split_beta o_def)
  have l: "loops (reported env s b) = loops s" by (simp add: reported_def b_def mesh_end_fields)
  have run: "run_threads single_work ph (mesh_threads env ps) (mesh_state env ps k s) = (glob b, args b)"
    by (simp add: run_threads_def b_def mesh_end_def Let_def)
  show ?thesis
    using assms(1,2,6)
    by (simp add: ipi_bench_mesh_def len create run rep l Let_def flip: b_def)
qed

lemma mesh_fresh:
  assumes "length ps < 2 ^ 62" and "ready_to_run s = 0" and "complete_run s = 0"
  shows "fresh (mesh_state env ps k s) (length (mesh_threads env ps))"
  using assms by (simp add: fresh_def mesh_state_def mesh_threads_def)

text \<open>
  C30: the mesh benchmark, for every schedule. On fresh counters it returns 0 and its last line is the
  throughput. When all its threads complete in time, every thread was created, and the log has gained one line
  for each pair as it is prepared and one report for each pair, of exactly what \<open>ipi_bench_one\<close> measured for it.
\<close>

theorem mesh_bench_measures:
  assumes "smp env" and "nodes_nonneg env" and "kzalloc_ok env (int n)"
    and "build_pairs env across n [] (-1) ({}, draws s) = Inr (Some ps, k)"
    and "0 < loops s" and "loops s < 2 ^ 31" and "ready_to_run s = 0" and "complete_run s = 0"
    and "mesh_throughput (int n) (loops s) (clock env (Suc t) - clock env t) = Inr x"
  shows "\<exists>s'. ipi_bench_mesh env ph t (int n) across s = Inr (0, s') \<and>
    last (ilog s') = (''ipi_bench: throughput %ld ipi/s'', [ALong x]) \<and>
    (complete_run s' = of_nat n \<longrightarrow> (\<forall>(a, b) \<in> set ps. kthread_ok env a) \<and>
      ilog s' = ilog s @
        map (\<lambda>(a, b). (''ipi_bench: prepare single IPI from CPU[%3d] to CPU[%3d]'', [AInt a, AInt b])) ps @
        map (\<lambda>i. report_line env s (measured_args (wenvs ph i) s (named (mesh_args ps ! i)))) [0..<n] @
        [(''ipi_bench: throughput %ld ipi/s'', [ALong x])])"
proof -
  have ps: "length ps = n" "\<forall>(a, b) \<in> set ps. 0 \<le> a \<and> 0 \<le> b" "2 * int n \<le> num_online_cpus env"
    using build_pairs_result [OF assms(1,2,4)] by (auto simp: online_cpu_def)
  have l0: "ulong_of_int (loops s) \<noteq> 0" using assms(5,6) by (subst ulong_of_int_zero) auto
  define b where "b = mesh_end env ph ps k s"
  define s1 where "s1 = mesh_state env ps k s"
  have r: "reaches single_work (wenvs ph) (launch s1 (mesh_threads env ps)) b"
    unfolding b_def s1_def by (rule mesh_end_reaches)
  have f: "fresh s1 (length (mesh_threads env ps))"
    unfolding s1_def using assms(1,7,8) ps by (intro mesh_fresh) (auto simp: smp_def)
  have out: "ipi_bench_mesh env ph t (int n) across s =
    Inr (0, isay ''ipi_bench: throughput %ld ipi/s'' [ALong x] (reported env s b))"
    unfolding b_def by (rule mesh_bench [OF assms(3,4) ps(1,2) l0 assms(9)])
  have comp: "(\<forall>(a, b) \<in> set ps. kthread_ok env a) \<and>
      args b = map (\<lambda>i. measured_args (wenvs ph i) s (named (mesh_args ps ! i))) [0..<n]"
    if "complete_run (glob b) = of_nat n"
  proof -
    have over: "wait_over b" using that ps(1) by (simp add: wait_over_def b_def mesh_end_fields)
    have one: "ipi_bench_one w s1 ba = ipi_bench_one w s ba" for w ba
      by (simp add: ipi_bench_one_def s1_def mesh_state_def)
    have "\<forall>(a, b) \<in> set ps. kthread_ok env a"
      using missing_not_past(1) [OF f _ r] over by (simp only: mesh_threads_created) blast
    moreover have "args b = map (\<lambda>i. measured_args (wenvs ph i) s (named (mesh_args ps ! i))) [0..<n]"
      using single.wait_over_results [OF f r over] ps(1)
      by (auto simp: mesh_threads_def mesh_args_def measured_args_def split_beta result_of_def began_def
          single_work_def ipi_bench_record_run_delay_def one intro!: map_cong)
    ultimately show ?thesis by blast
  qed
  have log: "ilog (glob b) = ilog s @ concat (map (prepare_lines env) (mesh_args ps))"
    using fresh_log [OF f r] by (simp add: s1_def mesh_state_def)
  have prep: "concat (map (prepare_lines env) (mesh_args ps)) =
      map (\<lambda>(a, b). (''ipi_bench: prepare single IPI from CPU[%3d] to CPU[%3d]'', [AInt a, AInt b])) ps"
    if "\<forall>(a, b) \<in> set ps. kthread_ok env a"
    using that by (induction ps) (auto simp: mesh_args_def prepare_lines_def)
  show ?thesis
    using out comp log prep by (auto simp: isay_def reported_def)
qed

text \<open>
  C18: the mesh benchmark when the thread of some pair cannot be created, for every schedule. The failure is
  ignored, so the threads of the other pairs spin for one that never comes: every pair is reported with too
  many loops, nothing has been counted as complete, and the throughput that is printed at the end is that of
  IPIs that were never sent.
\<close>

theorem mesh_missing_thread:
  assumes "smp env" and "nodes_nonneg env" and "kzalloc_ok env (int n)"
    and "build_pairs env across n [] (-1) ({}, draws s) = Inr (Some ps, k)"
    and "0 < loops s" and "loops s < 2 ^ 31" and "ready_to_run s = 0" and "complete_run s = 0"
    and "mesh_throughput (int n) (loops s) (clock env (Suc t) - clock env t) = Inr x"
    and "\<not> (\<forall>(a, b) \<in> set ps. kthread_ok env a)"
  shows "\<exists>s'. ipi_bench_mesh env ph t (int n) across s = Inr (0, s') \<and> complete_run s' = 0 \<and>
    ilog s' = ilog s @ concat (map (prepare_lines env) (mesh_args ps)) @
      replicate n (''ipi_bench: too many loops'', []) @ [(''ipi_bench: throughput %ld ipi/s'', [ALong x])]"
proof -
  have ps: "length ps = n" "\<forall>(a, b) \<in> set ps. 0 \<le> a \<and> 0 \<le> b" "2 * int n \<le> num_online_cpus env"
    using build_pairs_result [OF assms(1,2,4)] by (auto simp: online_cpu_def)
  have l0: "ulong_of_int (loops s) \<noteq> 0" using assms(5,6) by (subst ulong_of_int_zero) auto
  define b where "b = mesh_end env ph ps k s"
  define s1 where "s1 = mesh_state env ps k s"
  have r: "reaches single_work (wenvs ph) (launch s1 (mesh_threads env ps)) b"
    unfolding b_def s1_def by (rule mesh_end_reaches)
  have f: "fresh s1 (length (mesh_threads env ps))"
    unfolding s1_def using assms(1,7,8) ps by (intro mesh_fresh) (auto simp: smp_def)
  have out: "ipi_bench_mesh env ph t (int n) across s =
    Inr (0, isay ''ipi_bench: throughput %ld ipi/s'' [ALong x] (reported env s b))"
    unfolding b_def by (rule mesh_bench [OF assms(3,4) ps(1,2) l0 assms(9)])
  have len: "length (mesh_threads env ps) = n" using ps(1) by (simp add: mesh_threads_def)
  note none = missing_not_past(2) [OF f _ r, unfolded mesh_threads_created len, OF assms(10)]
  have b: "length (pcs b) = n" "complete_run (glob b) = of_nat (count_pc counted b)" "length (args b) = n"
    using counts_from_reaches [OF r] assms(8) len by (simp_all add: counts_from_def s1_def mesh_state_def)
  have "count_pc counted b = 0" using none b(1) by (fastforce simp: count_pc_zero pc_simps)
  moreover have "finish (args b ! i) = 0" if "i < n" for i
    using single.args_inv_reaches [OF r] none [OF that] that len ps(1)
    by (cases "pcs b ! i") (auto simp: single.args_inv_def pc_simps mesh_threads_def split_beta)
  then have "map (report_line env s) (args b) = replicate n (''ipi_bench: too many loops'', [])"
    using b(3) by (intro nth_equalityI) (simp_all add: report_line_def)
  moreover have "ilog (glob b) = ilog s @ concat (map (prepare_lines env) (mesh_args ps))"
    using fresh_log [OF f r] by (simp add: s1_def mesh_state_def)
  ultimately show ?thesis using out b(2) by (simp add: isay_def reported_def)
qed

text \<open>Two pairs on the four CPUs, with and without the second thread.\<close>

definition ex_mesh :: phase where
  "ex_mesh = \<lparr>wenvs = (\<lambda>i. ex_w), sched = [0, 1, 0, 1, 0, 1, 0, 1, 0, 1, 0, 1]\<rparr>"

definition ex_ipi_missing :: ipi_env where
  "ex_ipi_missing = ex_ipi\<lparr>kthread_ok := \<lambda>c. c \<noteq> 3\<rparr>"

lemma ex_mesh [simp]: "wenvs ex_mesh = (\<lambda>i. ex_w)" "sched ex_mesh = [0, 1, 0, 1, 0, 1, 0, 1, 0, 1, 0, 1]"
  by (simp_all add: ex_mesh_def)

lemma ex_s_draws: "draws ex_s = 0"
  by (simp add: ex_s_def ipi_static_def)

lemma ex_mesh_end: "complete_run (glob (mesh_end ex_ipi ex_mesh [(0, 2), (3, 1)] 6 ex_s)) = 2"
  by (simp add: mesh_end_def ipi_bench_wait_all_def run_schedule_def mesh_state_def mesh_threads_def launch_def
      thread_step_def Let_def ex_s_fields ex_ipi_def)

lemma ex_throughput: "mesh_throughput 2 3 1000 = Inr 6000000"
  by (simp add: mesh_throughput_def ulong_of_int_def to_int32_def)

lemma ex_mesh_env:
  "kzalloc_ok ex_ipi (int 2)" "ulong_of_int (loops ex_s) \<noteq> 0"
  "mesh_throughput (int 2) (loops ex_s) (clock ex_ipi (Suc 0) - clock ex_ipi 0) = Inr 6000000"
  using ex_throughput by (simp_all add: ex_ipi_def ex_s_fields ulong_of_int_def)

theorem mesh_bench_measures_witness:
  "\<exists>s'. ipi_bench_mesh ex_ipi ex_mesh 0 (int 2) 0 ex_s = Inr (0, s') \<and> complete_run s' = 2 \<and> length (ilog s') = 5"
proof -
  have pairs: "build_pairs ex_ipi 0 2 [] (-1) ({}, draws ex_s) = Inr (Some [(0, 2), (3, 1)], 6)"
    using ex_build_pairs by (simp add: ex_s_draws)
  have "ipi_bench_mesh ex_ipi ex_mesh 0 (int 2) 0 ex_s =
    Inr (0, isay ''ipi_bench: throughput %ld ipi/s'' [ALong 6000000]
      (reported ex_ipi ex_s (mesh_end ex_ipi ex_mesh [(0, 2), (3, 1)] 6 ex_s)))"
    by (rule mesh_bench [OF ex_mesh_env(1) pairs _ _ ex_mesh_env(2,3)]) simp_all
  moreover obtain s' where s': "ipi_bench_mesh ex_ipi ex_mesh 0 (int 2) 0 ex_s = Inr (0, s')"
    and log: "complete_run s' = of_nat 2 \<longrightarrow> ilog s' = ilog ex_s @
        map (\<lambda>(a, b). (''ipi_bench: prepare single IPI from CPU[%3d] to CPU[%3d]'', [AInt a, AInt b])) [(0, 2), (3, 1)] @
        map (\<lambda>i. report_line ex_ipi ex_s (measured_args (wenvs ex_mesh i) ex_s (named (mesh_args [(0, 2), (3, 1)] ! i)))) [0..<2] @
        [(''ipi_bench: throughput %ld ipi/s'', [ALong 6000000])]"
    using mesh_bench_measures [OF ex_smp(1) ex_nonneg(1) ex_mesh_env(1) pairs _ _ _ _ ex_mesh_env(3), of ex_mesh]
    by (auto simp: ex_s_fields)
  ultimately have "complete_run s' = 2" using ex_mesh_end by (auto simp: reported_def isay_def)
  with log have "length (ilog s') = 5" by (simp add: ex_s_fields)
  with s' \<open>complete_run s' = 2\<close> show ?thesis by blast
qed

lemma random_unused_from_kthread:
  "random_unused_from (env\<lparr>kthread_ok := f\<rparr>) nd r mk = random_unused_from env nd r mk"
proof (induction r arbitrary: mk)
  case (Suc r)
  then show ?case by (cases mk) (simp add: Let_def)
next
  case 0
  show ?case by (cases mk) simp
qed

lemma build_pairs_kthread:
  "build_pairs (env\<lparr>kthread_ok := f\<rparr>) across n bas nd mk = build_pairs env across n bas nd mk"
proof (induction n arbitrary: bas nd mk)
  case (Suc n)
  then show ?case
    by (simp add: random_unused_cpu_in_cpumask_def random_unused_from_kthread cpu_to_node_def Let_def split_beta
        cong: if_cong)
qed simp

theorem mesh_missing_thread_witness:
  "\<exists>s'. ipi_bench_mesh ex_ipi_missing ex_mesh 0 (int 2) 0 ex_s = Inr (0, s') \<and> complete_run s' = 0 \<and>
     length (ilog s') = 6"
proof -
  have env: "smp ex_ipi_missing" "nodes_nonneg ex_ipi_missing" "kzalloc_ok ex_ipi_missing (int 2)"
    "mesh_throughput (int 2) (loops ex_s) (clock ex_ipi_missing (Suc 0) - clock ex_ipi_missing 0) = Inr 6000000"
    using ex_smp(1) ex_nonneg(1) ex_mesh_env
    by (simp_all add: ex_ipi_missing_def smp_def nodes_nonneg_def online_cpu_def)
  have pairs: "build_pairs ex_ipi_missing 0 2 [] (-1) ({}, draws ex_s) = Inr (Some [(0, 2), (3, 1)], 6)"
    using ex_build_pairs by (simp add: ex_s_draws ex_ipi_missing_def build_pairs_kthread)
  have k: "\<not> (\<forall>(a, b) \<in> set [(0, 2), (3, 1 :: int)]. kthread_ok ex_ipi_missing a)"
    "kthread_ok ex_ipi_missing 0" "\<not> kthread_ok ex_ipi_missing 3"
    by (auto simp: ex_ipi_missing_def ex_ipi_def)
  from mesh_missing_thread [OF env(1-3) pairs _ _ _ _ env(4) k(1), of ex_mesh] k(2,3)
  show ?thesis by (auto simp: ex_s_fields mesh_args_def prepare_lines_def)
qed

section \<open>One thread alone\<close>

lemma one_thread_step:
  "thread_step work ws 0 \<lparr>glob = g, pcs = [New], args = [ba]\<rparr> =
     \<lparr>glob = g\<lparr>ready_to_run := ready_to_run g + 1\<rparr>, pcs = [Spinning], args = [ba\<lparr>forked := t_forked (ws 0)\<rparr>]\<rparr>"
  "thread_step work ws 0 \<lparr>glob = g, pcs = [Spinning], args = [ba]\<rparr> =
     \<lparr>glob = g, pcs = [if sint (ready_to_run g) < sint (should_run g) then Spinning else Checking], args = [ba]\<rparr>"
  "thread_step work ws 0 \<lparr>glob = g, pcs = [Checking], args = [ba]\<rparr> =
     (if ready_to_run g \<noteq> should_run g
      then \<lparr>glob = isay ''ipi_bench: BUG, exit benchmark'' [] g, pcs = [Bugged], args = [ba]\<rparr>
      else \<lparr>glob = g, pcs = [Running], args = [ba\<lparr>start := t_start (ws 0)\<rparr>]\<rparr>)"
  "thread_step work ws 0 \<lparr>glob = g, pcs = [Running], args = [ba]\<rparr> =
     \<lparr>glob = g, pcs = [Finishing],
      args = [ipi_bench_record_run_delay (ws 0) ((work (ws 0) g ba)\<lparr>finish := t_finish (ws 0)\<rparr>)]\<rparr>"
  "thread_step work ws 0 \<lparr>glob = g, pcs = [Finishing], args = [ba]\<rparr> =
     \<lparr>glob = g\<lparr>complete_run := complete_run g + 1\<rparr>, pcs = [Completed], args = [ba]\<rparr>"
  "thread_step work ws 0 \<lparr>glob = g, pcs = [Completed], args = [ba]\<rparr> = \<lparr>glob = g, pcs = [Exited], args = [ba]\<rparr>"
  "thread_step work ws 0 \<lparr>glob = g, pcs = [Bugged], args = [ba]\<rparr> = \<lparr>glob = g, pcs = [Bugged], args = [ba]\<rparr>"
  by (simp_all add: thread_step_def Let_def)

text \<open>
  C37: the function of a thread and its steps agree: a thread that is alone, given the six steps it can take,
  ends where \<open>ipi_bench_single_task\<close> says, with the module's variables and its arguments as that function
  leaves them; where the function never returns, the thread is still spinning.
\<close>

theorem thread_alone:
  "run_schedule single_work (\<lambda>i. w) (replicate 6 0) (launch s [(True, ba)]) =
    (case ipi_bench_single_task (w\<lparr>others := 0\<rparr>) s ba of
       None \<Rightarrow> \<lparr>glob = s\<lparr>ready_to_run := ready_to_run s + 1\<rparr>, pcs = [Spinning],
         args = [ba\<lparr>forked := t_forked w\<rparr>]\<rparr>
     | Some (ret, s', ba') \<Rightarrow> \<lparr>glob = s', pcs = [if ret = 0 then Exited else Bugged], args = [ba']\<rparr>)"
proof -
  have env: "ipi_bench_one (w\<lparr>others := x\<rparr>) g b = ipi_bench_one w g b" for x g b
  proof -
    have "bench_one_loop (w\<lparr>others := x\<rparr>) wt n i t = bench_one_loop w wt n i t" for wt n i t
      by (induction n arbitrary: i t) (simp_all add: Let_def)
    then show ?thesis by (simp add: ipi_bench_one_def)
  qed
  define g where "g = s\<lparr>ready_to_run := ready_to_run s + 1\<rparr>"
  have six: "run_schedule work ws (replicate 6 0) b =
      thread_step work ws 0 (thread_step work ws 0 (thread_step work ws 0
        (thread_step work ws 0 (thread_step work ws 0 (thread_step work ws 0 b)))))" for work ws b
    by (simp add: run_schedule_def numeral_eq_Suc)
  consider (spins) "sint (ready_to_run g) < sint (should_run g)"
    | (bug) "\<not> sint (ready_to_run g) < sint (should_run g)" "ready_to_run g \<noteq> should_run g"
    | (runs) "\<not> sint (ready_to_run g) < sint (should_run g)" "ready_to_run g = should_run g" by blast
  then show ?thesis
  proof cases
    case spins
    then show ?thesis
      by (simp add: six launch_def one_thread_step ipi_bench_single_task_def Let_def flip: g_def)
  next
    case bug
    then show ?thesis
      by (simp add: six launch_def one_thread_step ipi_bench_single_task_def Let_def flip: g_def)
  next
    case runs
    then show ?thesis
      by (simp add: six launch_def one_thread_step ipi_bench_single_task_def Let_def split_beta single_work_def env
          ipi_bench_record_run_delay_def flip: g_def)
  qed
qed

end
