(* ===== verification/Ipi_Broadcast.thy ===== *)
theory Ipi_Broadcast
  imports Ipi_Load
begin

text \<open>
  \<open>microbenchmark/ipi-bench/ipi_bench.c\<close>: what \<open>ipi_bench_all\<close> reports, for every schedule of its workers.
\<close>

section \<open>Creating the workers and their reports\<close>

definition named_all :: "bench_args \<Rightarrow> bench_args" where
  "named_all ba = ba\<lparr>ba_name := snprintf 64 (''ipi_bench_all_'' @ dec (ba_src ba))\<rparr>"

definition prepare_all_lines :: "ipi_env \<Rightarrow> bench_args \<Rightarrow> log_line list" where
  "prepare_all_lines env ba =
     (''ipi_bench: prepare broadcast IPI from CPU[%3d] to all CPUs'', [AInt (ba_src ba)]) #
     (if kthread_ok env (ba_src ba) then [] else [(''ipi_bench: create kthread failed'', [])])"

definition report_all_line :: "ipi_env \<Rightarrow> ipi_state \<Rightarrow> bench_args \<Rightarrow> log_line" where
  "report_all_line env s ba =
     (if finish ba = 0 then (''ipi_bench: too many loops'', [])
      else (all_fmt,
        [AInt (ba_src ba), AInt (node_of env (ba_src ba)), AInt (wait s), AInt (loops s),
         ALong (forked ba div 1000), ALong (start ba div 1000), ALong (finish ba div 1000),
         ALong (net_elapsed ba div 1000), ALong (run_delay ba div 1000),
         ALong (net_elapsed ba div ulong_of_int (loops s))]))"

lemma create_all_workers:
  assumes "\<forall>ba \<in> set bas. 0 \<le> ba_src ba"
  shows "create_all (ipi_bench_all_task env) bas s =
    Inr (map (\<lambda>ba. (kthread_ok env (ba_src ba), named_all ba)) bas,
      s\<lparr>ilog := ilog s @ concat (map (prepare_all_lines env) bas)\<rparr>)"
  using assms
  by (intro create_all_each)
     (fastforce simp: ipi_bench_all_task_def cpu_to_node_def named_all_def prepare_all_lines_def isay_def Let_def)

lemma report_all_each:
  assumes "\<forall>ba \<in> set bas. 0 \<le> ba_src ba" and "ulong_of_int (loops s) \<noteq> 0" and "loops g = loops s" and "wait g = wait s"
  shows "foldR (ipi_bench_report_all env) bas g = Inr (g\<lparr>ilog := ilog g @ map (report_all_line env s) bas\<rparr>)"
proof (rule report_each [where s = s, OF _ assms(3,4)])
  fix ba and g :: ipi_state assume "ba \<in> set bas" "loops g = loops s" "wait g = wait s"
  moreover from this assms(1) have "\<not> ba_src ba < 0" by fastforce
  ultimately show "ipi_bench_report_all env ba g = Inr (g\<lparr>ilog := ilog g @ [report_all_line env s ba]\<rparr>)"
    using assms(2)
    by (simp add: ipi_bench_report_all_def report_all_line_def cpu_to_node_def div_loops_def isay_def Let_def)
qed

section \<open>The broadcasts\<close>

text \<open>What a worker leaves in its arguments.\<close>

definition stamped_args :: "worker_env \<Rightarrow> bench_args \<Rightarrow> bench_args" where
  "stamped_args w ba =
     ba\<lparr>forked := t_forked w, start := t_start w, finish := t_finish w, run_delay := sched_delay w\<rparr>"

definition worker_args :: "int list \<Rightarrow> bench_args list" where
  "worker_args srcs = map (\<lambda>a. new_args a 0) srcs"

definition worker_threads :: "ipi_env \<Rightarrow> int list \<Rightarrow> (bool \<times> bench_args) list" where
  "worker_threads env srcs = map (\<lambda>a. (kthread_ok env a, named_all (new_args a 0))) srcs"

definition worker_state :: "ipi_env \<Rightarrow> int list \<Rightarrow> nat \<Rightarrow> ipi_state \<Rightarrow> ipi_state" where
  "worker_state env srcs k s = s\<lparr>should_run := of_nat (length srcs), draws := k,
     ilog := ilog s @ concat (map (prepare_all_lines env) (worker_args srcs))\<rparr>"

definition worker_end :: "ipi_env \<Rightarrow> phase \<Rightarrow> int list \<Rightarrow> nat \<Rightarrow> ipi_state \<Rightarrow> bsys" where
  "worker_end env ph srcs k s =
     ipi_bench_wait_all many_work ph (launch (worker_state env srcs k s) (worker_threads env srcs))"

lemma worker_end_reaches:
  "reaches many_work (wenvs ph) (launch (worker_state env srcs k s) (worker_threads env srcs)) (worker_end env ph srcs k s)"
  unfolding worker_end_def ipi_bench_wait_all_def by (rule run_schedule_reaches)

lemma worker_end_fields:
  "loops (glob (worker_end env ph srcs k s)) = loops s" "wait (glob (worker_end env ph srcs k s)) = wait s"
  "should_run (glob (worker_end env ph srcs k s)) = of_nat (length srcs)"
  "length (args (worker_end env ph srcs k s)) = length srcs"
  using counts_from_reaches [OF worker_end_reaches [of ph env srcs k s]]
    same_params_fields [of "worker_state env srcs k s" "glob (worker_end env ph srcs k s)"]
  by (simp_all add: counts_from_def worker_threads_def) (simp_all add: worker_state_def)

lemma worker_end_srcs:
  assumes "\<forall>a \<in> set srcs. 0 \<le> a" and "ba \<in> set (args (worker_end env ph srcs k s))"
  shows "0 \<le> ba_src ba"
proof -
  let ?b = "worker_end env ph srcs k s"
  obtain i where i: "i < length srcs" "ba = args ?b ! i"
    using assms(2) worker_end_fields(4) [of env ph srcs k s] by (auto simp: in_set_conv_nth)
  have "ba_src (args_at many_work w g ba q) = ba_src ba" for w g ba q
    by (simp add: result_of_def began_def ipi_bench_record_run_delay_def many_work_def)
  then have "ba_src ba = srcs ! i"
    using many.args_inv_reaches [OF worker_end_reaches [of ph env srcs k s]] i
    by (simp add: many.args_inv_def worker_threads_def named_all_def)
  with assms(1) i(1) show ?thesis by simp
qed

definition reported_workers :: "ipi_env \<Rightarrow> ipi_state \<Rightarrow> bsys \<Rightarrow> ipi_state" where
  "reported_workers env s b = (glob b)\<lparr>ilog := ilog (glob b) @ map (report_all_line env s) (args b)\<rparr>"

lemma all_bench:
  assumes "kzalloc_ok env (int n)" and "build_workers env n [] ({}, draws s) = (Some srcs, k)"
    and "length srcs = n" and "\<forall>a \<in> set srcs. 0 \<le> a" and "ulong_of_int (loops s) \<noteq> 0"
    and "all_throughput (int n) (word_of_int (num_online_cpus env)) (loops s) (clock env (Suc t) - clock env t) = Inr x"
  shows "ipi_bench_all env ph t (int n) s =
    Inr (0, isay ''ipi_bench: throughput %ld ipi/s'' [ALong x] (reported_workers env s (worker_end env ph srcs k s)))"
proof -
  define b where "b = worker_end env ph srcs k s"
  have len: "ulong_of_int (int n) = of_nat n" by (simp add: ulong_of_int_def)
  have rep: "foldR (ipi_bench_report_all env) (args b) (glob b) = Inr (reported_workers env s b)"
    unfolding reported_workers_def b_def
    using worker_end_srcs [OF assms(4)] worker_end_fields(1,2) assms(5) by (intro report_all_each) auto
  have create: "create_all (ipi_bench_all_task env) (map (\<lambda>a. new_args a 0) srcs)
      (s\<lparr>should_run := of_nat n, draws := k\<rparr>) = Inr (worker_threads env srcs, worker_state env srcs k s)"
    using assms(3,4)
    by (subst create_all_workers) (auto simp: worker_threads_def worker_state_def worker_args_def o_def)
  have l: "loops (reported_workers env s b) = loops s" by (simp add: reported_workers_def b_def worker_end_fields)
  have run: "run_threads many_work ph (worker_threads env srcs) (worker_state env srcs k s) = (glob b, args b)"
    by (simp add: run_threads_def b_def worker_end_def Let_def)
  show ?thesis
    using assms(1,2,6) by (simp add: ipi_bench_all_def len create run rep l Let_def flip: b_def)
qed

text \<open>
  C31: the broadcast benchmark, for every schedule. On fresh counters it returns 0 and its last line is the
  throughput. When all its workers complete in time, every one was created, and the log has gained one line for
  each worker as it is prepared and one report for each with its stamps.
\<close>

theorem all_bench_measures:
  assumes "smp env" and "kzalloc_ok env (int n)" and "build_workers env n [] ({}, draws s) = (Some srcs, k)"
    and "0 < loops s" and "loops s < 2 ^ 31" and "ready_to_run s = 0" and "complete_run s = 0"
    and "all_throughput (int n) (word_of_int (num_online_cpus env)) (loops s) (clock env (Suc t) - clock env t) = Inr x"
  shows "\<exists>s'. ipi_bench_all env ph t (int n) s = Inr (0, s') \<and>
    last (ilog s') = (''ipi_bench: throughput %ld ipi/s'', [ALong x]) \<and>
    (complete_run s' = of_nat n \<longrightarrow> (\<forall>a \<in> set srcs. kthread_ok env a) \<and>
      ilog s' = ilog s @
        map (\<lambda>a. (''ipi_bench: prepare broadcast IPI from CPU[%3d] to all CPUs'', [AInt a])) srcs @
        map (\<lambda>i. report_all_line env s (stamped_args (wenvs ph i) (named_all (worker_args srcs ! i)))) [0..<n] @
        [(''ipi_bench: throughput %ld ipi/s'', [ALong x])])"
proof -
  have ws: "length srcs = n" "\<forall>a \<in> set srcs. 0 \<le> a" "int n \<le> num_online_cpus env"
    using build_workers_result [OF assms(1,3)] by auto
  have l0: "ulong_of_int (loops s) \<noteq> 0" using assms(4,5) by (subst ulong_of_int_zero) auto
  define b where "b = worker_end env ph srcs k s"
  define s1 where "s1 = worker_state env srcs k s"
  have r: "reaches many_work (wenvs ph) (launch s1 (worker_threads env srcs)) b"
    unfolding b_def s1_def by (rule worker_end_reaches)
  have f: "fresh s1 (length (worker_threads env srcs))"
    using assms(1,6,7) ws by (auto simp: fresh_def s1_def worker_state_def worker_threads_def smp_def)
  have out: "ipi_bench_all env ph t (int n) s =
    Inr (0, isay ''ipi_bench: throughput %ld ipi/s'' [ALong x] (reported_workers env s b))"
    unfolding b_def by (rule all_bench [OF assms(2,3) ws(1,2) l0 assms(8)])
  have comp: "(\<forall>a \<in> set srcs. kthread_ok env a) \<and>
      args b = map (\<lambda>i. stamped_args (wenvs ph i) (named_all (worker_args srcs ! i))) [0..<n]"
    if "complete_run (glob b) = of_nat n"
  proof -
    have over: "wait_over b" using that ws(1) by (simp add: wait_over_def b_def worker_end_fields)
    have "\<forall>a \<in> set srcs. kthread_ok env a"
      using missing_not_past(1) [OF f _ r] over by (auto simp: worker_threads_def)
    moreover have "args b = map (\<lambda>i. stamped_args (wenvs ph i) (named_all (worker_args srcs ! i))) [0..<n]"
      using many.wait_over_results [OF f r over] ws(1)
      by (auto simp: worker_threads_def worker_args_def stamped_args_def result_of_def began_def
          many_work_def ipi_bench_record_run_delay_def intro!: map_cong)
    ultimately show ?thesis by blast
  qed
  have log: "ilog (glob b) = ilog s @ concat (map (prepare_all_lines env) (worker_args srcs))"
    using fresh_log [OF f r] by (simp add: s1_def worker_state_def)
  have prep: "concat (map (prepare_all_lines env) (worker_args srcs)) =
      map (\<lambda>a. (''ipi_bench: prepare broadcast IPI from CPU[%3d] to all CPUs'', [AInt a])) srcs"
    if "\<forall>a \<in> set srcs. kthread_ok env a"
    using that by (induction srcs) (auto simp: worker_args_def prepare_all_lines_def)
  show ?thesis
    using out comp log prep by (auto simp: isay_def reported_workers_def)
qed

lemma ex_build_workers: "build_workers ex_ipi 1 [] ({}, 0) = (Some [0], 1)"
proof -
  obtain r where r: "RETRY = Suc r" by (simp add: RETRY_def gr0_implies_Suc)
  show ?thesis by (simp add: random_unused_cpu_in_cpumask_def r ex_pick del: random_unused_from.simps)
qed

theorem all_bench_measures_witness:
  "\<exists>s'. ipi_bench_all ex_ipi ex_phase 0 (int 1) ex_s = Inr (0, s') \<and> complete_run s' = 1 \<and> length (ilog s') = 3"
proof -
  have b: "build_workers ex_ipi 1 [] ({}, draws ex_s) = (Some [0], 1)"
    using ex_build_workers by (simp add: ex_s_draws)
  have x: "all_throughput (int 1) (word_of_int (num_online_cpus ex_ipi)) (loops ex_s)
      (clock ex_ipi (Suc 0) - clock ex_ipi 0) = Inr 9000000"
    by (simp add: all_throughput_def ex_ipi_def ex_s_fields)
  have "complete_run (glob (worker_end ex_ipi ex_phase [0] 1 ex_s)) = 1"
    by (simp add: worker_end_def ipi_bench_wait_all_def run_schedule_def worker_state_def worker_threads_def
        launch_def thread_step_def Let_def ex_s_fields ex_ipi_def)
  moreover have "ipi_bench_all ex_ipi ex_phase 0 (int 1) ex_s =
    Inr (0, isay ''ipi_bench: throughput %ld ipi/s'' [ALong 9000000]
      (reported_workers ex_ipi ex_s (worker_end ex_ipi ex_phase [0] 1 ex_s)))"
    by (rule all_bench [OF _ b _ _ _ x]) (simp_all add: ex_ipi_def ex_s_fields ulong_of_int_def)
  moreover obtain s' where s': "ipi_bench_all ex_ipi ex_phase 0 (int 1) ex_s = Inr (0, s')"
    and log: "complete_run s' = of_nat 1 \<longrightarrow> ilog s' = ilog ex_s @
        map (\<lambda>a. (''ipi_bench: prepare broadcast IPI from CPU[%3d] to all CPUs'', [AInt a])) [0] @
        map (\<lambda>i. report_all_line ex_ipi ex_s (stamped_args (wenvs ex_phase i) (named_all (worker_args [0] ! i)))) [0..<1] @
        [(''ipi_bench: throughput %ld ipi/s'', [ALong 9000000])]"
    using all_bench_measures [OF ex_smp(1) _ b _ _ _ _ x, of ex_phase] ex_mesh_env(1)
    by (auto simp: ex_s_fields ex_ipi_def)
  ultimately have c: "complete_run s' = 1" by (auto simp: reported_workers_def isay_def)
  with log have "length (ilog s') = 3" by (simp add: ex_s_fields)
  with s' c show ?thesis by blast
qed

end
