(* ===== verification/Ipi_Callbacks.thy ===== *)
theory Ipi_Callbacks
  imports Ipi_Worker Spin_Section Ranked_Steps
begin

text \<open>
  \<open>microbenchmark/ipi-bench/ipi_bench.c\<close>: the functions that run on the other CPUs, \<open>ipi_bench_gettime\<close>,
  \<open>ipi_bench_spinlock\<close> and \<open>ipi_bench_empty\<close>, together with the loops that send them. Both loops hand out the address of
  a local variable, \<open>now\<close> or \<open>spinlock\<close>. In \<open>Ipi_Worker\<close> a call is one operation; here sender and targets take
  single steps. Of the kernel's \<open>smp_call_function_single\<close> and \<open>smp_call_function_many\<close> the steps have what their
  documentation says: a call that is not refused is run once by each target, at any time; with \<open>wait\<close> the sender
  returns from the call after that, without \<open>wait\<close> it may return before. The targets are other CPUs than the sender's.
  What is proved: with \<open>wait\<close> the measurement is that of \<open>Ipi_Worker\<close>, everything ends, and the variables are no
  longer used when the functions return; without \<open>wait\<close> they can be.
\<close>

section \<open>A call to one CPU\<close>

datatype one_pc =
    Head nat              \<comment> \<open>before the test of the loop, that many rounds to go\<close>
  | Sending nat           \<comment> \<open>\<open>now\<close> is stamped, before \<open>smp_call_function_single\<close>\<close>
  | Awaiting nat          \<comment> \<open>in the call, waiting for its end\<close>
  | Returned int

datatype cb_pc =
    Resting
  | Reading nat           \<comment> \<open>in \<open>ipi_bench_gettime\<close> for the call of a round\<close>
  | Writing u64           \<comment> \<open>before \<open>atomic64_set(info, diff)\<close>\<close>

record one_sys =
  o_pc :: one_pc
  o_round :: nat          \<comment> \<open>rounds behind it, for the choice of the times only\<close>
  o_sum :: u64            \<comment> \<open>\<open>ipitime\<close>\<close>
  o_slot :: u64           \<comment> \<open>the word of the stack that is \<open>now\<close>\<close>
  o_pending :: "nat list" \<comment> \<open>calls the target has not taken\<close>
  o_target :: cb_pc

inductive ostep :: "worker_env \<Rightarrow> int \<Rightarrow> one_sys \<Rightarrow> one_sys \<Rightarrow> bool" for w :: worker_env and wt :: int where
  loop_end: "o_pc b = Head 0 \<Longrightarrow> ostep w wt b (b\<lparr>o_pc := Returned 0\<rparr>)"
| stamp: "o_pc b = Head (Suc n) \<Longrightarrow> ostep w wt b (b\<lparr>o_pc := Sending n, o_slot := send_time w (o_round b)\<rparr>)"
| fail: "o_pc b = Sending n \<Longrightarrow> smp_ret w (o_round b) < 0 \<Longrightarrow>
    ostep w wt b (b\<lparr>o_pc := Returned (smp_ret w (o_round b))\<rparr>)"
| call_wait: "o_pc b = Sending n \<Longrightarrow> \<not> smp_ret w (o_round b) < 0 \<Longrightarrow> wt \<noteq> 0 \<Longrightarrow>
    ostep w wt b (b\<lparr>o_pc := Awaiting n, o_pending := o_pending b @ [o_round b]\<rparr>)"
| call_nowait: "o_pc b = Sending n \<Longrightarrow> \<not> smp_ret w (o_round b) < 0 \<Longrightarrow> wt = 0 \<Longrightarrow>
    ostep w wt b (b\<lparr>o_pc := Head n, o_round := Suc (o_round b), o_pending := o_pending b @ [o_round b]\<rparr>)"
| add: "o_pc b = Awaiting n \<Longrightarrow> o_pending b = [] \<Longrightarrow> o_target b = Resting \<Longrightarrow>
    ostep w wt b (b\<lparr>o_pc := Head n, o_round := Suc (o_round b), o_sum := o_sum b + o_slot b\<rparr>)"
| take_call: "o_target b = Resting \<Longrightarrow> i \<in> set (o_pending b) \<Longrightarrow>
    ostep w wt b (b\<lparr>o_pending := remove1 i (o_pending b), o_target := Reading i\<rparr>)"
| read_start: "o_target b = Reading i \<Longrightarrow>
    ostep w wt b (b\<lparr>o_target := Writing (ipi_bench_gettime (recv_time w i) (o_slot b))\<rparr>)"
| write_diff: "o_target b = Writing d \<Longrightarrow> ostep w wt b (b\<lparr>o_target := Resting, o_slot := d\<rparr>)"
| reuse: "o_pc b = Returned r \<Longrightarrow> ostep w wt b (b\<lparr>o_slot := v\<rparr>)"

definition one_start :: "ipi_state \<Rightarrow> u64 \<Rightarrow> one_sys" where
  "one_start s v = \<lparr>o_pc = Head (nat (loops s)), o_round = 0, o_sum = 0, o_slot = v, o_pending = [], o_target = Resting\<rparr>"

abbreviation oruns :: "worker_env \<Rightarrow> int \<Rightarrow> one_sys \<Rightarrow> one_sys \<Rightarrow> bool" where
  "oruns w wt \<equiv> (ostep w wt)\<^sup>*\<^sup>*"

definition quiet :: "one_sys \<Rightarrow> bool" where   \<comment> \<open>no call to come, none under way\<close>
  "quiet b \<longleftrightarrow> o_pending b = [] \<and> o_target b = Resting"

text \<open>The one call that a waiting sender can have out: not taken, before its read, before its write, or done.\<close>

definition one_out :: "worker_env \<Rightarrow> one_sys \<Rightarrow> bool" where
  "one_out w b \<longleftrightarrow>
     (let i = o_round b; d = ipi_bench_gettime (recv_time w i) (send_time w i) in
      (o_pending b = [i] \<and> o_target b = Resting \<and> o_slot b = send_time w i) \<or>
      (o_pending b = [] \<and> o_target b = Reading i \<and> o_slot b = send_time w i) \<or>
      (o_pending b = [] \<and> o_target b = Writing d) \<or>
      (o_pending b = [] \<and> o_target b = Resting \<and> o_slot b = d))"

lemma bench_one_loop_ret: "fst (bench_one_loop w wt n i t) \<le> 0"
  by (induction w wt n i t rule: bench_one_loop.induct) (simp_all add: Let_def)

text \<open>The loop of \<open>Ipi_Worker\<close>, continued from where the sender is, has the result \<open>R\<close>.\<close>

definition one_inv :: "worker_env \<Rightarrow> int \<Rightarrow> int \<times> u64 \<Rightarrow> one_sys \<Rightarrow> bool" where
  "one_inv w wt R b \<longleftrightarrow>
     (case o_pc b of
        Head n \<Rightarrow> bench_one_loop w wt n (o_round b) (o_sum b) = R \<and> (wt \<noteq> 0 \<longrightarrow> quiet b)
      | Sending n \<Rightarrow> bench_one_loop w wt (Suc n) (o_round b) (o_sum b) = R \<and>
          (wt \<noteq> 0 \<longrightarrow> quiet b \<and> o_slot b = send_time w (o_round b))
      | Awaiting n \<Rightarrow> wt \<noteq> 0 \<and> \<not> smp_ret w (o_round b) < 0 \<and>
          bench_one_loop w wt (Suc n) (o_round b) (o_sum b) = R \<and> one_out w b
      | Returned r \<Rightarrow> R = (r, o_sum b) \<and> (wt \<noteq> 0 \<longrightarrow> quiet b))"

lemma one_inv_step: "ostep w wt b b' \<Longrightarrow> one_inv w wt R b \<Longrightarrow> one_inv w wt R b'"
  by (induction rule: ostep.induct)
     (auto simp: one_inv_def one_out_def quiet_def Let_def split: one_pc.splits if_splits)

lemma one_inv_start: "one_inv w wt (bench_one_loop w wt (nat (loops s)) 0 0) (one_start s v)"
  by (simp add: one_inv_def one_start_def quiet_def)

text \<open>Every step of a sender that has not returned, and of its target, brings both closer to the end.\<close>

fun sender_rank :: "one_pc \<Rightarrow> nat" where
  "sender_rank (Head n) = 6 * n + 1"
| "sender_rank (Sending n) = 6 * n + 6"
| "sender_rank (Awaiting n) = 6 * n + 2"
| "sender_rank (Returned r) = 0"

fun target_rank :: "cb_pc \<Rightarrow> nat" where
  "target_rank Resting = 0"
| "target_rank (Reading i) = 2"
| "target_rank (Writing d) = 1"

definition one_rank :: "one_sys \<Rightarrow> nat" where
  "one_rank b = sender_rank (o_pc b) + 3 * length (o_pending b) + target_rank (o_target b)"

definition returned :: "one_sys \<Rightarrow> bool" where
  "returned b \<longleftrightarrow> (\<exists>r. o_pc b = Returned r)"

lemma one_rank_step: "ostep w wt b b' \<Longrightarrow> \<not> returned b' \<Longrightarrow> one_rank b' < one_rank b"
proof (induction rule: ostep.induct)
  case (take_call b i)
  then obtain n where "length (o_pending b) = Suc n" by (cases "o_pending b") auto
  with take_call show ?case by (simp add: one_rank_def length_remove1)
qed (auto simp: one_rank_def returned_def)

lemma returned_step: "ostep w wt b b' \<Longrightarrow> returned b \<Longrightarrow> returned b'"
  by (induction rule: ostep.induct) (auto simp: returned_def)

lemma one_steps_on:
  assumes "one_inv w wt R b" and "\<not> returned b"
  shows "\<exists>b'. ostep w wt b b'"
proof (cases "o_target b")
  case Resting
  show ?thesis
  proof (cases "o_pending b")
    case Nil
    with Resting assms show ?thesis
    proof (cases "o_pc b")
      case (Head n)
      then show ?thesis by (cases n) (blast intro: loop_end stamp)+
    next
      case (Sending n)
      then show ?thesis by (cases "smp_ret w (o_round b) < 0"; cases "wt = 0") (blast intro: ostep.intros)+
    next
      case (Awaiting n)
      with Nil Resting show ?thesis by (blast intro: add)
    next
      case (Returned r)
      with assms(2) show ?thesis by (simp add: returned_def)
    qed
  next
    case (Cons i is')
    then have "i \<in> set (o_pending b)" by simp
    with Resting show ?thesis by (blast intro: take_call)
  qed
qed (blast intro: read_start write_diff)+

interpretation one_call: ending_steps "ostep w wt" "one_inv w wt R" one_rank returned returned for w wt R
  by unfold_locales (auto intro: one_inv_step one_rank_step returned_step one_steps_on)

text \<open>
  C33: one benchmark thread and the callbacks it causes, as they run on two CPUs, measure what the loop of
  \<open>ipi_bench_one\<close> measures when the callback is a function call: whenever the sender has returned, its result and
  the sum of the times are those of the sequential function. Until then the two are never stuck, and after six
  steps per round and one more it has returned.
\<close>

theorem one_call_measures:
  assumes "(ostep w (wait s) ^^ k) (one_start s v) b"
  shows "(\<forall>r. o_pc b = Returned r \<longrightarrow> ipi_bench_one w s ba = (r, if r < 0 then ba else ba\<lparr>ipitime := o_sum b\<rparr>)) \<and>
    (returned b \<or> (k \<le> 6 * nat (loops s) \<and> (\<exists>b'. ostep w (wait s) b b')))"
proof -
  let ?R = "bench_one_loop w (wait s) (nat (loops s)) 0 0"
  have "oruns w (wait s) (one_start s v) b" using assms by (rule relpowp_imp_rtranclp)
  then have inv: "one_inv w (wait s) ?R b" using one_inv_start by (rule one_call.inv_run)
  have "0 < one_rank b" if "\<not> returned b"
    using that by (cases "o_pc b") (simp_all add: one_rank_def returned_def)
  moreover have "one_rank (one_start s v) = 6 * nat (loops s) + 1" by (simp add: one_rank_def one_start_def)
  ultimately have "returned b \<or> k \<le> 6 * nat (loops s)" using one_call.run_bounded [OF assms one_inv_start] by fastforce
  with one_steps_on [OF inv] have "returned b \<or> (k \<le> 6 * nat (loops s) \<and> (\<exists>b'. ostep w (wait s) b b'))" by blast
  moreover have "ipi_bench_one w s ba = (r, if r < 0 then ba else ba\<lparr>ipitime := o_sum b\<rparr>)" if "o_pc b = Returned r" for r
  proof -
    have R: "?R = (r, o_sum b)" using inv that by (simp add: one_inv_def)
    have "0 \<le> r \<Longrightarrow> r = 0" using bench_one_loop_ret [of w "wait s" "nat (loops s)" 0 0] R by simp
    with R show ?thesis by (auto simp: ipi_bench_one_def)
  qed
  ultimately show ?thesis by blast
qed

text \<open>One round, with the callback 200 ns after the sending.\<close>

definition ex_once :: ipi_state where
  "ex_once = ex_s\<lparr>loops := 1, wait := 1\<rparr>"

lemma relpowp_more: "0 < n \<Longrightarrow> R a b \<Longrightarrow> (R ^^ (n - 1)) b c \<Longrightarrow> (R ^^ n) a c"
  by (metis Suc_pred' relpowp_Suc_I2)

lemma ex_once_run:
  "(ostep ex_w 1 ^^ 7) (one_start ex_once 0)
     \<lparr>o_pc = Returned 0, o_round = 1, o_sum = 200, o_slot = 200, o_pending = [], o_target = Resting\<rparr>"
  apply (rule relpowp_more, simp, rule stamp [of _ 0], simp add: one_start_def ex_once_def)
  apply (rule relpowp_more, simp, rule call_wait, simp, simp add: ex_w_def, simp)
  apply (rule relpowp_more, simp, rule take_call [of _ 0], simp_all add: one_start_def)
  apply (rule relpowp_more, simp, rule read_start, simp)
  apply (rule relpowp_more, simp, rule write_diff, simp)
  apply (rule relpowp_more, simp, rule add, simp, simp, simp)
  apply (rule relpowp_more, simp, rule loop_end, simp)
  apply (simp add: ipi_bench_gettime_def ex_w_def)
  done

theorem one_call_measures_witness:
  "ipi_bench_one ex_w ex_once bench_args0 = (0, bench_args0\<lparr>ipitime := 200\<rparr>)"
proof -
  have "wait ex_once = 1" by (simp add: ex_once_def)
  with one_call_measures [of 7 ex_w ex_once 0 _ bench_args0] ex_once_run show ?thesis by fastforce
qed

section \<open>The word on the stack after the return\<close>

lemma one_idle: "oruns w wt b b' \<Longrightarrow> quiet b \<Longrightarrow> o_pc b = Head 0 \<Longrightarrow> quiet b'"
proof -
  assume "oruns w wt b b'" "quiet b" "o_pc b = Head 0"
  then have "quiet b' \<and> (o_pc b' = Head 0 \<or> returned b')"
  proof (induction rule: rtranclp_induct)
    case (step b1 b2)
    from step.hyps(2) step.IH [OF step.prems] show ?case
      by (induction rule: ostep.induct) (auto simp: quiet_def returned_def)
  qed simp
  then show "quiet b'" by blast
qed

lemma nowait_round:
  assumes "o_pc b = Head (Suc n)" and "quiet b" and "0 \<le> smp_ret w (o_round b)"
  shows "\<exists>b1. ostep w 0 b b1 \<and> (\<exists>b2. ostep w 0 b1 b2 \<and> o_pc b2 = Head n \<and> o_round b2 = Suc (o_round b) \<and>
    o_pending b2 = [o_round b] \<and> o_target b2 = Resting)"
proof -
  let ?b1 = "b\<lparr>o_pc := Sending n, o_slot := send_time w (o_round b)\<rparr>"
  have "ostep w 0 ?b1 (?b1\<lparr>o_pc := Head n, o_round := Suc (o_round ?b1), o_pending := o_pending ?b1 @ [o_round ?b1]\<rparr>)"
    by (rule call_nowait) (use assms(3) in simp_all)
  with stamp [OF assms(1), of w 0] assms(2) show ?thesis
    by (intro exI conjI) (assumption | simp add: quiet_def)+
qed

lemma answer:
  assumes "o_pending b = [i]" and "o_target b = Resting"
  shows "oruns w wt b (b\<lparr>o_pending := [], o_target := Writing (ipi_bench_gettime (recv_time w i) (o_slot b))\<rparr>)"
proof -
  have "ostep w wt b (b\<lparr>o_pending := remove1 i (o_pending b), o_target := Reading i\<rparr>)"
    using assms by (intro take_call) simp_all
  with assms have 1: "ostep w wt b (b\<lparr>o_pending := [], o_target := Reading i\<rparr>)" by simp
  with read_start [of "b\<lparr>o_pending := [], o_target := Reading i\<rparr>" i w wt] show ?thesis
    by (simp add: rtranclp.rtrancl_into_rtrancl)
qed

lemma nowait_rounds:
  assumes "\<forall>j < m + n. 0 \<le> smp_ret w j"
  shows "o_pc b = Head (m + n) \<Longrightarrow> quiet b \<Longrightarrow> o_round b = 0 \<Longrightarrow>
    \<exists>b'. oruns w 0 b b' \<and> o_pc b' = Head n \<and> quiet b' \<and> o_round b' = m"
  using assms
proof (induction m arbitrary: n)
  case 0
  then show ?case by auto
next
  case (Suc m)
  then obtain b' where b': "oruns w 0 b b'" "o_pc b' = Head (Suc n)" "quiet b'" "o_round b' = m"
    by (metis add_Suc_shift)
  have "0 \<le> smp_ret w (o_round b')" using Suc.prems(4) b'(4) by simp
  from nowait_round [OF b'(2,3) this] obtain b2 where b2: "oruns w 0 b' b2" "o_pc b2 = Head n"
    "o_round b2 = Suc m" "o_pending b2 = [m]" "o_target b2 = Resting"
    using b'(4) by (metis converse_rtranclp_into_rtranclp r_into_rtranclp)
  let ?b3 = "b2\<lparr>o_pending := [], o_target := Writing (ipi_bench_gettime (recv_time w m) (o_slot b2))\<rparr>"
  let ?b4 = "?b3\<lparr>o_target := Resting, o_slot := ipi_bench_gettime (recv_time w m) (o_slot b2)\<rparr>"
  have "ostep w 0 ?b3 ?b4" by (rule write_diff) simp
  with b'(1) b2(1) answer [OF b2(4,5)] have "oruns w 0 b ?b4" by (meson rtranclp.rtrancl_into_rtrancl rtranclp_trans)
  moreover have "o_pc ?b4 = Head n" "quiet ?b4" "o_round ?b4 = Suc m" using b2 by (simp_all add: quiet_def)
  ultimately show ?case by blast
qed

text \<open>
  C36: when no call is refused, a callback writes to the stack of a function that has returned exactly when the module is told not to wait
  (\<open>wait=0\<close>) and at least one call is made. Then, whatever the word that was \<open>now\<close> has become (\<open>x\<close>), the callback of
  the last call can be about to overwrite it with a time difference. With \<open>wait\<close> the function returns after the
  last of its callbacks.
\<close>

theorem late_write:
  assumes "\<forall>j < nat (loops s). 0 \<le> smp_ret w j"
  shows "(\<exists>b. oruns w (wait s) (one_start s v) b \<and> o_pc b = Returned 0 \<and> o_slot b = x \<and>
      o_target b = Writing (ipi_bench_gettime (recv_time w (nat (loops s) - 1)) x)) \<longleftrightarrow>
    wait s = 0 \<and> 0 < loops s" (is "(\<exists>b. ?late b) \<longleftrightarrow> _")
proof
  assume "\<exists>b. ?late b"
  then obtain b where b: "oruns w (wait s) (one_start s v) b" "o_pc b = Returned 0" "\<not> quiet b"
    by (auto simp: quiet_def)
  from one_call.inv_run [OF b(1) one_inv_start] b(2,3) have "wait s = 0" by (auto simp: one_inv_def)
  moreover have "0 < loops s"
  proof (rule ccontr)
    assume "\<not> 0 < loops s"
    then have "quiet b" using one_idle [OF b(1)] by (simp add: one_start_def quiet_def)
    with b(3) show False by blast
  qed
  ultimately show "wait s = 0 \<and> 0 < loops s" by blast
next
  assume a: "wait s = 0 \<and> 0 < loops s"
  then obtain m where m: "nat (loops s) = Suc m" by (metis gr0_implies_Suc zero_less_nat_eq)
  have "o_pc (one_start s v) = Head (m + 1)" "quiet (one_start s v)" "o_round (one_start s v) = 0"
    by (simp_all add: one_start_def quiet_def m)
  from nowait_rounds [OF _ this, of w] assms m obtain b1
    where b1: "oruns w 0 (one_start s v) b1" "o_pc b1 = Head (Suc 0)" "quiet b1" "o_round b1 = m" by auto
  have "0 \<le> smp_ret w (o_round b1)" using assms m b1(4) by simp
  from nowait_round [OF b1(2,3) this] obtain b2 where b2: "oruns w 0 b1 b2" "o_pc b2 = Head 0"
    "o_pending b2 = [m]" "o_target b2 = Resting"
    using b1(4) by (metis converse_rtranclp_into_rtranclp r_into_rtranclp)
  let ?b3 = "b2\<lparr>o_pc := Returned 0\<rparr>"
  let ?b4 = "?b3\<lparr>o_slot := x\<rparr>"
  have "ostep w 0 b2 ?b3" "ostep w 0 ?b3 ?b4" using b2(2) by (blast intro: loop_end, intro reuse [of _ 0]) simp
  moreover have "oruns w 0 ?b4 (?b4\<lparr>o_pending := [], o_target := Writing (ipi_bench_gettime (recv_time w m) (o_slot ?b4))\<rparr>)"
    (is "oruns w 0 ?b4 ?b5") by (rule answer) (simp_all add: b2)
  ultimately have "oruns w 0 (one_start s v) ?b5"
    using b1(1) b2(1) by (meson rtranclp.rtrancl_into_rtrancl rtranclp_trans)
  with a m have "?late ?b5" by simp
  then show "\<exists>b. ?late b" by blast
qed

theorem late_write_witness:
  "\<exists>b. oruns ex_w 0 (one_start (ex_s\<lparr>wait := 0\<rparr>) 0) b \<and> o_pc b = Returned 0 \<and> o_slot b = 7 \<and> o_target b = Writing 3193"
  using late_write [of "ex_s\<lparr>wait := 0\<rparr>" ex_w 0 7]
  by (simp add: ex_s_def ex_w_def ipi_bench_gettime_def)

section \<open>Broadcasts\<close>

datatype bpc =
    Away_from_call
  | In_empty              \<comment> \<open>in \<open>ipi_bench_empty\<close>\<close>
  | Before_lock           \<comment> \<open>in \<open>ipi_bench_spinlock\<close>, before \<open>spin_lock\<close>\<close>
  | Holding_lock          \<comment> \<open>before \<open>spin_unlock\<close>\<close>

datatype many_pc =
    Issue "many_call list"     \<comment> \<open>the calls to go\<close>
  | Await "many_call list"     \<comment> \<open>in a call that waits, and the calls after it\<close>
  | Gone                       \<comment> \<open>\<open>ipi_bench_many\<close> has returned\<close>

record many_sys =
  m_pc :: many_pc
  m_lock :: bool               \<comment> \<open>\<open>spinlock\<close>, on the stack of the sender\<close>
  m_queues :: "many_call list list"   \<comment> \<open>by target: the calls it has not taken\<close>
  m_targets :: "bpc list"

fun waits :: "many_call \<Rightarrow> bool" where
  "waits (Many_Spinlock wt) = (wt \<noteq> 0)"
| "waits (Many_Empty wt) = (wt \<noteq> 0)"

fun entry :: "many_call \<Rightarrow> bpc" where
  "entry (Many_Spinlock wt) = Before_lock"
| "entry (Many_Empty wt) = In_empty"

definition all_done :: "many_sys \<Rightarrow> bool" where
  "all_done b \<longleftrightarrow> (\<forall>q \<in> set (m_queues b). q = []) \<and> (\<forall>p \<in> set (m_targets b). p = Away_from_call)"

inductive mstep :: "many_sys \<Rightarrow> many_sys \<Rightarrow> bool" where
  issue: "m_pc b = Issue (c # cs) \<Longrightarrow>
    mstep b (b\<lparr>m_pc := if waits c then Await cs else Issue cs, m_queues := map (\<lambda>q. q @ [c]) (m_queues b)\<rparr>)"
| resume: "m_pc b = Await cs \<Longrightarrow> all_done b \<Longrightarrow> mstep b (b\<lparr>m_pc := Issue cs\<rparr>)"
| return: "m_pc b = Issue [] \<Longrightarrow> mstep b (b\<lparr>m_pc := Gone\<rparr>)"
| take_call: "j < length (m_targets b) \<Longrightarrow> m_targets b ! j = Away_from_call \<Longrightarrow> m_queues b ! j = c # q \<Longrightarrow>
    mstep b (b\<lparr>m_queues := (m_queues b)[j := q], m_targets := (m_targets b)[j := entry c]\<rparr>)"
| empty: "j < length (m_targets b) \<Longrightarrow> m_targets b ! j = In_empty \<Longrightarrow>
    mstep b (b\<lparr>m_targets := (m_targets b)[j := Away_from_call]\<rparr>)"
| acquire: "j < length (m_targets b) \<Longrightarrow> m_targets b ! j = Before_lock \<Longrightarrow> \<not> m_lock b \<Longrightarrow>
    mstep b (b\<lparr>m_targets := (m_targets b)[j := Holding_lock], m_lock := True\<rparr>)"
| release: "j < length (m_targets b) \<Longrightarrow> m_targets b ! j = Holding_lock \<Longrightarrow>
    mstep b (b\<lparr>m_targets := (m_targets b)[j := Away_from_call], m_lock := False\<rparr>)"

text \<open>The broadcast of \<open>ipi_bench_many\<close> to \<open>n\<close> other CPUs.\<close>

definition many_start :: "nat \<Rightarrow> ipi_state \<Rightarrow> many_sys" where
  "many_start n s = \<lparr>m_pc = Issue (snd (ipi_bench_many s)), m_lock = False,
     m_queues = replicate n [], m_targets = replicate n Away_from_call\<rparr>"

abbreviation mruns :: "many_sys \<Rightarrow> many_sys \<Rightarrow> bool" where
  "mruns \<equiv> mstep\<^sup>*\<^sup>*"

text \<open>The program counters with the sender in front, so that each step, the sender's too, moves one of them.\<close>

definition holds_lock :: "bpc \<Rightarrow> bool" where
  "holds_lock p \<longleftrightarrow> p = Holding_lock"

interpretation callback: spin_section mstep "\<lambda>b. Away_from_call # m_targets b" m_lock holds_lock
proof
  fix b b' assume "mstep b b'"
  then show "\<exists>c q. c < length (Away_from_call # m_targets b) \<and>
      Away_from_call # m_targets b' = (Away_from_call # m_targets b)[c := q] \<and>
      (if holds_lock ((Away_from_call # m_targets b) ! c) then m_lock b' = (m_lock b \<and> holds_lock q)
       else if holds_lock q then \<not> m_lock b \<and> m_lock b' else m_lock b' = m_lock b)"
  proof cases
    case (take_call j c q)
    have "\<not> holds_lock (entry c)" by (cases c) (simp_all add: holds_lock_def)
    with take_call show ?thesis by (intro exI [of _ "Suc j"] exI [of _ "entry c"]) (simp add: holds_lock_def)
  next
    case (empty j)
    then show ?thesis by (intro exI [of _ "Suc j"] exI [of _ Away_from_call]) (simp add: holds_lock_def)
  next
    case (acquire j)
    then show ?thesis by (intro exI [of _ "Suc j"] exI [of _ Holding_lock]) (simp add: holds_lock_def)
  next
    case (release j)
    then show ?thesis by (intro exI [of _ "Suc j"] exI [of _ Away_from_call]) (simp add: holds_lock_def)
  qed (auto intro!: exI [of _ 0] exI [of _ Away_from_call] simp: holds_lock_def)
qed

definition touches :: "bpc \<Rightarrow> bool" where   \<comment> \<open>going to read or write the lock\<close>
  "touches p \<longleftrightarrow> p = Before_lock \<or> p = Holding_lock"

fun calls_left :: "many_pc \<Rightarrow> many_call list" where
  "calls_left (Issue cs) = cs"
| "calls_left (Await cs) = cs"
| "calls_left Gone = []"

text \<open>
  Only calls of the loop are on their way; only such a call touches the lock; and a sender that is told to wait
  is in a call while one of its callbacks is not done.
\<close>

definition many_inv :: "nat \<Rightarrow> ipi_state \<Rightarrow> many_sys \<Rightarrow> bool" where
  "many_inv n s b \<longleftrightarrow>
     (let C = set (snd (ipi_bench_many s)) in
      length (m_queues b) = n \<and> length (m_targets b) = n \<and> set (calls_left (m_pc b)) \<subseteq> C \<and>
      (\<forall>q \<in> set (m_queues b). set q \<subseteq> C) \<and>
      (\<forall>p \<in> set (m_targets b). touches p \<longrightarrow> Before_lock \<in> entry ` C) \<and>
      (wait s \<noteq> 0 \<longrightarrow> all_done b \<or> (\<exists>cs. m_pc b = Await cs)))"

lemma many_calls:
  "set (snd (ipi_bench_many s)) =
     (if 0 < loops s then {if lock s \<noteq> 0 then Many_Spinlock (wait s) else Many_Empty (wait s)} else {})"
proof -
  have "set (many_loop lk wt n) = (if 0 < n then {if lk \<noteq> 0 then Many_Spinlock wt else Many_Empty wt} else {})" for lk wt n
    by (induction n) auto
  then show ?thesis by (simp add: ipi_bench_many_def)
qed

lemma waits_calls: "c \<in> set (snd (ipi_bench_many s)) \<Longrightarrow> waits c \<longleftrightarrow> wait s \<noteq> 0"
  by (auto simp: many_calls split: if_splits)

lemma touches_entry: "touches (entry c) \<Longrightarrow> entry c = Before_lock"
  by (cases c) (simp_all add: touches_def)

lemma busy_target:
  assumes "j < length (m_targets b)" and "m_targets b ! j \<noteq> Away_from_call"
  shows "\<not> all_done b"
  using assms nth_mem [OF assms(1)] by (auto simp: all_done_def)

lemma many_inv_start: "many_inv n s (many_start n s)"
  by (auto simp: many_inv_def many_start_def all_done_def touches_def Let_def)

lemma many_inv_step:
  assumes "mstep b b'" and inv: "many_inv n s b"
  shows "many_inv n s b'"
  using assms(1)
proof cases
  case (issue c cs)
  then have "c \<in> set (snd (ipi_bench_many s))" using inv by (simp add: many_inv_def Let_def)
  with issue inv waits_calls [OF this] show ?thesis by (auto simp: many_inv_def Let_def)
next
  case (take_call j c q)
  from inv have n: "length (m_queues b) = n" "length (m_targets b) = n" by (simp_all add: many_inv_def Let_def)
  with take_call have j: "c # q \<in> set (m_queues b)" by (metis nth_mem)
  with inv have C: "c \<in> set (snd (ipi_bench_many s))" "set q \<subseteq> set (snd (ipi_bench_many s))"
    by (force simp: many_inv_def Let_def)+
  from j have "\<not> all_done b" by (force simp: all_done_def)
  with take_call inv n C show ?thesis
    by (auto simp: many_inv_def Let_def dest: touches_entry dest!: set_update_subset_insert [THEN subsetD])
       (metis imageI touches_entry)+
next
  case (empty j)
  with busy_target [of j b] inv show ?thesis
    by (auto simp: many_inv_def Let_def touches_def dest!: set_update_subset_insert [THEN subsetD])
next
  case (acquire j)
  with nth_mem [OF acquire(2)] busy_target [of j b] inv show ?thesis
    by (auto simp: many_inv_def Let_def touches_def dest!: set_update_subset_insert [THEN subsetD])
next
  case (release j)
  with busy_target [of j b] inv show ?thesis
    by (auto simp: many_inv_def Let_def touches_def dest!: set_update_subset_insert [THEN subsetD])
qed (use inv in \<open>auto simp: many_inv_def Let_def all_done_def\<close>)

text \<open>Every step brings the end of the callbacks closer.\<close>

fun bpc_rank :: "bpc \<Rightarrow> nat" where
  "bpc_rank Away_from_call = 0"
| "bpc_rank In_empty = 1"
| "bpc_rank Before_lock = 2"
| "bpc_rank Holding_lock = 1"

fun issuer_rank :: "nat \<Rightarrow> many_pc \<Rightarrow> nat" where
  "issuer_rank n (Issue cs) = length cs * (3 * n + 2) + 1"
| "issuer_rank n (Await cs) = length cs * (3 * n + 2) + 2"
| "issuer_rank n Gone = 0"

definition many_rank :: "nat \<Rightarrow> many_sys \<Rightarrow> nat" where
  "many_rank n b = issuer_rank n (m_pc b) + 3 * sum_list (map length (m_queues b)) + sum_list (map bpc_rank (m_targets b))"

lemma sum_length_snoc: "sum_list (map (length \<circ> (\<lambda>q. q @ [c])) qs) = sum_list (map length qs) + length qs"
  by (induction qs) simp_all

lemma bpc_rank_entry: "bpc_rank (entry c) \<le> 2"
  by (cases c) simp_all

lemma many_rank_step:
  assumes "mstep b b'" and inv: "many_inv n s b"
  shows "many_rank n b' < many_rank n b"
  using assms(1)
proof cases
  case (issue c cs)
  then show ?thesis using inv
    by (simp add: many_rank_def many_inv_def Let_def sum_length_snoc algebra_simps)
next
  case (take_call j c q)
  with inv have j: "j < length (m_queues b)" by (simp add: many_inv_def Let_def)
  from take_call sum_map_update [OF j, of length q] sum_map_update [of j "m_targets b" bpc_rank "entry c"]
    bpc_rank_entry [of c]
  show ?thesis by (simp add: many_rank_def)
next
  case (empty j)
  with sum_map_update [of j "m_targets b" bpc_rank Away_from_call] show ?thesis by (simp add: many_rank_def)
next
  case (acquire j)
  with sum_map_update [of j "m_targets b" bpc_rank Holding_lock] show ?thesis by (simp add: many_rank_def)
next
  case (release j)
  with sum_map_update [of j "m_targets b" bpc_rank Away_from_call] show ?thesis by (simp add: many_rank_def)
qed (simp_all add: many_rank_def)

lemma many_steps_on:
  assumes inv: "many_inv n s b"
    and one: "occupants holds_lock (Away_from_call # m_targets b) = (if m_lock b then 1 else 0)"
    and on: "m_pc b \<noteq> Gone \<or> \<not> all_done b"
  shows "\<exists>b'. mstep b b'"
proof (cases "\<exists>j < length (m_targets b). m_targets b ! j \<noteq> Away_from_call")
  case True
  then obtain j where j: "j < length (m_targets b)" "m_targets b ! j \<noteq> Away_from_call" by blast
  show ?thesis
  proof (cases "m_targets b ! j = Before_lock \<and> m_lock b")
    case True
    with one have "occupants holds_lock (m_targets b) \<noteq> 0" by (simp add: occupants_def holds_lock_def)
    then show ?thesis by (auto simp: occupants_none holds_lock_def intro: release)
  next
    case False
    with j show ?thesis by (cases "m_targets b ! j") (auto intro: empty acquire release)
  qed
next
  case False
  then have away: "\<forall>p \<in> set (m_targets b). p = Away_from_call" by (auto simp: in_set_conv_nth)
  show ?thesis
  proof (cases "all_done b")
    case True
    with on show ?thesis
    proof (cases "m_pc b")
      case (Issue cs)
      then show ?thesis by (cases cs) (blast intro: issue return)+
    qed (use True in \<open>blast intro: resume\<close>)+
  next
    case False
    with away obtain q where q: "q \<in> set (m_queues b)" "q \<noteq> []" by (auto simp: all_done_def)
    then obtain j where j: "j < length (m_queues b)" "m_queues b ! j = q" by (metis in_set_conv_nth)
    from inv j away have "j < length (m_targets b)" "m_targets b ! j = Away_from_call"
      by (simp_all add: many_inv_def Let_def)
    moreover obtain c q' where "m_queues b ! j = c # q'" using j(2) q(2) by (cases q) simp_all
    ultimately show ?thesis by (blast intro: take_call)
  qed
qed

definition one_holder :: "many_sys \<Rightarrow> bool" where
  "one_holder b \<longleftrightarrow> occupants holds_lock (Away_from_call # m_targets b) = (if m_lock b then 1 else 0)"

interpretation broadcast: ending_steps mstep "\<lambda>b. many_inv n s b \<and> one_holder b" "many_rank n" "\<lambda>_. False"
    "\<lambda>b. m_pc b = Gone \<and> all_done b" for n s
  by unfold_locales
     (use many_inv_step many_rank_step callback.exclusive_step many_steps_on in \<open>auto simp: one_holder_def\<close>)

lemma many_start_inv: "many_inv n s (many_start n s) \<and> one_holder (many_start n s)"
  by (simp add: many_inv_start) (simp add: one_holder_def many_start_def occupants_def holds_lock_def)

lemmas many_reached = broadcast.inv_run [OF _ many_start_inv]

lemma one_holder_length: "one_holder b \<Longrightarrow> length (filter holds_lock (m_targets b)) = (if m_lock b then 1 else 0)"
  by (simp add: one_holder_def occupants_def holds_lock_def)

lemma all_done_unlocked:
  assumes "one_holder b" and "all_done b"
  shows "\<not> m_lock b"
proof -
  have "filter holds_lock (m_targets b) = []" using assms(2) by (auto simp: all_done_def holds_lock_def filter_empty_conv)
  with one_holder_length [OF assms(1)] show ?thesis by (simp split: if_splits)
qed

text \<open>
  C34: broadcasts and their callbacks end. With any number of loops and of other CPUs, waiting or not, with the lock
  or without, no sequence of steps of the sender and the targets is longer than two steps per broadcast, three per
  call and the return; and none is stuck before the sender has returned, every call has been answered and
  the lock is free.
\<close>

theorem callbacks_end:
  assumes "(mstep ^^ k) (many_start n s) b"
  shows "k \<le> nat (loops s) * (3 * n + 2) + 1 \<and>
    ((\<exists>b'. mstep b b') \<or> (m_pc b = Gone \<and> all_done b \<and> \<not> m_lock b))"
proof
  have len: "length (snd (ipi_bench_many s)) = nat (loops s)"
  proof -
    have "length (many_loop lk wt m) = m" for lk wt m by (induction m) simp_all
    then show ?thesis by (simp add: ipi_bench_many_def)
  qed
  have "many_rank n (many_start n s) = nat (loops s) * (3 * n + 2) + 1"
    by (simp add: many_rank_def many_start_def len sum_list_replicate)
  with broadcast.run_bounded [OF assms many_start_inv] show "k \<le> nat (loops s) * (3 * n + 2) + 1" by simp
  have "many_inv n s b \<and> one_holder b" by (rule many_reached [OF relpowp_imp_rtranclp [OF assms]])
  with broadcast.step_on [of n s b] all_done_unlocked [of b]
  show "(\<exists>b'. mstep b b') \<or> (m_pc b = Gone \<and> all_done b \<and> \<not> m_lock b)" by blast
qed

text \<open>One broadcast to one CPU, with the lock and waiting: as long as the bound allows.\<close>

definition ex_broadcast :: ipi_state where
  "ex_broadcast = ex_s\<lparr>loops := 1, wait := 1, lock := 1\<rparr>"

lemma ex_broadcast_run:
  "(mstep ^^ 6) (many_start 1 ex_broadcast)
     \<lparr>m_pc = Gone, m_lock = False, m_queues = [[]], m_targets = [Away_from_call]\<rparr>"
  apply (rule relpowp_more, simp, rule issue [of _ "Many_Spinlock 1" "[]"])
   apply (simp add: many_start_def ex_broadcast_def ipi_bench_many_def)
  apply (rule relpowp_more, simp, rule take_call [of 0 _ "Many_Spinlock 1" "[]"], simp_all add: many_start_def)
  apply (rule relpowp_more, simp, rule acquire [of 0], simp_all)
  apply (rule relpowp_more, simp, rule release [of 0], simp_all)
  apply (rule relpowp_more, simp, rule resume [of _ "[]"], simp, simp add: all_done_def)
  apply (rule relpowp_more, simp, rule return, simp, simp)
  done

theorem callbacks_end_witness:
  "\<exists>b. (mstep ^^ 6) (many_start 1 ex_broadcast) b \<and> m_pc b = Gone \<and> (6::nat) \<le> nat (loops ex_broadcast) * 5 + 1"
  using callbacks_end [OF ex_broadcast_run] ex_broadcast_run by (fastforce simp: ex_broadcast_def)

section \<open>The lock on the stack after the return\<close>

lemma issue_all:
  "m_pc b = Issue cs \<Longrightarrow> \<forall>c \<in> set cs. \<not> waits c \<Longrightarrow>
     mruns b (b\<lparr>m_pc := Issue [], m_queues := map (\<lambda>q. q @ cs) (m_queues b)\<rparr>)"
proof (induction cs arbitrary: b)
  case Nil
  then have "b\<lparr>m_pc := Issue [], m_queues := map (\<lambda>q. q @ []) (m_queues b)\<rparr> = b" by simp
  then show ?case by simp
next
  case (Cons c cs)
  let ?b = "b\<lparr>m_pc := Issue cs, m_queues := map (\<lambda>q. q @ [c]) (m_queues b)\<rparr>"
  have "mstep b ?b" using issue [OF Cons.prems(1)] Cons.prems(2) by simp
  moreover have "mruns ?b (?b\<lparr>m_pc := Issue [], m_queues := map (\<lambda>q. q @ cs) (m_queues ?b)\<rparr>)"
    by (rule Cons.IH) (use Cons.prems(2) in simp_all)
  ultimately show ?case by (simp add: comp_def converse_rtranclp_into_rtranclp)
qed

text \<open>
  C35: the spin lock of a broadcast is a local variable of \<open>ipi_bench_many\<close>. After the function has returned a
  callback is still going to take or to release it exactly when the module uses the lock, does not wait, and makes at least
  one call to another CPU. At any time at most one callback holds it.
\<close>

theorem lock_outlives_frame:
  "((\<exists>b. mruns (many_start n s) b \<and> m_pc b = Gone \<and> (\<exists>j < n. touches (m_targets b ! j))) \<longleftrightarrow>
      wait s = 0 \<and> lock s \<noteq> 0 \<and> 0 < loops s \<and> 0 < n) \<and>
   (mruns (many_start n s) b' \<longrightarrow> length (filter holds_lock (m_targets b')) = (if m_lock b' then 1 else 0))"
proof (intro conjI impI iffI)
  assume "mruns (many_start n s) b'"
  then show "length (filter holds_lock (m_targets b')) = (if m_lock b' then 1 else 0)"
    using many_reached one_holder_length by blast
next
  assume "\<exists>b. mruns (many_start n s) b \<and> m_pc b = Gone \<and> (\<exists>j < n. touches (m_targets b ! j))"
  then obtain b j where b: "mruns (many_start n s) b" "m_pc b = Gone" "j < n" "touches (m_targets b ! j)" by blast
  have inv: "many_inv n s b" using many_reached [OF b(1)] by blast
  then have j: "j < length (m_targets b)" using b(3) by (simp add: many_inv_def Let_def)
  from busy_target [OF this] b(4) have "\<not> all_done b" by (auto simp: touches_def)
  with inv b(2) show "wait s = 0" by (auto simp: many_inv_def Let_def)
  have "Before_lock \<in> entry ` set (snd (ipi_bench_many s))"
    using inv nth_mem [OF j] b(4) by (auto simp: many_inv_def Let_def)
  then show "lock s \<noteq> 0" "0 < loops s" by (auto simp: many_calls split: if_splits)
  show "0 < n" using b(3) by simp
next
  assume "wait s = 0 \<and> lock s \<noteq> 0 \<and> 0 < loops s \<and> 0 < n"
  then have a: "wait s = 0" "lock s \<noteq> 0" "0 < loops s" "0 < n" by simp_all
  obtain m where "nat (loops s) = Suc m" using a(3) by (metis gr0_implies_Suc zero_less_nat_eq)
  then obtain cs where cs: "snd (ipi_bench_many s) = Many_Spinlock 0 # cs" using a by (simp add: ipi_bench_many_def)
  let ?b1 = "(many_start n s)\<lparr>m_pc := Issue [], m_queues := map (\<lambda>q. q @ snd (ipi_bench_many s)) (m_queues (many_start n s))\<rparr>"
  let ?b2 = "?b1\<lparr>m_pc := Gone\<rparr>"
  let ?b3 = "?b2\<lparr>m_queues := (m_queues ?b2)[0 := cs], m_targets := (m_targets ?b2)[0 := entry (Many_Spinlock 0)]\<rparr>"
  have "mruns (many_start n s) ?b1"
    by (rule issue_all) (use a waits_calls in \<open>auto simp: many_start_def\<close>)
  moreover have "mstep ?b1 ?b2" by (rule return) simp
  moreover have "mstep ?b2 ?b3" by (rule take_call) (use a(4) cs in \<open>simp_all add: many_start_def\<close>)
  ultimately have "mruns (many_start n s) ?b3" by (meson rtranclp.rtrancl_into_rtrancl)
  moreover have "m_pc ?b3 = Gone" "touches (m_targets ?b3 ! 0)"
    using a(4) by (simp_all add: touches_def many_start_def)
  ultimately show "\<exists>b. mruns (many_start n s) b \<and> m_pc b = Gone \<and> (\<exists>j < n. touches (m_targets b ! j))"
    using a(4) by blast
qed

theorem lock_outlives_frame_witness:
  "(\<exists>b. mruns (many_start 2 (ex_broadcast\<lparr>wait := 0\<rparr>)) b \<and> m_pc b = Gone \<and> (\<exists>j < 2. touches (m_targets b ! j))) \<and>
   \<not> (\<exists>b. mruns (many_start 1 ex_broadcast) b \<and> m_pc b = Gone \<and> (\<exists>j < 1. touches (m_targets b ! j))) \<and>
   length (filter holds_lock [Away_from_call]) = 0"
proof -
  have "mruns (many_start 1 ex_broadcast)
      \<lparr>m_pc = Gone, m_lock = False, m_queues = [[]], m_targets = [Away_from_call]\<rparr>"
    using ex_broadcast_run by (rule relpowp_imp_rtranclp)
  with lock_outlives_frame [of 2 "ex_broadcast\<lparr>wait := 0\<rparr>"] lock_outlives_frame [of 1 ex_broadcast] show ?thesis
    by (fastforce simp: ex_broadcast_def)
qed

end
