(* ===== verification/Spec2Isabelle.thy ===== *)
theory Spec2Isabelle
  imports Exit_Race Wrmsr_Race Msr_Fields Msr_Bench Pio_Mmio_Bench Apic_Ipi Tlb_Shootdown Ipi_Broadcast Ipi_Callbacks
begin

text \<open>
  A verification development for kvm-utils: small kernel modules and one program that measure a KVM host or
  guest. The parts are independent of each other except for the shared clocks, and each is loaded, runs and is
  unloaded on its own. Two modules (\<open>debug/\<close>) attach probes to KVM and count VM exits and MSR writes; the
  benchmarks (\<open>microbenchmark/\<close>) do all their work while they are loaded, which they then let fail. All paths
  below are relative to \<open>src/\<close>.

  \<^bold>\<open>Theories and sources.\<close>
  \<^item> \<open>Kvm_Prelude\<close>: machine types, faults, checked array accesses, the kernel log as a list of formats with
    their arguments, loops over a range, lemmas on words and lists. A C \<open>int\<close> is an \<open>int\<close> with the wrap-around
    written where the code computes; \<open>long\<close>, \<open>unsigned\<close> and times are words.
  \<^item> \<open>Tally\<close>: the contract of the counting modules as the locales \<open>tally\<close> and \<open>event_counter\<close>, interpreted on
    the exit counters, the MSR counters and both sampling handlers.
  \<^item> \<open>Exit_Reason\<close> (\<open>debug/kvmexitreason/exit-reason.h\<close>): the table of names and the counters.
    \<open>Kvm_Exit_Probe\<close> (\<open>kvmexitreason.c\<close>): the probe table, the handler with its report once a second,
    registration with roll-back. \<open>Exit_Race\<close>: the same handler in single steps on several CPUs.
  \<^item> \<open>Spin_Section\<close>: a section of code under a spin lock, run by several processors at once, as the locale
    \<open>spin_section\<close> with its mutual exclusion; interpreted on the two report sections, the MSR table and the
    lock of the broadcasts. \<open>Ranked_Steps\<close>: runs that are bounded by a rank and can be completed, as the locales
    \<open>ranked_steps\<close> and \<open>ending_steps\<close>; interpreted on the handlers of kvmwrmsr, the benchmark threads, the single
    calls and the broadcasts.
  \<^item> \<open>Msr_Index\<close> (\<open>debug/kvmwrmsr/msr-index.h\<close>, \<open>apicdef.h\<close>, \<open>kvm_para.h\<close>): the register numbers in use.
    \<open>Wrmsr_Stats\<close> (\<open>msr.h\<close>): the MSR counters and the table of other MSRs. \<open>Kvm_Wrmsr\<close> (\<open>kvmwrmsr.c\<close>): the
    handler, the report and the module functions. \<open>Wrmsr_Race\<close>: the same handler in single steps on several
    CPUs, with its lock per table and its lock of the report.
  \<^item> \<open>Msr_Names\<close>: the macros without arguments of \<open>msr-index.h\<close>, \<open>kvm_para.h\<close> and \<open>local-msr-index.h\<close> (the
    include guards aside), as tables of a name with its register number, bit position or value. \<open>Msr_Fields\<close>: the macros of these headers that compute
    (machine-check banks, HWP requests) and the fields they describe, and the rest of \<open>apicdef.h\<close>.
    \<open>Apic_Layout\<close> (\<open>apicdef.h\<close>): the registers of the local APIC, as macros and as a structure.
  \<^item> \<open>Bench_Machine\<close> (\<open>microbenchmark/common/\<close>): the counter and the clock, over a trace of machine events.
    \<open>Msr_Bench\<close> (\<open>msr-bench/\<close>) and \<open>Pio_Mmio_Bench\<close> (\<open>pio-mmio-bench/\<close>): their timed loops as traces, the
    walks over the resource trees, the reports. \<open>Apic_Ipi\<close> (\<open>apic-ipi/\<close>): choice of targets and rounds.
  \<^item> \<open>C_Text\<close>: \<open>%d\<close> and \<open>snprintf\<close> where the code builds names. \<open>Tlb_Shootdown\<close>
    (\<open>tlb-shootdown-bench/\<close>): options, the thread routine over an address space, the program.
  \<^item> \<open>ipi-bench/ipi_bench.c\<close> in parts: \<open>Ipi_Params\<close> (module parameters and their completion by random draws),
    \<open>Ipi_Pick\<close> (choice of unused CPUs; locale \<open>cpu_picker\<close>), \<open>Ipi_Worker\<close> (one thread, creation of threads,
    reports), \<open>Ipi_Barrier\<close> (the threads together, as the step relation \<open>tstep\<close>; locale \<open>thread_work\<close>,
    interpreted for both kinds of thread), \<open>Ipi_Threads\<close> (what the barrier guarantees and what it does not),
    \<open>Ipi_Bench\<close> (the four benchmarks, load and unload, over a schedule), \<open>Ipi_Load\<close> and \<open>Ipi_Broadcast\<close>
    (what they report for every schedule), \<open>Ipi_Callbacks\<close> (the sender and the functions on the other CPUs in single
    steps, with the word on the sender's stack that they share).
\<close>

text \<open>
  \<^bold>\<open>What the lemmas show.\<close>
  \<^item> Counting, with handlers that run one after the other: no exit and no MSR write is lost or counted twice by a
    sequence of handlers and reports, but for the name \<open>MSR_MISC_FEATURES_ENABLES\<close>, whose report repeats another
    counter; printed totals are the sums of the lines below them; after a reset the reports are exact, and so is the
    table of other MSRs unless MSR 0 is written. All or no probes are armed after a load.
  \<^item> Counting on several CPUs, with handlers that overlap: whole handlers abstract the runs of their steps; from a
    state with no handler at work and the lock free, the lock of the report is held exactly while one CPU reports;
    the printed totals never exceed the exits counted, nor does their sum with the counter while no report is between
    its total and its reset; no handler of kvmexitreason faults or waits. But the plain counters can lose an exit or
    report it twice, and the late initialisation of the lock can let two reports overlap. The first 128 entries of
    the table of other MSRs are exact in every interleaving of the handlers of kvmwrmsr without MSR 0, and these
    handlers cannot deadlock; initialising the table while probes are armed can leave a hole in it.
  \<^item> Register numbers: the MSRs the headers name, and which of them are reported by name, by bank or only as a
    number; writes to 32 banks fill the table of other MSRs; the fields of a HWP request are separate, but for the
    mask of the activity window, which is wrong.
  \<^item> Benchmarks: the exact trace of each timed loop; the plan of the device walks and that the code follows
    it; targets of IPIs that are online, different and spread over the nodes, and the inputs for which they are
    not; the threads of the TLB benchmark touching and giving back every page, with exact sums.
  \<^item> The IPI benchmark: parameters completed to two different CPUs, and when the draws end; pairs of distinct
    CPUs; a pick as the first fit among 100000 draws, and what the draws were when a search gives up; in every interleaving nobody measures before all threads are there, runs are
    bounded and end, the arguments hold exactly the measured values when the wait is over, and each benchmark
    reports them line by line. Also what happens with a thread that could not be created, with counters of an
    earlier benchmark, after a timeout, and on unloading.
  \<^item> Calls to other CPUs: sender and callback in single steps measure what the sequential loop measures; every
    broadcast ends; at most one callback holds the lock; and the callbacks use the stack of a function that has
    returned exactly when the module is told not to wait.

  \<^bold>\<open>Loops, bounds and fuel.\<close> Loops over arrays and ranges are structural or have a measure. The retries of a pick
  are the code's own bound of 100000 (\<open>RETRY\<close>). The draws of the parameters may run for ever and are a partial
  function whose termination is a theorem about the stream of random numbers. Threads that spin are states without
  a step; \<open>hrank\<close> bounds a handler of kvmexitreason by 77 steps, \<open>rank\<close> bounds every run by six steps per thread, \<open>one_rank\<close> by six per round, \<open>many_rank\<close> by three per
  call and two per broadcast. Words wrap as in C; statements on numbers carry the bound
  under which they do not (counts below \<open>2 ^ 64\<close>, threads below \<open>2 ^ 62\<close>, so that the signed comparison at the
  barrier is exact). A fault (a bad index, a null pointer, a division by zero, an unmapped page) is a value of the
  sum type \<open>res\<close>.

  \<^bold>\<open>Parameters of the model.\<close> What is not in the repository is an argument: the numbers of the exit-reason macros (with
  the documented numbering as a named hypothesis), the results of registrations, allocations, mappings and thread
  creation, the clocks, the random numbers, the topology, the resource trees, the kernel version, and the schedule. The functions that
  call another CPU run there once per call, and before the call returns if it waits, as their documentation says.

  \<^bold>\<open>Not modelled.\<close> Makefiles and documents. \<open>APIC_BASE\<close> of \<open>apicdef.h\<close>, an address of the running
  kernel. How \<open>printk\<close> renders its arguments. A kernel
  without \<open>CONFIG_SCHED_INFO\<close>, for which \<open>ipi_bench.c\<close> does not compile. Calls that a CPU sends to itself. Several broadcasting
  threads at once, each the target of the others: \<open>mstep\<close> has one sender and its targets. Threads that a benchmark left behind by its timeout while a later benchmark of the
  same load runs. One turn of a printing loop, a \<open>memset\<close> and one call of a measurement are single steps in the
  concurrent models. Threads of the TLB benchmark work on disjoint parts of the address space and run one after
  the other, so their lines do not mix. The index of the loops over its buffer, an \<open>int\<close> in the code, is a natural
  number, which agrees for buffers below \<open>2 ^ 31\<close> bytes, such as the fixed one of 256 megabytes. \<open>atoi\<close> is the
  cast to \<open>int\<close> of the clamped value of \<open>strtol\<close>, as the C library has it.
\<close>

end
